(* ===== verification/BW_Prelude.thy ===== *)
theory BW_Prelude
  imports Main "HOL-Library.Word" "HOL-Library.AList" "HOL-Library.Char_ord"
    "HOL-Library.List_Lexorder"
begin

text \<open>
  Shared vocabulary of the development: the Go scalar types the source uses, 64-bit
  signed wrap-around, Go maps as association lists with distinct keys, and the list
  lemmas several components need. Strings are byte lists ordered lexicographically,
  as Go's string comparison orders them.
\<close>

type_synonym u8 = "8 word"
type_synonym u64 = "64 word"
type_synonym addr = nat
type_synonym chan = nat
type_synonym gotime = int
type_synonym duration = int
type_synonym ('k, 'v) gomap = "('k \<times> 'v) list"

section \<open>Signed 64-bit arithmetic\<close>

definition i64 :: "int \<Rightarrow> int" where
  "i64 x = (x + 2 ^ 63) mod 2 ^ 64 - 2 ^ 63"

definition in_i64 :: "int \<Rightarrow> bool" where
  "in_i64 x \<longleftrightarrow> - (2 ^ 63) \<le> x \<and> x < 2 ^ 63"

lemma i64_id [simp]: "in_i64 x \<Longrightarrow> i64 x = x"
  by (simp add: i64_def in_i64_def)

lemma i64_range: "in_i64 (i64 x)"
proof -
  have "0 \<le> (x + 2 ^ 63) mod 2 ^ 64" and "(x + 2 ^ 63) mod 2 ^ 64 < (2 :: int) ^ 64"
    by simp_all
  then show ?thesis by (simp add: i64_def in_i64_def)
qed

section \<open>Go maps\<close>

definition goget :: "('k, 'v list) gomap \<Rightarrow> 'k \<Rightarrow> 'v list" where
  "goget m k = (case map_of m k of None \<Rightarrow> [] | Some v \<Rightarrow> v)"

lemma map_of_delete_eq [simp]:
  "map_of (AList.delete k m) k' = (if k' = k then None else map_of m k')"
  by (simp add: AList.delete_conv')

lemma map_of_update_eq [simp]:
  "map_of (AList.update k v m) k' = (if k' = k then Some v else map_of m k')"
  by (simp add: AList.update_conv')

lemma goget_update [simp]: "goget (AList.update k v m) k' = (if k' = k then v else goget m k')"
  by (simp add: goget_def)

lemma map_of_map_entry_eq [simp]:
  "map_of (AList.map_entry k f m) k' =
     (if k' = k then map_option f (map_of m k) else map_of m k')"
  by (simp add: AList.map_of_map_entry split: option.split)

lemma map_fst_map_entry [simp]: "map fst (AList.map_entry k f m) = map fst m"
  by (induction m) auto

lemma length_map_entry [simp]: "length (AList.map_entry k f m) = length m"
  by (induction m) auto

lemma length_delete_present:
  "distinct (map fst m) \<Longrightarrow> map_of m k = Some v \<Longrightarrow> Suc (length (AList.delete k m)) = length m"
proof (induction m)
  case Nil
  then show ?case by simp
next
  case (Cons x m)
  then show ?case
    by (cases "fst x = k") (auto simp: AList.delete_id [unfolded image_set])
qed

section \<open>Lists\<close>

lemma sum_list_remove1:
  fixes f :: "'a \<Rightarrow> int"
  shows "a \<in> set xs \<Longrightarrow> (\<Sum>x\<leftarrow>remove1 a xs. f x) = (\<Sum>x\<leftarrow>xs. f x) - f a"
  by (induction xs) auto

lemma distinct_filter_map: "distinct (map f xs) \<Longrightarrow> distinct (map f (filter P xs))"
  by (induction xs) auto

lemma find_SomeD: "List.find P xs = Some x \<Longrightarrow> x \<in> set xs \<and> P x"
  by (induction xs) (auto split: if_splits)

end
