(* ===== verification/Go_Strings.thy ===== *)
theory Go_Strings
  imports BW_Prelude "HOL-Library.Sublist"
begin

text \<open>
  The functions of Go's strings and strconv packages that the modelled code calls, over byte
  strings, with the laws that parsers and printers rely on: splitting and joining are inverse,
  an index points at what was searched, decimal printing is injective.
\<close>

section \<open>The strings package\<close>

definition HasPrefix :: "string \<Rightarrow> string \<Rightarrow> bool" where
  "HasPrefix s p \<longleftrightarrow> prefix p s"

definition HasSuffix :: "string \<Rightarrow> string \<Rightarrow> bool" where
  "HasSuffix s p \<longleftrightarrow> suffix p s"

definition Contains :: "string \<Rightarrow> string \<Rightarrow> bool" where
  "Contains s sub \<longleftrightarrow> sublist sub s"

definition ContainsAny :: "string \<Rightarrow> string \<Rightarrow> bool" where
  "ContainsAny s chars \<longleftrightarrow> list_ex (\<lambda>c. c \<in> set chars) s"

text \<open>\<open>Split\<close> at every occurrence of one character, and \<open>Join\<close> with it.\<close>

fun Split :: "char \<Rightarrow> string \<Rightarrow> string list" where
  "Split d [] = [[]]"
| "Split d (c # cs) =
     (if c = d then [] # Split d cs
      else (case Split d cs of [] \<Rightarrow> [[c]] | seg # segs \<Rightarrow> (c # seg) # segs))"

fun Join :: "char \<Rightarrow> string list \<Rightarrow> string" where
  "Join d [] = []"
| "Join d [s] = s"
| "Join d (s # t # ss) = s @ d # Join d (t # ss)"

text \<open>\<open>Index\<close> of a two-character text, and \<open>LastIndex\<close> of one character; \<open>None\<close> is -1.\<close>

fun Index2 :: "char \<Rightarrow> char \<Rightarrow> string \<Rightarrow> nat option" where
  "Index2 a b (x # y # s) =
     (if x = a \<and> y = b then Some 0 else map_option Suc (Index2 a b (y # s)))"
| "Index2 a b s = None"

fun LastIndex :: "char \<Rightarrow> string \<Rightarrow> nat option" where
  "LastIndex d [] = None"
| "LastIndex d (c # s) =
     (case LastIndex d s of
        Some i \<Rightarrow> Some (Suc i)
      | None \<Rightarrow> if c = d then Some 0 else None)"

definition whitespace :: string where
  "whitespace = [CHR '' '', CHR 0x09, CHR 0x0D, CHR 0x0A]"

definition isLower :: "char \<Rightarrow> bool" where "isLower c \<longleftrightarrow> CHR ''a'' \<le> c \<and> c \<le> CHR ''z''"

definition isUpper :: "char \<Rightarrow> bool" where "isUpper c \<longleftrightarrow> CHR ''A'' \<le> c \<and> c \<le> CHR ''Z''"

definition isDigit :: "char \<Rightarrow> bool" where "isDigit c \<longleftrightarrow> CHR ''0'' \<le> c \<and> c \<le> CHR ''9''"

section \<open>Splitting and joining\<close>

lemma Split_ne [simp]: "Split d s \<noteq> []"
  by (induction d s rule: Split.induct) (auto split: list.splits)

lemma Join_Cons: "ss \<noteq> [] \<Longrightarrow> Join d (s # ss) = s @ d # Join d ss"
  by (cases ss) simp_all

lemma Join_Split [simp]: "Join d (Split d s) = s"
proof (induction d s rule: Split.induct)
  case (2 d c cs)
  then show ?case
    by (cases "Split d cs") (auto simp: Join_Cons split: if_splits, metis Join.simps(2,3) append_Cons neq_Nil_conv)
qed simp

lemma Split_clean: "seg \<in> set (Split d s) \<Longrightarrow> d \<notin> set seg"
  by (induction d s arbitrary: seg rule: Split.induct) (auto split: if_splits list.splits)

lemma Split_append: "d \<notin> set s \<Longrightarrow> Split d (s @ d # t) = s # Split d t"
  by (induction s) auto

lemma Split_single: "d \<notin> set s \<Longrightarrow> Split d s = [s]"
  by (induction s) auto

lemma Split_Join:
  assumes "ss \<noteq> []" "\<forall>s\<in>set ss. d \<notin> set s"
  shows "Split d (Join d ss) = ss"
  using assms by (induction ss rule: list_nonempty_induct) (auto simp: Join_Cons Split_append Split_single)

lemma Join_chars: "c \<in> set (Join d ss) \<Longrightarrow> c = d \<or> (\<exists>s\<in>set ss. c \<in> set s)"
  by (induction d ss rule: Join.induct) auto

lemma Join_ends:
  assumes "ss \<noteq> []" "\<forall>s\<in>set ss. s \<noteq> []"
  shows "Join d ss \<noteq> [] \<and> hd (Join d ss) = hd (hd ss) \<and> last (Join d ss) = last (last ss)"
  using assms by (induction d ss rule: Join.induct) (auto simp: hd_append)

lemma Index2_Some: "Index2 a b v = Some i \<Longrightarrow> v = take i v @ [a, b] @ drop (i + 2) v"
  by (induction a b v arbitrary: i rule: Index2.induct) (auto split: if_splits)

lemma Index2_None: "Index2 a b v = None \<longleftrightarrow> \<not> sublist [a, b] v"
  by (induction a b v rule: Index2.induct) (auto simp: sublist_Cons_right)

lemma Index2_first: "b \<notin> set p \<Longrightarrow> Index2 a b (p @ a # b # r) = Some (length p)"
proof (induction p)
  case (Cons x p)
  then show ?case by (cases p) auto
qed simp

lemma Index2_first': "a \<notin> set p \<Longrightarrow> Index2 a b (p @ a # b # r) = Some (length p)"
proof (induction p)
  case (Cons x p)
  then show ?case by (cases p) auto
qed simp

lemma LastIndex_Some: "LastIndex d v = Some i \<Longrightarrow> v = take i v @ d # drop (i + 1) v"
  by (induction v arbitrary: i) (auto split: option.splits if_splits)

lemma LastIndex_last: "d \<notin> set q \<Longrightarrow> LastIndex d (p @ d # q) = Some (length p)"
proof -
  assume "d \<notin> set q"
  then have "LastIndex d q = None" by (induction q) auto
  then show ?thesis by (induction p) simp_all
qed

lemma Contains_chars: "Contains v sub \<Longrightarrow> c \<in> set sub \<Longrightarrow> c \<in> set v"
  by (auto simp: Contains_def sublist_def)

text \<open>The assignment at the end of every UnmarshalText: the receiver changes only on success.\<close>

definition assignParsed :: "'a \<Rightarrow> 'e + 'a \<Rightarrow> 'a \<times> 'e option" where
  "assignParsed old r = (case r of Inl e \<Rightarrow> (old, Some e) | Inr v \<Rightarrow> (v, None))"

section \<open>Decimal numbers\<close>

fun showNat :: "nat \<Rightarrow> string" where
  "showNat n = (if n < 10 then [char_of (48 + n)] else showNat (n div 10) @ [char_of (48 + n mod 10)])"

declare showNat.simps [simp del]

definition Itoa :: "int \<Rightarrow> string" where
  "Itoa i = (if i < 0 then CHR ''-'' # showNat (nat (- i)) else showNat (nat i))"

lemma showNat_ne [simp]: "showNat n \<noteq> []" "[] \<noteq> showNat n"
  by (subst showNat.simps, simp)+

lemma digit_char:
  assumes "d < 10"
  shows "isDigit (char_of (48 + d :: nat))" "of_char (char_of (48 + d :: nat)) = 48 + d"
  using assms by (simp_all add: isDigit_def less_eq_char_def)

lemma showNat_digits: "c \<in> set (showNat n) \<Longrightarrow> isDigit c"
proof (induction n rule: showNat.induct)
  case (1 n)
  then show ?case
    by (subst (asm) showNat.simps) (auto simp: digit_char split: if_splits)
qed

lemma showNat_inj: "showNat m = showNat n \<Longrightarrow> m = n"
proof (induction m arbitrary: n rule: showNat.induct)
  case (1 m)
  have dig: "char_of (48 + a :: nat) = (char_of (48 + b) :: char) \<Longrightarrow> a < 10 \<Longrightarrow> b < 10 \<Longrightarrow> a = b" for a b
    by (metis add_left_cancel digit_char(2))
  show ?case
  proof (cases "m < 10"; cases "n < 10")
    assume "m < 10" "n < 10"
    with 1(2) dig show ?thesis by (simp add: showNat.simps)
  next
    assume "m < 10" "\<not> n < 10"
    with 1(2) show ?thesis by (simp add: showNat.simps [of m] showNat.simps [of n])
  next
    assume "\<not> m < 10" "n < 10"
    with 1(2) show ?thesis by (simp add: showNat.simps [of m] showNat.simps [of n])
  next
    assume b: "\<not> m < 10" "\<not> n < 10"
    with 1(2) have eq: "showNat (m div 10) = showNat (n div 10)"
      "char_of (48 + m mod 10) = (char_of (48 + n mod 10) :: char)"
      unfolding showNat.simps [of m] showNat.simps [of n] by auto
    have "m div 10 = n div 10" using 1(1) [OF b(1) eq(1)] .
    moreover have "m mod 10 = n mod 10" using dig [OF eq(2)] by simp
    ultimately show ?thesis by (metis div_mult_mod_eq)
  qed
qed

lemma Itoa_chars: "c \<in> set (Itoa i) \<Longrightarrow> c = CHR ''-'' \<or> isDigit c"
  by (auto simp: Itoa_def showNat_digits split: if_splits)

lemma Itoa_inj: "Itoa i = Itoa j \<Longrightarrow> i = j"
proof -
  have "CHR ''-'' \<notin> set (showNat n)" for n
    using showNat_digits [of "CHR ''-''"] by (auto simp: isDigit_def less_eq_char_def)
  moreover assume "Itoa i = Itoa j"
  ultimately show ?thesis
    by (auto simp: Itoa_def split: if_splits dest: showNat_inj) (metis list.set_intros(1))+
qed

end
