(* ===== verification/Op_Enums.thy ===== *)
theory Op_Enums
  imports Go_Strings
begin

text \<open>
  The enumerations of the operation package: kind.go, and the enumerated types of semantics.go,
  result.go, partition.go, scheduler.go, deduplication.go, retry.go and fallback.go, over the
  shared codec of enum.go. A Go enumeration is a uint8, so a value may lie outside the declared
  constants: values are \<open>u8\<close> and the constants abbreviate numbers. What is proved of a name
  table is proved once, in the locale \<open>name_table\<close>, and every table of the package is an instance.
\<close>

section \<open>Errors of the package\<close>

text \<open>
  A sentinel error value, a sentinel wrapped with a message (fmt.Errorf with one wrapped error;
  the message is the constant part of the format string), or a sentinel wrapping another error.
\<close>

datatype op_sentinel =
    ErrInvalidID | ErrInvalidSymbol | ErrInvalidKind | ErrInvalidEffect | ErrInvalidIdempotency
  | ErrInvalidOrdering | ErrInvalidAtomicity | ErrInvalidSemantics | ErrInvalidResultMode
  | ErrInvalidMissingBehavior | ErrInvalidErrorMode | ErrInvalidDuplicateBehavior
  | ErrInvalidUnexpectedBehavior | ErrInvalidResultContract | ErrInvalidScope | ErrInvalidDimension
  | ErrInvalidReceiverPolicy | ErrInvalidPartitionContract | ErrInvalidSchedulerMode
  | ErrInvalidSchedulerPolicy | ErrInvalidDeduplicationMode | ErrInvalidDeduplicationPolicy
  | ErrInvalidRetryClassification | ErrInvalidRetryPolicy | ErrInvalidFallbackMode
  | ErrInvalidFallbackPolicy | ErrInvalidKeyContract | ErrInvalidExtension

datatype op_error = Sentinel op_sentinel | Because op_sentinel string | Wraps op_sentinel op_error

section \<open>The codec (enum.go)\<close>

definition enumString :: "u8 \<Rightarrow> string list \<Rightarrow> string" where
  "enumString v names = (if unat v \<ge> length names then ''unknown'' else names ! unat v)"

fun parseFrom :: "nat \<Rightarrow> string \<Rightarrow> string list \<Rightarrow> nat option" where
  "parseFrom i s [] = None"
| "parseFrom i s (n # ns) = (if n = s then Some i else parseFrom (Suc i) s ns)"

definition parseEnum :: "string \<Rightarrow> string list \<Rightarrow> op_sentinel \<Rightarrow> op_error + u8" where
  "parseEnum s names base =
     (case parseFrom 0 s names of
        None \<Rightarrow> Inl (Because base s)
      | Some i \<Rightarrow> Inr (word_of_nat i))"

definition marshalEnum :: "u8 \<Rightarrow> string list \<Rightarrow> op_sentinel \<Rightarrow> op_error + string" where
  "marshalEnum v names base =
     (if unat v \<ge> length names then Inl (Sentinel base) else Inr (names ! unat v))"

section \<open>The tables\<close>

subsection \<open>Kind\<close>

abbreviation KindUnknown :: u8 where "KindUnknown \<equiv> 0"
abbreviation KindReadOnly :: u8 where "KindReadOnly \<equiv> 1"
abbreviation KindFreshnessSensitiveRead :: u8 where "KindFreshnessSensitiveRead \<equiv> 2"
abbreviation KindIdempotentWrite :: u8 where "KindIdempotentWrite \<equiv> 3"
abbreviation KindNonIdempotentWrite :: u8 where "KindNonIdempotentWrite \<equiv> 4"
abbreviation KindCommutativeAggregation :: u8 where "KindCommutativeAggregation \<equiv> 5"
abbreviation KindOrderedAggregation :: u8 where "KindOrderedAggregation \<equiv> 6"
abbreviation KindAtomicGroup :: u8 where "KindAtomicGroup \<equiv> 7"
abbreviation KindTransactionBound :: u8 where "KindTransactionBound \<equiv> 8"
abbreviation KindSessionBound :: u8 where "KindSessionBound \<equiv> 9"

definition kindNames :: "string list" where
  "kindNames = [''unknown'', ''read-only'', ''freshness-sensitive-read'', ''idempotent-write'', ''non-idempotent-write'', ''commutative-aggregation'', ''ordered-aggregation'', ''atomic-group'', ''transaction-bound'', ''session-bound'']"

definition Kind_String :: "u8 \<Rightarrow> string" where
  "Kind_String v = enumString v kindNames"

definition Kind_Valid :: "u8 \<Rightarrow> bool" where
  "Kind_Valid v \<longleftrightarrow> v \<noteq> KindUnknown \<and> unat v < length kindNames"

definition ParseKind :: "string \<Rightarrow> op_error + u8" where
  "ParseKind s = parseEnum s kindNames ErrInvalidKind"

definition Kind_MarshalText :: "u8 \<Rightarrow> op_error + string" where
  "Kind_MarshalText v = marshalEnum v kindNames ErrInvalidKind"

definition Kind_UnmarshalText :: "u8 \<Rightarrow> string \<Rightarrow> u8 \<times> op_error option" where
  "Kind_UnmarshalText v data = assignParsed v (ParseKind data)"

subsection \<open>Effect\<close>

abbreviation EffectUnknown :: u8 where "EffectUnknown \<equiv> 0"
abbreviation EffectRead :: u8 where "EffectRead \<equiv> 1"
abbreviation EffectWrite :: u8 where "EffectWrite \<equiv> 2"
abbreviation EffectAggregate :: u8 where "EffectAggregate \<equiv> 3"

definition effectNames :: "string list" where
  "effectNames = [''unknown'', ''read'', ''write'', ''aggregate'']"

definition Effect_String :: "u8 \<Rightarrow> string" where
  "Effect_String v = enumString v effectNames"

definition Effect_Valid :: "u8 \<Rightarrow> bool" where
  "Effect_Valid v \<longleftrightarrow> v \<noteq> EffectUnknown \<and> unat v < length effectNames"

definition ParseEffect :: "string \<Rightarrow> op_error + u8" where
  "ParseEffect s = parseEnum s effectNames ErrInvalidEffect"

definition Effect_MarshalText :: "u8 \<Rightarrow> op_error + string" where
  "Effect_MarshalText v = marshalEnum v effectNames ErrInvalidEffect"

definition Effect_UnmarshalText :: "u8 \<Rightarrow> string \<Rightarrow> u8 \<times> op_error option" where
  "Effect_UnmarshalText v data = assignParsed v (ParseEffect data)"

subsection \<open>Idempotency\<close>

abbreviation IdempotencyUnknown :: u8 where "IdempotencyUnknown \<equiv> 0"
abbreviation IdempotencyIdempotent :: u8 where "IdempotencyIdempotent \<equiv> 1"
abbreviation IdempotencyNonIdempotent :: u8 where "IdempotencyNonIdempotent \<equiv> 2"
abbreviation IdempotencyConditional :: u8 where "IdempotencyConditional \<equiv> 3"

definition idempotencyNames :: "string list" where
  "idempotencyNames = [''unknown'', ''idempotent'', ''non-idempotent'', ''conditional'']"

definition Idempotency_String :: "u8 \<Rightarrow> string" where
  "Idempotency_String v = enumString v idempotencyNames"

definition Idempotency_Valid :: "u8 \<Rightarrow> bool" where
  "Idempotency_Valid v \<longleftrightarrow> v \<noteq> IdempotencyUnknown \<and> unat v < length idempotencyNames"

definition ParseIdempotency :: "string \<Rightarrow> op_error + u8" where
  "ParseIdempotency s = parseEnum s idempotencyNames ErrInvalidIdempotency"

definition Idempotency_MarshalText :: "u8 \<Rightarrow> op_error + string" where
  "Idempotency_MarshalText v = marshalEnum v idempotencyNames ErrInvalidIdempotency"

definition Idempotency_UnmarshalText :: "u8 \<Rightarrow> string \<Rightarrow> u8 \<times> op_error option" where
  "Idempotency_UnmarshalText v data = assignParsed v (ParseIdempotency data)"

subsection \<open>Ordering\<close>

abbreviation OrderingPreserve :: u8 where "OrderingPreserve \<equiv> 0"
abbreviation OrderingReorderable :: u8 where "OrderingReorderable \<equiv> 1"
abbreviation OrderingCommutative :: u8 where "OrderingCommutative \<equiv> 2"

definition orderingNames :: "string list" where
  "orderingNames = [''preserve'', ''reorderable'', ''commutative'']"

definition Ordering_String :: "u8 \<Rightarrow> string" where
  "Ordering_String v = enumString v orderingNames"

definition Ordering_Valid :: "u8 \<Rightarrow> bool" where
  "Ordering_Valid v \<longleftrightarrow> unat v < length orderingNames"

definition ParseOrdering :: "string \<Rightarrow> op_error + u8" where
  "ParseOrdering s = parseEnum s orderingNames ErrInvalidOrdering"

definition Ordering_MarshalText :: "u8 \<Rightarrow> op_error + string" where
  "Ordering_MarshalText v = marshalEnum v orderingNames ErrInvalidOrdering"

definition Ordering_UnmarshalText :: "u8 \<Rightarrow> string \<Rightarrow> u8 \<times> op_error option" where
  "Ordering_UnmarshalText v data = assignParsed v (ParseOrdering data)"

subsection \<open>Atomicity\<close>

abbreviation AtomicityPerItem :: u8 where "AtomicityPerItem \<equiv> 0"
abbreviation AtomicityAllOrNothing :: u8 where "AtomicityAllOrNothing \<equiv> 1"
abbreviation AtomicityPrefix :: u8 where "AtomicityPrefix \<equiv> 2"
abbreviation AtomicityProviderDefined :: u8 where "AtomicityProviderDefined \<equiv> 3"

definition atomicityNames :: "string list" where
  "atomicityNames = [''per-item'', ''all-or-nothing'', ''prefix'', ''provider-defined'']"

definition Atomicity_String :: "u8 \<Rightarrow> string" where
  "Atomicity_String v = enumString v atomicityNames"

definition Atomicity_Valid :: "u8 \<Rightarrow> bool" where
  "Atomicity_Valid v \<longleftrightarrow> unat v < length atomicityNames"

definition ParseAtomicity :: "string \<Rightarrow> op_error + u8" where
  "ParseAtomicity s = parseEnum s atomicityNames ErrInvalidAtomicity"

definition Atomicity_MarshalText :: "u8 \<Rightarrow> op_error + string" where
  "Atomicity_MarshalText v = marshalEnum v atomicityNames ErrInvalidAtomicity"

definition Atomicity_UnmarshalText :: "u8 \<Rightarrow> string \<Rightarrow> u8 \<times> op_error option" where
  "Atomicity_UnmarshalText v data = assignParsed v (ParseAtomicity data)"

subsection \<open>ResultMode\<close>

abbreviation ResultOrdered :: u8 where "ResultOrdered \<equiv> 0"
abbreviation ResultKeyed :: u8 where "ResultKeyed \<equiv> 1"
abbreviation ResultSparse :: u8 where "ResultSparse \<equiv> 2"

definition resultModeNames :: "string list" where
  "resultModeNames = [''ordered'', ''keyed'', ''sparse'']"

definition ResultMode_String :: "u8 \<Rightarrow> string" where
  "ResultMode_String v = enumString v resultModeNames"

definition ResultMode_Valid :: "u8 \<Rightarrow> bool" where
  "ResultMode_Valid v \<longleftrightarrow> unat v < length resultModeNames"

definition ParseResultMode :: "string \<Rightarrow> op_error + u8" where
  "ParseResultMode s = parseEnum s resultModeNames ErrInvalidResultMode"

definition ResultMode_MarshalText :: "u8 \<Rightarrow> op_error + string" where
  "ResultMode_MarshalText v = marshalEnum v resultModeNames ErrInvalidResultMode"

definition ResultMode_UnmarshalText :: "u8 \<Rightarrow> string \<Rightarrow> u8 \<times> op_error option" where
  "ResultMode_UnmarshalText v data = assignParsed v (ParseResultMode data)"

subsection \<open>MissingBehavior\<close>

abbreviation MissingNotFound :: u8 where "MissingNotFound \<equiv> 0"
abbreviation MissingError :: u8 where "MissingError \<equiv> 1"
abbreviation MissingZeroValue :: u8 where "MissingZeroValue \<equiv> 2"
abbreviation MissingContractViolation :: u8 where "MissingContractViolation \<equiv> 3"

definition missingBehaviorNames :: "string list" where
  "missingBehaviorNames = [''not-found'', ''error'', ''zero-value'', ''contract-violation'']"

definition MissingBehavior_String :: "u8 \<Rightarrow> string" where
  "MissingBehavior_String v = enumString v missingBehaviorNames"

definition MissingBehavior_Valid :: "u8 \<Rightarrow> bool" where
  "MissingBehavior_Valid v \<longleftrightarrow> unat v < length missingBehaviorNames"

definition ParseMissingBehavior :: "string \<Rightarrow> op_error + u8" where
  "ParseMissingBehavior s = parseEnum s missingBehaviorNames ErrInvalidMissingBehavior"

definition MissingBehavior_MarshalText :: "u8 \<Rightarrow> op_error + string" where
  "MissingBehavior_MarshalText v = marshalEnum v missingBehaviorNames ErrInvalidMissingBehavior"

definition MissingBehavior_UnmarshalText :: "u8 \<Rightarrow> string \<Rightarrow> u8 \<times> op_error option" where
  "MissingBehavior_UnmarshalText v data = assignParsed v (ParseMissingBehavior data)"

subsection \<open>ErrorMode\<close>

abbreviation ErrorPerItem :: u8 where "ErrorPerItem \<equiv> 0"
abbreviation ErrorGlobal :: u8 where "ErrorGlobal \<equiv> 1"
abbreviation ErrorMixed :: u8 where "ErrorMixed \<equiv> 2"

definition errorModeNames :: "string list" where
  "errorModeNames = [''per-item'', ''global'', ''mixed'']"

definition ErrorMode_String :: "u8 \<Rightarrow> string" where
  "ErrorMode_String v = enumString v errorModeNames"

definition ErrorMode_Valid :: "u8 \<Rightarrow> bool" where
  "ErrorMode_Valid v \<longleftrightarrow> unat v < length errorModeNames"

definition ParseErrorMode :: "string \<Rightarrow> op_error + u8" where
  "ParseErrorMode s = parseEnum s errorModeNames ErrInvalidErrorMode"

definition ErrorMode_MarshalText :: "u8 \<Rightarrow> op_error + string" where
  "ErrorMode_MarshalText v = marshalEnum v errorModeNames ErrInvalidErrorMode"

definition ErrorMode_UnmarshalText :: "u8 \<Rightarrow> string \<Rightarrow> u8 \<times> op_error option" where
  "ErrorMode_UnmarshalText v data = assignParsed v (ParseErrorMode data)"

subsection \<open>DuplicateResultBehavior\<close>

abbreviation DuplicateContractViolation :: u8 where "DuplicateContractViolation \<equiv> 0"
abbreviation DuplicateFirst :: u8 where "DuplicateFirst \<equiv> 1"
abbreviation DuplicateLast :: u8 where "DuplicateLast \<equiv> 2"
abbreviation DuplicateCustom :: u8 where "DuplicateCustom \<equiv> 3"

definition duplicateBehaviorNames :: "string list" where
  "duplicateBehaviorNames = [''contract-violation'', ''first'', ''last'', ''custom'']"

definition DuplicateResultBehavior_String :: "u8 \<Rightarrow> string" where
  "DuplicateResultBehavior_String v = enumString v duplicateBehaviorNames"

definition DuplicateResultBehavior_Valid :: "u8 \<Rightarrow> bool" where
  "DuplicateResultBehavior_Valid v \<longleftrightarrow> unat v < length duplicateBehaviorNames"

definition ParseDuplicateResultBehavior :: "string \<Rightarrow> op_error + u8" where
  "ParseDuplicateResultBehavior s = parseEnum s duplicateBehaviorNames ErrInvalidDuplicateBehavior"

definition DuplicateResultBehavior_MarshalText :: "u8 \<Rightarrow> op_error + string" where
  "DuplicateResultBehavior_MarshalText v = marshalEnum v duplicateBehaviorNames ErrInvalidDuplicateBehavior"

definition DuplicateResultBehavior_UnmarshalText :: "u8 \<Rightarrow> string \<Rightarrow> u8 \<times> op_error option" where
  "DuplicateResultBehavior_UnmarshalText v data = assignParsed v (ParseDuplicateResultBehavior data)"

subsection \<open>UnexpectedResultBehavior\<close>

abbreviation UnexpectedContractViolation :: u8 where "UnexpectedContractViolation \<equiv> 0"
abbreviation UnexpectedError :: u8 where "UnexpectedError \<equiv> 1"

definition unexpectedBehaviorNames :: "string list" where
  "unexpectedBehaviorNames = [''contract-violation'', ''error'']"

definition UnexpectedResultBehavior_String :: "u8 \<Rightarrow> string" where
  "UnexpectedResultBehavior_String v = enumString v unexpectedBehaviorNames"

definition UnexpectedResultBehavior_Valid :: "u8 \<Rightarrow> bool" where
  "UnexpectedResultBehavior_Valid v \<longleftrightarrow> unat v < length unexpectedBehaviorNames"

definition ParseUnexpectedResultBehavior :: "string \<Rightarrow> op_error + u8" where
  "ParseUnexpectedResultBehavior s = parseEnum s unexpectedBehaviorNames ErrInvalidUnexpectedBehavior"

definition UnexpectedResultBehavior_MarshalText :: "u8 \<Rightarrow> op_error + string" where
  "UnexpectedResultBehavior_MarshalText v = marshalEnum v unexpectedBehaviorNames ErrInvalidUnexpectedBehavior"

definition UnexpectedResultBehavior_UnmarshalText :: "u8 \<Rightarrow> string \<Rightarrow> u8 \<times> op_error option" where
  "UnexpectedResultBehavior_UnmarshalText v data = assignParsed v (ParseUnexpectedResultBehavior data)"

subsection \<open>Scope\<close>

abbreviation ScopeRequest :: u8 where "ScopeRequest \<equiv> 0"
abbreviation ScopeJob :: u8 where "ScopeJob \<equiv> 1"
abbreviation ScopeGraphQLOperation :: u8 where "ScopeGraphQLOperation \<equiv> 2"
abbreviation ScopeSession :: u8 where "ScopeSession \<equiv> 3"
abbreviation ScopeTransaction :: u8 where "ScopeTransaction \<equiv> 4"
abbreviation ScopeProcess :: u8 where "ScopeProcess \<equiv> 5"
abbreviation ScopeCustom :: u8 where "ScopeCustom \<equiv> 6"

definition scopeNames :: "string list" where
  "scopeNames = [''request'', ''job'', ''graphql-operation'', ''session'', ''transaction'', ''process'', ''custom'']"

definition Scope_String :: "u8 \<Rightarrow> string" where
  "Scope_String v = enumString v scopeNames"

definition Scope_Valid :: "u8 \<Rightarrow> bool" where
  "Scope_Valid v \<longleftrightarrow> unat v < length scopeNames"

definition ParseScope :: "string \<Rightarrow> op_error + u8" where
  "ParseScope s = parseEnum s scopeNames ErrInvalidScope"

definition Scope_MarshalText :: "u8 \<Rightarrow> op_error + string" where
  "Scope_MarshalText v = marshalEnum v scopeNames ErrInvalidScope"

definition Scope_UnmarshalText :: "u8 \<Rightarrow> string \<Rightarrow> u8 \<times> op_error option" where
  "Scope_UnmarshalText v data = assignParsed v (ParseScope data)"

subsection \<open>ReceiverPolicy\<close>

abbreviation ReceiverSame :: u8 where "ReceiverSame \<equiv> 0"
abbreviation ReceiverAny :: u8 where "ReceiverAny \<equiv> 1"

definition receiverPolicyNames :: "string list" where
  "receiverPolicyNames = [''same-receiver'', ''any-receiver'']"

definition ReceiverPolicy_String :: "u8 \<Rightarrow> string" where
  "ReceiverPolicy_String v = enumString v receiverPolicyNames"

definition ReceiverPolicy_Valid :: "u8 \<Rightarrow> bool" where
  "ReceiverPolicy_Valid v \<longleftrightarrow> unat v < length receiverPolicyNames"

subsection \<open>MissingDimensionBehavior\<close>

abbreviation MissingDimensionError :: u8 where "MissingDimensionError \<equiv> 0"
abbreviation MissingDimensionReject :: u8 where "MissingDimensionReject \<equiv> 1"

definition missingDimensionNames :: "string list" where
  "missingDimensionNames = [''error'', ''reject'']"

definition MissingDimensionBehavior_String :: "u8 \<Rightarrow> string" where
  "MissingDimensionBehavior_String v = enumString v missingDimensionNames"

definition MissingDimensionBehavior_Valid :: "u8 \<Rightarrow> bool" where
  "MissingDimensionBehavior_Valid v \<longleftrightarrow> unat v < length missingDimensionNames"

subsection \<open>SchedulerMode\<close>

abbreviation SchedulerImmediateWave :: u8 where "SchedulerImmediateWave \<equiv> 0"
abbreviation SchedulerFixedWindow :: u8 where "SchedulerFixedWindow \<equiv> 1"
abbreviation SchedulerAdaptive :: u8 where "SchedulerAdaptive \<equiv> 2"
abbreviation SchedulerManual :: u8 where "SchedulerManual \<equiv> 3"
abbreviation SchedulerThroughput :: u8 where "SchedulerThroughput \<equiv> 4"
abbreviation SchedulerLatency :: u8 where "SchedulerLatency \<equiv> 5"
abbreviation SchedulerDeadlineAware :: u8 where "SchedulerDeadlineAware \<equiv> 6"

definition schedulerModeNames :: "string list" where
  "schedulerModeNames = [''immediate-wave'', ''fixed-window'', ''adaptive'', ''manual'', ''throughput'', ''latency'', ''deadline-aware'']"

definition SchedulerMode_String :: "u8 \<Rightarrow> string" where
  "SchedulerMode_String v = enumString v schedulerModeNames"

definition SchedulerMode_Valid :: "u8 \<Rightarrow> bool" where
  "SchedulerMode_Valid v \<longleftrightarrow> unat v < length schedulerModeNames"

definition ParseSchedulerMode :: "string \<Rightarrow> op_error + u8" where
  "ParseSchedulerMode s = parseEnum s schedulerModeNames ErrInvalidSchedulerMode"

definition SchedulerMode_MarshalText :: "u8 \<Rightarrow> op_error + string" where
  "SchedulerMode_MarshalText v = marshalEnum v schedulerModeNames ErrInvalidSchedulerMode"

definition SchedulerMode_UnmarshalText :: "u8 \<Rightarrow> string \<Rightarrow> u8 \<times> op_error option" where
  "SchedulerMode_UnmarshalText v data = assignParsed v (ParseSchedulerMode data)"

subsection \<open>FairnessMode\<close>

abbreviation FairnessFIFO :: u8 where "FairnessFIFO \<equiv> 0"
abbreviation FairnessWeighted :: u8 where "FairnessWeighted \<equiv> 1"

definition fairnessNames :: "string list" where
  "fairnessNames = [''fifo'', ''weighted'']"

definition FairnessMode_String :: "u8 \<Rightarrow> string" where
  "FairnessMode_String v = enumString v fairnessNames"

definition FairnessMode_Valid :: "u8 \<Rightarrow> bool" where
  "FairnessMode_Valid v \<longleftrightarrow> unat v < length fairnessNames"

subsection \<open>OverflowBehavior\<close>

abbreviation BehaviorBlock :: u8 where "BehaviorBlock \<equiv> 0"
abbreviation BehaviorReject :: u8 where "BehaviorReject \<equiv> 1"
abbreviation BehaviorFallback :: u8 where "BehaviorFallback \<equiv> 2"

definition overflowNames :: "string list" where
  "overflowNames = [''block'', ''reject'', ''fallback'']"

definition OverflowBehavior_String :: "u8 \<Rightarrow> string" where
  "OverflowBehavior_String v = enumString v overflowNames"

definition OverflowBehavior_Valid :: "u8 \<Rightarrow> bool" where
  "OverflowBehavior_Valid v \<longleftrightarrow> unat v < length overflowNames"

subsection \<open>DeduplicationMode\<close>

abbreviation DeduplicationDisabled :: u8 where "DeduplicationDisabled \<equiv> 0"
abbreviation DeduplicationExact :: u8 where "DeduplicationExact \<equiv> 1"
abbreviation DeduplicationCanonical :: u8 where "DeduplicationCanonical \<equiv> 2"

definition deduplicationModeNames :: "string list" where
  "deduplicationModeNames = [''disabled'', ''exact'', ''canonical'']"

definition DeduplicationMode_String :: "u8 \<Rightarrow> string" where
  "DeduplicationMode_String v = enumString v deduplicationModeNames"

definition DeduplicationMode_Valid :: "u8 \<Rightarrow> bool" where
  "DeduplicationMode_Valid v \<longleftrightarrow> unat v < length deduplicationModeNames"

definition ParseDeduplicationMode :: "string \<Rightarrow> op_error + u8" where
  "ParseDeduplicationMode s = parseEnum s deduplicationModeNames ErrInvalidDeduplicationMode"

definition DeduplicationMode_MarshalText :: "u8 \<Rightarrow> op_error + string" where
  "DeduplicationMode_MarshalText v = marshalEnum v deduplicationModeNames ErrInvalidDeduplicationMode"

definition DeduplicationMode_UnmarshalText :: "u8 \<Rightarrow> string \<Rightarrow> u8 \<times> op_error option" where
  "DeduplicationMode_UnmarshalText v data = assignParsed v (ParseDeduplicationMode data)"

subsection \<open>JitterMode\<close>

abbreviation JitterNone :: u8 where "JitterNone \<equiv> 0"
abbreviation JitterFull :: u8 where "JitterFull \<equiv> 1"
abbreviation JitterEqual :: u8 where "JitterEqual \<equiv> 2"

definition jitterNames :: "string list" where
  "jitterNames = [''none'', ''full'', ''equal'']"

definition JitterMode_String :: "u8 \<Rightarrow> string" where
  "JitterMode_String v = enumString v jitterNames"

definition JitterMode_Valid :: "u8 \<Rightarrow> bool" where
  "JitterMode_Valid v \<longleftrightarrow> unat v < length jitterNames"

subsection \<open>RetryClassification\<close>

abbreviation RetryTransport :: u8 where "RetryTransport \<equiv> 0"
abbreviation RetryThrottled :: u8 where "RetryThrottled \<equiv> 1"
abbreviation RetryTimeout :: u8 where "RetryTimeout \<equiv> 2"
abbreviation RetryUnavailable :: u8 where "RetryUnavailable \<equiv> 3"
abbreviation RetryConflict :: u8 where "RetryConflict \<equiv> 4"

definition retryClassificationNames :: "string list" where
  "retryClassificationNames = [''transport'', ''throttled'', ''timeout'', ''unavailable'', ''conflict'']"

definition RetryClassification_String :: "u8 \<Rightarrow> string" where
  "RetryClassification_String v = enumString v retryClassificationNames"

definition RetryClassification_Valid :: "u8 \<Rightarrow> bool" where
  "RetryClassification_Valid v \<longleftrightarrow> unat v < length retryClassificationNames"

definition ParseRetryClassification :: "string \<Rightarrow> op_error + u8" where
  "ParseRetryClassification s = parseEnum s retryClassificationNames ErrInvalidRetryClassification"

definition RetryClassification_MarshalText :: "u8 \<Rightarrow> op_error + string" where
  "RetryClassification_MarshalText v = marshalEnum v retryClassificationNames ErrInvalidRetryClassification"

definition RetryClassification_UnmarshalText :: "u8 \<Rightarrow> string \<Rightarrow> u8 \<times> op_error option" where
  "RetryClassification_UnmarshalText v data = assignParsed v (ParseRetryClassification data)"

subsection \<open>UnknownOutcomeBehavior\<close>

abbreviation UnknownOutcomeNoRetry :: u8 where "UnknownOutcomeNoRetry \<equiv> 0"
abbreviation UnknownOutcomeRetry :: u8 where "UnknownOutcomeRetry \<equiv> 1"

definition unknownOutcomeNames :: "string list" where
  "unknownOutcomeNames = [''no-retry'', ''retry'']"

definition UnknownOutcomeBehavior_String :: "u8 \<Rightarrow> string" where
  "UnknownOutcomeBehavior_String v = enumString v unknownOutcomeNames"

definition UnknownOutcomeBehavior_Valid :: "u8 \<Rightarrow> bool" where
  "UnknownOutcomeBehavior_Valid v \<longleftrightarrow> unat v < length unknownOutcomeNames"

subsection \<open>FallbackMode\<close>

abbreviation FallbackScalar :: u8 where "FallbackScalar \<equiv> 0"
abbreviation FallbackBatchOfOne :: u8 where "FallbackBatchOfOne \<equiv> 1"
abbreviation FallbackParallelScalar :: u8 where "FallbackParallelScalar \<equiv> 2"
abbreviation FallbackReject :: u8 where "FallbackReject \<equiv> 3"

definition fallbackModeNames :: "string list" where
  "fallbackModeNames = [''scalar'', ''batch-of-one'', ''parallel-scalar'', ''reject'']"

definition FallbackMode_String :: "u8 \<Rightarrow> string" where
  "FallbackMode_String v = enumString v fallbackModeNames"

definition FallbackMode_Valid :: "u8 \<Rightarrow> bool" where
  "FallbackMode_Valid v \<longleftrightarrow> unat v < length fallbackModeNames"

definition ParseFallbackMode :: "string \<Rightarrow> op_error + u8" where
  "ParseFallbackMode s = parseEnum s fallbackModeNames ErrInvalidFallbackMode"

definition FallbackMode_MarshalText :: "u8 \<Rightarrow> op_error + string" where
  "FallbackMode_MarshalText v = marshalEnum v fallbackModeNames ErrInvalidFallbackMode"

definition FallbackMode_UnmarshalText :: "u8 \<Rightarrow> string \<Rightarrow> u8 \<times> op_error option" where
  "FallbackMode_UnmarshalText v data = assignParsed v (ParseFallbackMode data)"

text \<open>The enumerations with a text form, with the error of their parser.\<close>

definition enumTables :: "(string list \<times> op_sentinel) list" where
  "enumTables = [
     (kindNames, ErrInvalidKind),
     (effectNames, ErrInvalidEffect),
     (idempotencyNames, ErrInvalidIdempotency),
     (orderingNames, ErrInvalidOrdering),
     (atomicityNames, ErrInvalidAtomicity),
     (resultModeNames, ErrInvalidResultMode),
     (missingBehaviorNames, ErrInvalidMissingBehavior),
     (errorModeNames, ErrInvalidErrorMode),
     (duplicateBehaviorNames, ErrInvalidDuplicateBehavior),
     (unexpectedBehaviorNames, ErrInvalidUnexpectedBehavior),
     (scopeNames, ErrInvalidScope),
     (schedulerModeNames, ErrInvalidSchedulerMode),
     (deduplicationModeNames, ErrInvalidDeduplicationMode),
     (retryClassificationNames, ErrInvalidRetryClassification),
     (fallbackModeNames, ErrInvalidFallbackMode)]"

section \<open>What holds of every table\<close>

lemma parseFrom_Some:
  "parseFrom i s names = Some j \<Longrightarrow> i \<le> j \<and> j < i + length names \<and> names ! (j - i) = s"
proof (induction i s names rule: parseFrom.induct)
  case (2 i s n ns)
  then show ?case
    by (cases "n = s") (force simp: nth_Cons' Suc_diff_le)+
qed simp

lemma parseFrom_nth:
  "distinct names \<Longrightarrow> j < length names \<Longrightarrow> parseFrom i (names ! j) names = Some (i + j)"
proof (induction names arbitrary: i j)
  case (Cons n ns)
  then show ?case
    by (cases j) (auto simp: nth_mem)
qed simp

locale name_table =
  fixes names :: "string list"
  assumes distinct_names: "distinct names"
    and short: "length names \<le> 256"
begin

lemma small_index: "j < length names \<Longrightarrow> unat (word_of_nat j :: u8) = j"
  using short by (simp add: unsigned_of_nat take_bit_nat_eq_self)

lemma parse_iff: "parseEnum s names base = Inr v \<longleftrightarrow> unat v < length names \<and> names ! unat v = s"
proof
  assume "parseEnum s names base = Inr v"
  then obtain j where j: "parseFrom 0 s names = Some j" "v = word_of_nat j"
    by (auto simp: parseEnum_def split: option.splits)
  with parseFrom_Some [OF j(1)] show "unat v < length names \<and> names ! unat v = s"
    by (simp add: small_index)
next
  assume v: "unat v < length names \<and> names ! unat v = s"
  then have "parseFrom 0 s names = Some (unat v)"
    using parseFrom_nth [OF distinct_names, of "unat v" 0] by simp
  then show "parseEnum s names base = Inr v"
    by (simp add: parseEnum_def)
qed

lemma marshal_iff: "marshalEnum v names base = Inr s \<longleftrightarrow> unat v < length names \<and> names ! unat v = s"
  by (auto simp: marshalEnum_def)

lemma roundtrip: "parseEnum s names base = Inr v \<longleftrightarrow> marshalEnum v names base = Inr s"
  by (simp only: parse_iff marshal_iff)

lemma print_parse: "unat v < length names \<Longrightarrow> parseEnum (enumString v names) names base = Inr v"
  by (simp add: parse_iff enumString_def)

end

interpretation Kind: name_table kindNames
  by unfold_locales (simp_all add: kindNames_def)

interpretation Effect: name_table effectNames
  by unfold_locales (simp_all add: effectNames_def)

interpretation Idempotency: name_table idempotencyNames
  by unfold_locales (simp_all add: idempotencyNames_def)

interpretation Ordering: name_table orderingNames
  by unfold_locales (simp_all add: orderingNames_def)

interpretation Atomicity: name_table atomicityNames
  by unfold_locales (simp_all add: atomicityNames_def)

interpretation ResultMode: name_table resultModeNames
  by unfold_locales (simp_all add: resultModeNames_def)

interpretation MissingBehavior: name_table missingBehaviorNames
  by unfold_locales (simp_all add: missingBehaviorNames_def)

interpretation ErrorMode: name_table errorModeNames
  by unfold_locales (simp_all add: errorModeNames_def)

interpretation DuplicateResultBehavior: name_table duplicateBehaviorNames
  by unfold_locales (simp_all add: duplicateBehaviorNames_def)

interpretation UnexpectedResultBehavior: name_table unexpectedBehaviorNames
  by unfold_locales (simp_all add: unexpectedBehaviorNames_def)

interpretation Scope: name_table scopeNames
  by unfold_locales (simp_all add: scopeNames_def)

interpretation ReceiverPolicy: name_table receiverPolicyNames
  by unfold_locales (simp_all add: receiverPolicyNames_def)

interpretation MissingDimensionBehavior: name_table missingDimensionNames
  by unfold_locales (simp_all add: missingDimensionNames_def)

interpretation SchedulerMode: name_table schedulerModeNames
  by unfold_locales (simp_all add: schedulerModeNames_def)

interpretation FairnessMode: name_table fairnessNames
  by unfold_locales (simp_all add: fairnessNames_def)

interpretation OverflowBehavior: name_table overflowNames
  by unfold_locales (simp_all add: overflowNames_def)

interpretation DeduplicationMode: name_table deduplicationModeNames
  by unfold_locales (simp_all add: deduplicationModeNames_def)

interpretation JitterMode: name_table jitterNames
  by unfold_locales (simp_all add: jitterNames_def)

interpretation RetryClassification: name_table retryClassificationNames
  by unfold_locales (simp_all add: retryClassificationNames_def)

interpretation UnknownOutcomeBehavior: name_table unknownOutcomeNames
  by unfold_locales (simp_all add: unknownOutcomeNames_def)

interpretation FallbackMode: name_table fallbackModeNames
  by unfold_locales (simp_all add: fallbackModeNames_def)

text \<open>Every enumeration with a text form has an exact one: for each of the package's fifteen
  name tables and every value and text, parsing the text yields the value exactly when the value
  marshals to that text. So no two values share a text, out-of-range values never marshal, and
  configuration files round-trip.\<close>

theorem enum_text_roundtrip:
  "list_all (\<lambda>(names, base). \<forall>v s. parseEnum s names base = Inr v \<longleftrightarrow> marshalEnum v names base = Inr s)
     enumTables"
  unfolding enumTables_def
  by (simp only: list.pred_inject prod.case simp_thms, intro conjI allI Kind.roundtrip Effect.roundtrip Idempotency.roundtrip Ordering.roundtrip Atomicity.roundtrip ResultMode.roundtrip MissingBehavior.roundtrip ErrorMode.roundtrip DuplicateResultBehavior.roundtrip UnexpectedResultBehavior.roundtrip Scope.roundtrip SchedulerMode.roundtrip DeduplicationMode.roundtrip RetryClassification.roundtrip FallbackMode.roundtrip)

end
