(* ===== verification/Op_Names.thy ===== *)
theory Op_Names
  imports Op_Enums
begin

text \<open>
  The textual names of the operation package: operation identifiers (id.go), Go symbol
  references (symbol.go) and the names of partition dimensions (partition.go). The loops over
  runes read bytes here: every byte of a multi-byte rune is at least 128 and so is the rune,
  and all the character classes tested are within ASCII, so a text is accepted in one reading
  exactly when it is in the other.
\<close>

section \<open>Operation identifiers (id.go)\<close>

definition isSep :: "char \<Rightarrow> bool" where "isSep c \<longleftrightarrow> c = CHR ''_'' \<or> c = CHR ''-''"

definition maxIDBytes :: nat where "maxIDBytes = 255"

definition maxSegmentBytes :: nat where "maxSegmentBytes = 63"

definition reservedPrefixes :: "string list" where
  "reservedPrefixes = [''batchweaver'', ''internal'', ''system'']"

text \<open>The character loop of validateSegment; \<open>i\<close> is the index of the next character.\<close>

fun segmentLoop :: "nat \<Rightarrow> string \<Rightarrow> string option" where
  "segmentLoop i [] = None"
| "segmentLoop i (c # cs) =
     (if isLower c then segmentLoop (Suc i) cs
      else if i = 0 then Some ''segment must start with a lowercase letter''
      else if isDigit c \<or> c = CHR ''_'' \<or> c = CHR ''-'' then segmentLoop (Suc i) cs
      else Some ''segment contains invalid character'')"

definition validateSegment :: "string \<Rightarrow> string option" where
  "validateSegment seg =
     (if seg = [] then Some ''segment is empty''
      else if length seg > maxSegmentBytes then Some ''segment exceeds bytes''
      else
        (case segmentLoop 0 seg of
           Some e \<Rightarrow> Some e
         | None \<Rightarrow>
             if last seg = CHR ''_'' \<or> last seg = CHR ''-''
               then Some ''segment must not end with _ or -''
             else if Contains seg ''--'' \<or> Contains seg ''__'' \<or> Contains seg ''-_'' \<or> Contains seg ''_-''
               then Some ''segment must not contain consecutive separators''
             else None))"

fun validateSegments :: "string list \<Rightarrow> string option" where
  "validateSegments [] = None"
| "validateSegments (seg # segs) =
     (case validateSegment seg of Some e \<Rightarrow> Some e | None \<Rightarrow> validateSegments segs)"

definition ParseID :: "string \<Rightarrow> op_error + string" where
  "ParseID v =
     (if v = [] then Inl (Because ErrInvalidID ''id is empty'')
      else if length v > maxIDBytes then Inl (Because ErrInvalidID ''id exceeds bytes'')
      else if ContainsAny v whitespace then Inl (Because ErrInvalidID ''id contains whitespace'')
      else if HasPrefix v ''.'' \<or> HasSuffix v ''.''
        then Inl (Because ErrInvalidID ''id has a leading or trailing dot'')
      else
        (let segments = Split CHR ''.'' v in
         if length segments < 2 then Inl (Because ErrInvalidID ''id must have at least two segments'')
         else
           (case validateSegments segments of
              Some e \<Rightarrow> Inl (Because ErrInvalidID e)
            | None \<Rightarrow>
                if hd segments \<in> set reservedPrefixes
                  then Inl (Because ErrInvalidID ''first segment is reserved'')
                else Inr v)))"

definition ID_Validate :: "string \<Rightarrow> op_error option" where
  "ID_Validate i = (case ParseID i of Inl e \<Rightarrow> Some e | Inr _ \<Rightarrow> None)"

definition ID_Segments :: "string \<Rightarrow> string list" where
  "ID_Segments i = (if ID_Validate i \<noteq> None then [] else Split CHR ''.'' i)"

definition ID_MarshalText :: "string \<Rightarrow> op_error + string" where
  "ID_MarshalText i = (case ID_Validate i of Some e \<Rightarrow> Inl e | None \<Rightarrow> Inr i)"

definition ID_UnmarshalText :: "string \<Rightarrow> string \<Rightarrow> string \<times> op_error option" where
  "ID_UnmarshalText old data = assignParsed old (ParseID data)"

section \<open>Go symbol references (symbol.go)\<close>

record Symbol =
  importPath :: string
  receiver :: string
  sname :: string
  pointer :: bool

definition zeroSymbol :: Symbol where
  "zeroSymbol = \<lparr>importPath = [], receiver = [], sname = [], pointer = False\<rparr>"

definition isImportPathRune :: "char \<Rightarrow> bool" where
  "isImportPathRune r \<longleftrightarrow>
     isLower r \<or> isUpper r \<or> isDigit r \<or> r = CHR ''.'' \<or> r = CHR ''_'' \<or> r = CHR ''-'' \<or> r = CHR ''~''"

definition validateImportPath :: "string \<Rightarrow> op_error option" where
  "validateImportPath path =
     (if path = [] then Some (Because ErrInvalidSymbol ''import path is empty'')
      else if HasPrefix path ''/'' then Some (Because ErrInvalidSymbol ''import path must not be absolute'')
      else if HasPrefix path ''.'' then Some (Because ErrInvalidSymbol ''import path must not be relative'')
      else if ContainsAny path [CHR 0x5C, CHR '':'']
        then Some (Because ErrInvalidSymbol ''import path looks like a filesystem path'')
      else
        (case List.find (\<lambda>seg. seg = [] \<or> seg = ''.'' \<or> seg = ''..'' \<or> \<not> list_all isImportPathRune seg)
                (Split CHR ''/'' path) of
           None \<Rightarrow> None
         | Some seg \<Rightarrow>
             if seg = [] \<or> seg = ''.'' \<or> seg = ''..''
             then Some (Because ErrInvalidSymbol ''import path has an invalid segment'')
             else Some (Because ErrInvalidSymbol ''import path contains invalid character'')))"

fun identLoop :: "nat \<Rightarrow> string \<Rightarrow> bool" where
  "identLoop i [] = True"
| "identLoop i (r # rs) =
     (if r = CHR ''_'' then identLoop (Suc i) rs
      else if isLower r \<or> isUpper r then identLoop (Suc i) rs
      else if i > 0 \<and> isDigit r then identLoop (Suc i) rs
      else False)"

definition validateGoIdentifier :: "string \<Rightarrow> op_error option" where
  "validateGoIdentifier s =
     (if s = [] then Some (Because ErrInvalidSymbol ''is empty'')
      else if \<not> identLoop 0 s then Some (Because ErrInvalidSymbol ''is not a valid Go identifier'')
      else None)"

definition parseFunctionSymbol :: "string \<Rightarrow> op_error + Symbol" where
  "parseFunctionSymbol v =
     (if ContainsAny v ''()'' then Inl (Because ErrInvalidSymbol ''malformed parentheses'')
      else
        (case LastIndex CHR ''.'' v of
           None \<Rightarrow> Inl (Because ErrInvalidSymbol ''function symbol must be <import-path>.<Name>'')
         | Some dot \<Rightarrow>
             if dot = 0 \<or> dot = length v - 1
             then Inl (Because ErrInvalidSymbol ''function symbol must be <import-path>.<Name>'')
             else
               (case validateImportPath (take dot v) of
                  Some e \<Rightarrow> Inl e
                | None \<Rightarrow>
                    (case validateGoIdentifier (drop (dot + 1) v) of
                       Some e \<Rightarrow> Inl e
                     | None \<Rightarrow> Inr (zeroSymbol\<lparr>importPath := take dot v, sname := drop (dot + 1) v\<rparr>)))))"

definition methodSymbol :: "string \<Rightarrow> bool \<Rightarrow> string \<Rightarrow> string \<Rightarrow> op_error + Symbol" where
  "methodSymbol path ptr recv name =
     (case validateGoIdentifier recv of
        Some e \<Rightarrow> Inl e
      | None \<Rightarrow>
          (case validateGoIdentifier name of
             Some e \<Rightarrow> Inl e
           | None \<Rightarrow> Inr \<lparr>importPath = path, receiver = recv, sname = name, pointer = ptr\<rparr>))"

definition parseMethodSymbol :: "string \<Rightarrow> op_error + Symbol" where
  "parseMethodSymbol v =
     (case Index2 CHR ''.'' CHR ''('' v of
        None \<Rightarrow> Inl (Because ErrInvalidSymbol ''malformed method symbol'')
      | Some opn \<Rightarrow>
          (let path = take opn v; rest = drop (opn + 2) v in
           case validateImportPath path of
             Some e \<Rightarrow> Inl e
           | None \<Rightarrow>
               (case Index2 CHR '')'' CHR ''.'' rest of
                  None \<Rightarrow> Inl (Because ErrInvalidSymbol ''malformed method receiver'')
                | Some cls \<Rightarrow>
                    (let recvPart = take cls rest; name = drop (cls + 2) rest in
                     if ContainsAny name ''().'' then Inl (Because ErrInvalidSymbol ''malformed method name'')
                     else if HasPrefix recvPart ''*'' then methodSymbol path True (drop 1 recvPart) name
                     else methodSymbol path False recvPart name))))"

definition isControl :: "char \<Rightarrow> bool" where
  "isControl r \<longleftrightarrow> of_char r < (0x20 :: nat) \<or> of_char r = (0x7F :: nat)"

definition ParseSymbol :: "string \<Rightarrow> op_error + Symbol" where
  "ParseSymbol v =
     (if v = [] then Inl (Because ErrInvalidSymbol ''symbol is empty'')
      else if ContainsAny v whitespace then Inl (Because ErrInvalidSymbol ''symbol contains whitespace'')
      else if list_ex isControl v then Inl (Because ErrInvalidSymbol ''symbol contains control characters'')
      else if Contains v ''.('' then parseMethodSymbol v
      else parseFunctionSymbol v)"

definition Symbol_IsMethod :: "Symbol \<Rightarrow> bool" where "Symbol_IsMethod s \<longleftrightarrow> receiver s \<noteq> []"

definition Symbol_IsZero :: "Symbol \<Rightarrow> bool" where "Symbol_IsZero s \<longleftrightarrow> s = zeroSymbol"

definition Symbol_String :: "Symbol \<Rightarrow> string" where
  "Symbol_String s =
     (if receiver s = [] then importPath s @ ''.'' @ sname s
      else if pointer s then importPath s @ ''.(*'' @ receiver s @ '').'' @ sname s
      else importPath s @ ''.('' @ receiver s @ '').'' @ sname s)"

definition Symbol_Validate :: "Symbol \<Rightarrow> op_error option" where
  "Symbol_Validate s =
     (if Symbol_IsZero s then Some (Because ErrInvalidSymbol ''symbol is empty'')
      else (case ParseSymbol (Symbol_String s) of Inl e \<Rightarrow> Some e | Inr _ \<Rightarrow> None))"

definition Symbol_MarshalText :: "Symbol \<Rightarrow> op_error + string" where
  "Symbol_MarshalText s = (case Symbol_Validate s of Some e \<Rightarrow> Inl e | None \<Rightarrow> Inr (Symbol_String s))"

definition Symbol_UnmarshalText :: "Symbol \<Rightarrow> string \<Rightarrow> Symbol \<times> op_error option" where
  "Symbol_UnmarshalText old data = assignParsed old (ParseSymbol data)"

section \<open>Partition dimensions (partition.go)\<close>

definition knownDimensions :: "string list" where
  "knownDimensions = [''receiver'', ''tenant'', ''authorization'', ''transaction'', ''session'', ''consistency'',
     ''region'', ''encryption-context'', ''deadline-class'']"

definition reservedDimensionNames :: "string list" where
  "reservedDimensionNames = [''receiver'', ''tenant'', ''authorization'', ''transaction'', ''session'',
     ''consistency'', ''region'', ''encryption-context'', ''deadline-class'', ''custom'', ''unknown'']"

fun dimensionLoop :: "nat \<Rightarrow> string \<Rightarrow> bool" where
  "dimensionLoop i [] = True"
| "dimensionLoop i (c # cs) =
     (if isLower c then dimensionLoop (Suc i) cs
      else if i > 0 \<and> (isDigit c \<or> c = CHR ''-'') then dimensionLoop (Suc i) cs
      else False)"

definition validateDimensionName :: "string \<Rightarrow> op_error option" where
  "validateDimensionName name =
     (if name = [] then Some (Because ErrInvalidDimension ''dimension name is empty'')
      else if length name > maxSegmentBytes then Some (Because ErrInvalidDimension ''dimension name exceeds bytes'')
      else if \<not> dimensionLoop 0 name then Some (Because ErrInvalidDimension ''has invalid character'')
      else if HasSuffix name ''-'' \<or> Contains name ''--''
        then Some (Because ErrInvalidDimension ''has a misplaced hyphen'')
      else None)"

definition CustomDimension :: "string \<Rightarrow> op_error + string" where
  "CustomDimension name =
     (case validateDimensionName name of
        Some e \<Rightarrow> Inl e
      | None \<Rightarrow>
          if name \<in> set reservedDimensionNames then Inl (Because ErrInvalidDimension ''is reserved'')
          else Inr name)"

definition Dimension_Validate :: "string \<Rightarrow> op_error option" where
  "Dimension_Validate d =
     (if d \<in> set knownDimensions then None
      else if d \<in> set reservedDimensionNames
        then Some (Because ErrInvalidDimension ''is reserved and not a well-known dimension'')
      else validateDimensionName d)"

definition Dimension_IsWellKnown :: "string \<Rightarrow> bool" where
  "Dimension_IsWellKnown d \<longleftrightarrow> d \<in> set knownDimensions"

section \<open>Identifiers: the character loop and the grammar\<close>

text \<open>
  The grammar the documentation describes: a segment starts with a lower-case letter, and
  single separators stand between letters and digits.
\<close>

inductive segment :: "string \<Rightarrow> bool" where
  first: "isLower c \<Longrightarrow> segment [c]"
| more: "segment s \<Longrightarrow> isLower c \<or> isDigit c \<Longrightarrow> segment (s @ [c])"
| sep: "segment s \<Longrightarrow> isSep d \<Longrightarrow> isLower c \<or> isDigit c \<Longrightarrow> segment (s @ [d, c])"

definition segChar :: "char \<Rightarrow> bool" where
  "segChar c \<longleftrightarrow> isLower c \<or> isDigit c \<or> isSep c"

lemma sep_disjoint: "isSep c \<Longrightarrow> \<not> isLower c \<and> \<not> isDigit c" "isDigit c \<Longrightarrow> \<not> isLower c"
  by (auto simp: isSep_def isLower_def isDigit_def less_eq_char_def)

lemma segmentLoop_Suc: "segmentLoop (Suc i) cs = None \<longleftrightarrow> list_all segChar cs"
  by (induction cs arbitrary: i) (auto simp: segChar_def isSep_def)

fun noPairs :: "string \<Rightarrow> bool" where
  "noPairs (a # b # s) = (\<not> (isSep a \<and> isSep b) \<and> noPairs (b # s))"
| "noPairs s = True"

lemma noPairs_iff:
  "noPairs s \<longleftrightarrow> \<not> (Contains s ''--'' \<or> Contains s ''__'' \<or> Contains s ''-_'' \<or> Contains s ''_-'')"
proof (induction s rule: noPairs.induct)
  case (1 a b s)
  have "sublist [x, y] (a # b # s) \<longleftrightarrow> x = a \<and> y = b \<or> sublist [x, y] (b # s)" for x y
    by (simp add: sublist_Cons_right)
  with 1 show ?case
    by (auto simp: Contains_def isSep_def)
qed (auto simp: Contains_def sublist_Cons_right)

lemma segmentLoop_None: "segmentLoop 0 s = None \<longleftrightarrow> s = [] \<or> isLower (hd s) \<and> list_all segChar (tl s)"
  by (cases s) (simp_all add: segmentLoop_Suc)

lemma validateSegment_None:
  "validateSegment s = None \<longleftrightarrow>
     s \<noteq> [] \<and> length s \<le> maxSegmentBytes \<and> isLower (hd s) \<and> list_all segChar (tl s) \<and>
     \<not> isSep (last s) \<and> noPairs s"
proof -
  have "validateSegment s = None \<longleftrightarrow>
      s \<noteq> [] \<and> length s \<le> maxSegmentBytes \<and> segmentLoop 0 s = None \<and> \<not> isSep (last s) \<and> noPairs s"
    by (cases "segmentLoop 0 s") (simp_all add: validateSegment_def noPairs_iff isSep_def not_less)
  then show ?thesis by (auto simp: segmentLoop_None)
qed

lemma segment_sound: "segment s \<Longrightarrow> s \<noteq> [] \<and> isLower (hd s) \<and> list_all segChar (tl s) \<and> \<not> isSep (last s) \<and> noPairs s"
proof (induction rule: segment.induct)
  case (first c)
  then show ?case using sep_disjoint by auto
next
  case (more s c)
  have "noPairs (s @ [c])" if "noPairs s" "\<not> isSep c" for s
    using that by (induction s rule: noPairs.induct) auto
  then have "noPairs (s @ [c])" using more sep_disjoint by blast
  with more sep_disjoint show ?case
    by (cases s rule: list.exhaust) (auto simp: segChar_def)
next
  case (sep s d c)
  have "noPairs (s @ [d, c])" if "noPairs s" "s \<noteq> []" "\<not> isSep (last s)" "\<not> isSep c" for s
    using that by (induction s rule: noPairs.induct) auto
  then have "noPairs (s @ [d, c])" using sep sep_disjoint by blast
  with sep sep_disjoint show ?case
    by (cases s rule: list.exhaust) (auto simp: segChar_def)
qed

lemma segment_complete:
  "s \<noteq> [] \<Longrightarrow> isLower (hd s) \<Longrightarrow> list_all segChar (tl s) \<Longrightarrow> \<not> isSep (last s) \<Longrightarrow> noPairs s \<Longrightarrow> segment s"
proof (induction "length s" arbitrary: s rule: less_induct)
  case less
  obtain t c where s: "s = t @ [c]"
    using less.prems(1) by (metis append_butlast_last_id)
  have noPairs_left: "noPairs (u @ v) \<Longrightarrow> noPairs u" for u v
    by (induction u rule: noPairs.induct) auto
  have pair: "noPairs (u @ [a, b]) \<Longrightarrow> \<not> (isSep a \<and> isSep b)" for u a b
    by (induction u rule: noPairs.induct) auto
  show ?case
  proof (cases t rule: rev_cases)
    case Nil
    with s less.prems(2) show ?thesis by (simp add: segment.first)
  next
    case (snoc u d)
    have c: "isLower c \<or> isDigit c"
      using less.prems(3,4) s snoc by (cases u) (auto simp: segChar_def)
    show ?thesis
    proof (cases "isSep d")
      case True
      have "u \<noteq> []"
        using True less.prems(2) s snoc sep_disjoint(1) [of d] by (cases u) auto
      moreover have "\<not> isSep (last u)"
        using pair [of "butlast u" "last u" d] noPairs_left [of t "[c]"] less.prems(5) s snoc True \<open>u \<noteq> []\<close>
        by (metis append.assoc append_butlast_last_id append_Cons append_Nil)
      ultimately have "segment u"
        using less.hyps [of u] less.prems s snoc noPairs_left [of u "[d, c]"] by (cases u) auto
      from segment.sep [OF this True c] s snoc show ?thesis by simp
    next
      case False
      have "segment t"
        using less.hyps [of t] less.prems s snoc False noPairs_left [of t "[c]"] by (cases u) auto
      from segment.more [OF this c] s show ?thesis by simp
    qed
  qed
qed

lemma validateSegment_grammar:
  "validateSegment s = None \<longleftrightarrow> segment s \<and> length s \<le> maxSegmentBytes"
  using segment_sound segment_complete validateSegment_None by blast

lemma validateSegments_None: "validateSegments ss = None \<longleftrightarrow> (\<forall>s\<in>set ss. validateSegment s = None)"
  by (induction ss) (auto split: option.splits)

lemma segment_clean: "segment s \<Longrightarrow> c \<in> set s \<Longrightarrow> c \<noteq> CHR ''.'' \<and> c \<notin> set whitespace"
  by (induction arbitrary: c rule: segment.induct)
    (auto simp: isLower_def isDigit_def isSep_def whitespace_def less_eq_char_def)

lemma ParseID_text: "ParseID v = Inr w \<Longrightarrow> w = v"
  by (auto simp: ParseID_def Let_def split: if_splits option.splits)

text \<open>C34: An operation identifier is accepted exactly when it follows the grammar: at least two
  segments joined by dots, at most 255 bytes in all and 63 per segment, each segment a lower-case
  letter followed by letters and digits with single separators between them, and the first
  segment not reserved. An accepted identifier is returned unchanged.\<close>

theorem ParseID_correct:
  "ParseID v = Inr w \<longleftrightarrow> w = v \<and> length v \<le> 255 \<and>
     (\<exists>segs. v = Join CHR ''.'' segs \<and> 2 \<le> length segs \<and>
        list_all (\<lambda>s. segment s \<and> length s \<le> 63) segs \<and> hd segs \<notin> set reservedPrefixes)"
  (is "_ \<longleftrightarrow> w = v \<and> _ \<and> ?grammar")
proof
  assume p: "ParseID v = Inr w"
  then have "2 \<le> length (Split CHR ''.'' v)" "validateSegments (Split CHR ''.'' v) = None"
      "hd (Split CHR ''.'' v) \<notin> set reservedPrefixes" "length v \<le> 255"
    by (auto simp: ParseID_def Let_def maxIDBytes_def split: if_splits option.splits)
  with ParseID_text [OF p] show "w = v \<and> length v \<le> 255 \<and> ?grammar"
    by (auto simp: validateSegments_None validateSegment_grammar list_all_iff maxSegmentBytes_def
        intro!: exI [of _ "Split CHR ''.'' v"])
next
  assume g: "w = v \<and> length v \<le> 255 \<and> ?grammar"
  then obtain segs where v: "v = Join CHR ''.'' segs" and len: "2 \<le> length segs"
    and seg: "\<And>s. s \<in> set segs \<Longrightarrow> segment s \<and> length s \<le> 63" and res: "hd segs \<notin> set reservedPrefixes"
    by (auto simp: list_all_iff)
  have ne: "segs \<noteq> []" and nes: "\<forall>s\<in>set segs. s \<noteq> []"
    using len seg segment_sound by auto
  have split: "Split CHR ''.'' v = segs"
    unfolding v using ne seg segment_clean by (intro Split_Join) auto
  have "c \<notin> set whitespace" if "c \<in> set v" for c
    using Join_chars [OF that [unfolded v]] seg segment_clean by (auto simp: whitespace_def)
  then have white: "\<not> ContainsAny v whitespace"
    by (auto simp: ContainsAny_def list_ex_iff)
  have ends: "v \<noteq> []" "hd v \<noteq> CHR ''.''" "last v \<noteq> CHR ''.''"
    using Join_ends [OF ne nes, of "CHR ''.''"] seg segment_clean ne nes unfolding v
    by (metis hd_in_set last_in_set)+
  have dots: "\<not> HasPrefix v ''.''" "\<not> HasSuffix v ''.''"
    using ends by (auto simp: HasPrefix_def HasSuffix_def prefix_def suffix_def)
  have "validateSegments segs = None"
    using seg by (auto simp: validateSegments_None validateSegment_grammar maxSegmentBytes_def)
  with g white dots ends split len res show "ParseID v = Inr w"
    by (simp add: ParseID_def Let_def maxIDBytes_def)
qed

section \<open>Symbols: printing and parsing are inverse\<close>

definition wf_symbol :: "Symbol \<Rightarrow> bool" where
  "wf_symbol s \<longleftrightarrow> validateImportPath (importPath s) = None \<and> validateGoIdentifier (sname s) = None \<and>
     (if receiver s = [] then \<not> pointer s else validateGoIdentifier (receiver s) = None)"

definition plain :: "char \<Rightarrow> bool" where
  "plain c \<longleftrightarrow> c \<notin> set whitespace \<and> \<not> isControl c \<and> c \<noteq> CHR ''('' \<and> c \<noteq> CHR '')''"

lemma ident_chars: "identLoop i s \<Longrightarrow> c \<in> set s \<Longrightarrow> plain c \<and> c \<noteq> CHR ''.'' \<and> c \<noteq> CHR ''*''"
proof (induction i s rule: identLoop.induct)
  case (2 i r rs)
  have "isLower x \<or> isUpper x \<or> isDigit x \<or> x = CHR ''_'' \<Longrightarrow> plain x \<and> x \<noteq> CHR ''.'' \<and> x \<noteq> CHR ''*''" for x
    by (auto simp: plain_def whitespace_def isControl_def isLower_def isUpper_def isDigit_def less_eq_char_def)
  with 2 show ?case by (auto split: if_splits)
qed simp

lemma goIdentifier_chars:
  "validateGoIdentifier s = None \<Longrightarrow> s \<noteq> [] \<and> (\<forall>c\<in>set s. plain c \<and> c \<noteq> CHR ''.'' \<and> c \<noteq> CHR ''*'')"
  using ident_chars by (fastforce simp: validateGoIdentifier_def split: if_splits)

lemma goIdentifier_clean:
  "validateGoIdentifier s = None \<Longrightarrow>
     CHR ''('' \<notin> set s \<and> CHR '')'' \<notin> set s \<and> CHR ''.'' \<notin> set s \<and> CHR ''*'' \<notin> set s"
  using goIdentifier_chars plain_def by blast

lemma importPath_chars: "validateImportPath p = None \<Longrightarrow> p \<noteq> [] \<and> (\<forall>c\<in>set p. plain c)"
proof -
  assume v: "validateImportPath p = None"
  then have ne: "p \<noteq> []" and "List.find (\<lambda>seg. seg = [] \<or> seg = ''.'' \<or> seg = ''..'' \<or> \<not> list_all isImportPathRune seg)
      (Split CHR ''/'' p) = None"
    by (auto simp: validateImportPath_def split: if_splits option.splits)
  then have rune: "\<forall>seg\<in>set (Split CHR ''/'' p). \<forall>c\<in>set seg. isImportPathRune c"
    by (auto simp: find_None_iff list_all_iff)
  have "isImportPathRune c \<or> c = CHR ''/''" if "c \<in> set p" for c
    using Join_chars [of c "CHR ''/''" "Split CHR ''/'' p"] rune that by auto
  moreover have "isImportPathRune c \<or> c = CHR ''/'' \<Longrightarrow> plain c" for c
    by (auto simp: plain_def whitespace_def isControl_def isImportPathRune_def isLower_def isUpper_def isDigit_def
        less_eq_char_def)
  ultimately show ?thesis using ne by blast
qed

lemma Symbol_String_clean:
  assumes "wf_symbol s"
  shows "Symbol_String s \<noteq> []" "\<not> ContainsAny (Symbol_String s) whitespace" "\<not> list_ex isControl (Symbol_String s)"
proof -
  have p: "\<forall>c\<in>set (importPath s). plain c"
    using assms importPath_chars [of "importPath s"] by (simp add: wf_symbol_def)
  have n: "sname s \<noteq> []" "\<forall>c\<in>set (sname s). plain c"
    using assms goIdentifier_chars [of "sname s"] by (simp_all add: wf_symbol_def)
  have r: "\<forall>c\<in>set (receiver s). plain c"
    using assms goIdentifier_chars [of "receiver s"] by (cases "receiver s = []") (simp_all add: wf_symbol_def)
  have "\<forall>c\<in>set (Symbol_String s). c \<notin> set whitespace \<and> \<not> isControl c"
  proof
    fix c assume "c \<in> set (Symbol_String s)"
    then have "plain c \<or> c \<in> {CHR ''.'', CHR ''('', CHR '')'', CHR ''*''}"
      using p n r by (auto simp: Symbol_String_def split: if_splits)
    moreover have "c \<notin> set whitespace \<and> \<not> isControl c" if "c \<in> {CHR ''.'', CHR ''('', CHR '')'', CHR ''*''}"
      using that by (auto simp: whitespace_def isControl_def)
    ultimately show "c \<notin> set whitespace \<and> \<not> isControl c"
      by (auto simp only: plain_def)
  qed
  then show "\<not> ContainsAny (Symbol_String s) whitespace" "\<not> list_ex isControl (Symbol_String s)"
    by (auto simp: ContainsAny_def list_ex_iff)
  show "Symbol_String s \<noteq> []"
    using n by (simp add: Symbol_String_def)
qed

lemma parse_function_complete:
  assumes "wf_symbol s" "receiver s = []"
  shows "ParseSymbol (Symbol_String s) = Inr s"
proof -
  let ?v = "importPath s @ CHR ''.'' # sname s"
  have str: "Symbol_String s = ?v" using assms by (simp add: Symbol_String_def)
  have p: "importPath s \<noteq> []" "\<forall>c\<in>set (importPath s). plain c" "validateImportPath (importPath s) = None"
    and n: "sname s \<noteq> []" "\<forall>c\<in>set (sname s). plain c \<and> c \<noteq> CHR ''.''" "validateGoIdentifier (sname s) = None"
    using assms importPath_chars [of "importPath s"] goIdentifier_chars [of "sname s"]
    by (simp_all add: wf_symbol_def)
  have par: "\<not> ContainsAny ?v ''()''"
    using p n by (auto simp: ContainsAny_def list_ex_iff plain_def)
  then have "\<not> Contains ?v ''.(''"
    using Contains_chars [of ?v "''.(''" "CHR ''(''"] by (auto simp: ContainsAny_def list_ex_iff)
  moreover have "LastIndex CHR ''.'' ?v = Some (length (importPath s))"
    using n by (intro LastIndex_last) auto
  ultimately show ?thesis
    using Symbol_String_clean [OF assms(1)] par p n assms
    by (simp add: ParseSymbol_def str parseFunctionSymbol_def zeroSymbol_def wf_symbol_def)
qed

lemma parse_method_complete:
  assumes "wf_symbol s" "receiver s \<noteq> []"
  shows "ParseSymbol (Symbol_String s) = Inr s"
proof -
  define star where "star = (if pointer s then ''*'' else [])"
  let ?rest = "star @ receiver s @ CHR '')'' # CHR ''.'' # sname s"
  let ?v = "importPath s @ CHR ''.'' # CHR ''('' # ?rest"
  have str: "Symbol_String s = ?v" using assms by (simp add: Symbol_String_def star_def)
  have p: "CHR ''('' \<notin> set (importPath s)" "validateImportPath (importPath s) = None"
    using assms(1) importPath_chars [of "importPath s"] by (auto simp only: wf_symbol_def plain_def)
  have n: "validateGoIdentifier (sname s) = None"
    using assms(1) by (simp add: wf_symbol_def)
  have n': "\<not> ContainsAny (sname s) ''().''"
    using goIdentifier_clean [OF n] by (simp add: ContainsAny_def list_ex_iff) metis
  have r: "validateGoIdentifier (receiver s) = None"
    using assms by (simp add: wf_symbol_def)
  note r' = goIdentifier_clean [OF r]
  then have r'': "\<not> HasPrefix (receiver s) ''*''"
    by (cases "receiver s") (simp_all add: HasPrefix_def)
  have meth: "Contains ?v ''.(''"
    unfolding Contains_def sublist_def by (intro exI [of _ "importPath s"] exI [of _ ?rest]) simp
  have opn: "Index2 CHR ''.'' CHR ''('' ?v = Some (length (importPath s))"
    by (rule Index2_first [OF p(1)])
  have cls: "Index2 CHR '')'' CHR ''.'' ?rest = Some (length (star @ receiver s))"
    using Index2_first' [of "CHR '')''" "star @ receiver s" "CHR ''.''" "sname s"] r' by (simp add: star_def)
  have "parseMethodSymbol ?v = Inr s"
    using p n n' r r'' opn cls
    by (simp add: parseMethodSymbol_def Let_def methodSymbol_def star_def HasPrefix_def)
  with meth Symbol_String_clean [OF assms(1)] show ?thesis
    by (simp add: ParseSymbol_def str)
qed

lemma ParseSymbol_sound: "ParseSymbol v = Inr s \<Longrightarrow> wf_symbol s \<and> Symbol_String s = v"
proof -
  have fn: "wf_symbol s \<and> Symbol_String s = v" if "parseFunctionSymbol v = Inr s"
  proof -
    from that obtain dot where dot: "LastIndex CHR ''.'' v = Some dot"
        "validateImportPath (take dot v) = None" "validateGoIdentifier (drop (dot + 1) v) = None"
        "s = zeroSymbol\<lparr>importPath := take dot v, sname := drop (dot + 1) v\<rparr>"
      by (auto simp: parseFunctionSymbol_def split: if_splits option.splits)
    with LastIndex_Some [OF dot(1)] show ?thesis
      by (simp add: wf_symbol_def Symbol_String_def zeroSymbol_def)
  qed
  have meth: "wf_symbol s \<and> Symbol_String s = v" if "parseMethodSymbol v = Inr s"
  proof -
    from that obtain opn cls where opn: "Index2 CHR ''.'' CHR ''('' v = Some opn"
        and cls: "Index2 CHR '')'' CHR ''.'' (drop (opn + 2) v) = Some cls"
        and path: "validateImportPath (take opn v) = None"
        and s: "(if HasPrefix (take cls (drop (opn + 2) v)) ''*''
           then methodSymbol (take opn v) True (drop 1 (take cls (drop (opn + 2) v))) (drop (cls + 2) (drop (opn + 2) v))
           else methodSymbol (take opn v) False (take cls (drop (opn + 2) v)) (drop (cls + 2) (drop (opn + 2) v))) = Inr s"
      by (auto simp only: parseMethodSymbol_def Let_def split: if_splits option.splits)
    define r where "r = take cls (drop (opn + 2) v)"
    have star: "r = CHR ''*'' # drop 1 r" if "HasPrefix r ''*''"
      using that by (auto simp: HasPrefix_def prefix_def)
    have v: "v = take opn v @ [CHR ''.'', CHR ''(''] @ r @ [CHR '')'', CHR ''.''] @ drop (cls + 2) (drop (opn + 2) v)"
      using Index2_Some [OF opn] Index2_Some [OF cls] by (simp add: r_def)
    have m: "wf_symbol s \<and> Symbol_String s = take opn v @ [CHR ''.'', CHR ''(''] @
        ((if ptr then ''*'' else []) @ rc) @ [CHR '')'', CHR ''.''] @ drop (cls + 2) (drop (opn + 2) v)"
      if "methodSymbol (take opn v) ptr rc (drop (cls + 2) (drop (opn + 2) v)) = Inr s" for ptr rc
      using that path by (auto simp: methodSymbol_def wf_symbol_def Symbol_String_def validateGoIdentifier_def
          split: option.splits if_splits)
    show ?thesis
    proof (cases "HasPrefix r ''*''")
      case True
      with s have "methodSymbol (take opn v) True (drop 1 r) (drop (cls + 2) (drop (opn + 2) v)) = Inr s"
        by (simp add: r_def)
      from m [OF this] have "wf_symbol s \<and> Symbol_String s = take opn v @ [CHR ''.'', CHR ''(''] @
          (CHR ''*'' # drop 1 r) @ [CHR '')'', CHR ''.''] @ drop (cls + 2) (drop (opn + 2) v)"
        by simp
      then show ?thesis
        unfolding star [OF True, symmetric] v [symmetric] .
    next
      case False
      with s have "methodSymbol (take opn v) False r (drop (cls + 2) (drop (opn + 2) v)) = Inr s"
        by (simp add: r_def)
      from m [OF this] v show ?thesis by simp
    qed
  qed
  assume "ParseSymbol v = Inr s"
  with fn meth show ?thesis
    by (auto simp: ParseSymbol_def split: if_splits)
qed

text \<open>C35: Symbol references round-trip. A text parses to a symbol exactly when the symbol is well
  formed and the text is its canonical form; so parsing and printing are inverse to each other,
  no two well-formed symbols print alike, and what a symbol marshals to is read back.\<close>

theorem symbol_roundtrip:
  "ParseSymbol v = Inr s \<longleftrightarrow> wf_symbol s \<and> v = Symbol_String s"
  using ParseSymbol_sound parse_function_complete parse_method_complete by blast

end
