(* ===== verification/Op_Policies.thy ===== *)
theory Op_Policies
  imports Op_Names
begin

text \<open>
  The contracts and policies an operation declares: semantics (kind.go, semantics.go), result
  contracts (result.go), partition contracts (partition.go), key contracts and extensions
  (contract.go), and the scheduler, deduplication, retry and fallback policies. Each Validate
  method is the sequence of its checks; the first that fails gives the error. The \<open>params\<close> struct
  a policy wraps is the policy's record, and its accessor methods are the record's selectors.
\<close>

section \<open>Semantics\<close>

definition Kind_Effect :: "u8 \<Rightarrow> u8" where
  "Kind_Effect k =
     (if k = KindReadOnly \<or> k = KindFreshnessSensitiveRead then EffectRead
      else if k = KindIdempotentWrite \<or> k = KindNonIdempotentWrite \<or> k = KindAtomicGroup \<or>
        k = KindTransactionBound \<or> k = KindSessionBound then EffectWrite
      else if k = KindCommutativeAggregation \<or> k = KindOrderedAggregation then EffectAggregate
      else EffectUnknown)"

record Semantics =
  sem_kind :: u8
  sem_effect :: u8
  sem_idempotency :: u8
  sem_ordering :: u8
  sem_atomicity :: u8
  sem_retryAllowed :: bool
  sem_deduplicationAllowed :: bool
  sem_crossScopeAllowed :: bool
  sem_freshnessDependent :: bool

definition WithReorderable :: "Semantics \<Rightarrow> Semantics" where
  "WithReorderable s = s\<lparr>sem_ordering := OrderingReorderable\<rparr>"

definition Semantics_Validate :: "Semantics \<Rightarrow> op_error option" where
  "Semantics_Validate s =
     (if \<not> Kind_Valid (sem_kind s) then Some (Wraps ErrInvalidSemantics (Sentinel ErrInvalidKind))
      else if sem_effect s \<noteq> Kind_Effect (sem_kind s)
        then Some (Because ErrInvalidSemantics ''effect does not match kind'')
      else if \<not> Idempotency_Valid (sem_idempotency s)
        then Some (Wraps ErrInvalidSemantics (Sentinel ErrInvalidIdempotency))
      else if \<not> Ordering_Valid (sem_ordering s)
        then Some (Wraps ErrInvalidSemantics (Sentinel ErrInvalidOrdering))
      else if \<not> Atomicity_Valid (sem_atomicity s)
        then Some (Wraps ErrInvalidSemantics (Sentinel ErrInvalidAtomicity))
      else if sem_kind s = KindNonIdempotentWrite \<and> sem_ordering s \<noteq> OrderingPreserve
        then Some (Because ErrInvalidSemantics ''non-idempotent writes must preserve order'')
      else if sem_kind s = KindCommutativeAggregation \<and> sem_ordering s \<noteq> OrderingCommutative
        then Some (Because ErrInvalidSemantics ''commutative aggregation must declare commutative ordering'')
      else if sem_kind s = KindOrderedAggregation \<and> sem_ordering s \<noteq> OrderingPreserve
        then Some (Because ErrInvalidSemantics ''ordered aggregation must preserve order'')
      else if sem_kind s = KindAtomicGroup \<and> sem_atomicity s \<noteq> AtomicityAllOrNothing
        then Some (Because ErrInvalidSemantics ''atomic group must use all-or-nothing atomicity'')
      else if sem_retryAllowed s \<and> sem_idempotency s = IdempotencyNonIdempotent
        then Some (Because ErrInvalidSemantics ''non-idempotent operations cannot allow retry'')
      else if sem_ordering s = OrderingReorderable \<and> sem_effect s \<noteq> EffectRead
        then Some (Because ErrInvalidSemantics ''only read operations may be reorderable'')
      else if sem_freshnessDependent s \<and> sem_effect s \<noteq> EffectRead
        then Some (Because ErrInvalidSemantics ''only reads may be freshness dependent'')
      else None)"

definition zeroSemantics :: Semantics where
  "zeroSemantics = \<lparr>sem_kind = 0, sem_effect = 0, sem_idempotency = 0, sem_ordering = 0, sem_atomicity = 0,
     sem_retryAllowed = False, sem_deduplicationAllowed = False, sem_crossScopeAllowed = False,
     sem_freshnessDependent = False\<rparr>"

definition ReadOnly :: Semantics where
  "ReadOnly = zeroSemantics\<lparr>sem_kind := KindReadOnly, sem_effect := EffectRead,
     sem_idempotency := IdempotencyIdempotent, sem_ordering := OrderingPreserve,
     sem_atomicity := AtomicityPerItem, sem_retryAllowed := True, sem_deduplicationAllowed := True\<rparr>"

definition FreshnessSensitiveRead :: Semantics where
  "FreshnessSensitiveRead = zeroSemantics\<lparr>sem_kind := KindFreshnessSensitiveRead, sem_effect := EffectRead,
     sem_idempotency := IdempotencyIdempotent, sem_ordering := OrderingPreserve,
     sem_atomicity := AtomicityPerItem, sem_retryAllowed := True, sem_deduplicationAllowed := True,
     sem_freshnessDependent := True\<rparr>"

definition IdempotentWrite :: Semantics where
  "IdempotentWrite = zeroSemantics\<lparr>sem_kind := KindIdempotentWrite, sem_effect := EffectWrite,
     sem_idempotency := IdempotencyIdempotent, sem_ordering := OrderingPreserve,
     sem_atomicity := AtomicityPerItem, sem_retryAllowed := True\<rparr>"

definition NonIdempotentWrite :: Semantics where
  "NonIdempotentWrite = zeroSemantics\<lparr>sem_kind := KindNonIdempotentWrite, sem_effect := EffectWrite,
     sem_idempotency := IdempotencyNonIdempotent, sem_ordering := OrderingPreserve,
     sem_atomicity := AtomicityPerItem\<rparr>"

definition CommutativeAggregation :: Semantics where
  "CommutativeAggregation = zeroSemantics\<lparr>sem_kind := KindCommutativeAggregation,
     sem_effect := EffectAggregate, sem_idempotency := IdempotencyIdempotent,
     sem_ordering := OrderingCommutative, sem_atomicity := AtomicityPerItem, sem_retryAllowed := True\<rparr>"

definition OrderedAggregation :: Semantics where
  "OrderedAggregation = zeroSemantics\<lparr>sem_kind := KindOrderedAggregation,
     sem_effect := EffectAggregate, sem_idempotency := IdempotencyIdempotent,
     sem_ordering := OrderingPreserve, sem_atomicity := AtomicityPerItem\<rparr>"

definition AtomicGroup :: Semantics where
  "AtomicGroup = zeroSemantics\<lparr>sem_kind := KindAtomicGroup, sem_effect := EffectWrite,
     sem_idempotency := IdempotencyIdempotent, sem_ordering := OrderingPreserve,
     sem_atomicity := AtomicityAllOrNothing\<rparr>"

definition TransactionBound :: Semantics where
  "TransactionBound = zeroSemantics\<lparr>sem_kind := KindTransactionBound, sem_effect := EffectWrite,
     sem_idempotency := IdempotencyNonIdempotent, sem_ordering := OrderingPreserve,
     sem_atomicity := AtomicityAllOrNothing\<rparr>"

definition SessionBound :: Semantics where
  "SessionBound = zeroSemantics\<lparr>sem_kind := KindSessionBound, sem_effect := EffectWrite,
     sem_idempotency := IdempotencyNonIdempotent, sem_ordering := OrderingPreserve,
     sem_atomicity := AtomicityPerItem\<rparr>"

section \<open>Result contracts\<close>

record ResultContract =
  rc_mode :: u8
  rc_missing :: u8
  rc_errorMode :: u8
  rc_duplicate :: u8
  rc_unexpected :: u8
  rc_orderSignificant :: bool
  rc_unknownRepresentable :: bool

definition WithErrorMode :: "u8 \<Rightarrow> ResultContract \<Rightarrow> ResultContract" where
  "WithErrorMode m c = c\<lparr>rc_errorMode := m\<rparr>"

definition WithDuplicate :: "u8 \<Rightarrow> ResultContract \<Rightarrow> ResultContract" where
  "WithDuplicate d c = c\<lparr>rc_duplicate := d\<rparr>"

definition WithMissing :: "u8 \<Rightarrow> ResultContract \<Rightarrow> ResultContract" where
  "WithMissing m c = c\<lparr>rc_missing := m\<rparr>"

definition WithUnexpected :: "u8 \<Rightarrow> ResultContract \<Rightarrow> ResultContract" where
  "WithUnexpected u c = c\<lparr>rc_unexpected := u\<rparr>"

definition ResultContract_Validate :: "ResultContract \<Rightarrow> op_error option" where
  "ResultContract_Validate c =
     (if \<not> ResultMode_Valid (rc_mode c) then Some (Wraps ErrInvalidResultContract (Sentinel ErrInvalidResultMode))
      else if \<not> MissingBehavior_Valid (rc_missing c)
        then Some (Wraps ErrInvalidResultContract (Sentinel ErrInvalidMissingBehavior))
      else if \<not> ErrorMode_Valid (rc_errorMode c)
        then Some (Wraps ErrInvalidResultContract (Sentinel ErrInvalidErrorMode))
      else if \<not> DuplicateResultBehavior_Valid (rc_duplicate c)
        then Some (Wraps ErrInvalidResultContract (Sentinel ErrInvalidDuplicateBehavior))
      else if \<not> UnexpectedResultBehavior_Valid (rc_unexpected c)
        then Some (Wraps ErrInvalidResultContract (Sentinel ErrInvalidUnexpectedBehavior))
      else if rc_mode c = ResultSparse \<and> rc_missing c = MissingContractViolation
        then Some (Because ErrInvalidResultContract ''sparse results cannot treat missing as a contract violation'')
      else if rc_mode c = ResultOrdered \<and> \<not> rc_orderSignificant c
        then Some (Because ErrInvalidResultContract ''ordered results must treat order as significant'')
      else None)"

definition OrderedResults :: ResultContract where
  "OrderedResults = \<lparr>rc_mode = ResultOrdered, rc_missing = MissingError, rc_errorMode = ErrorPerItem,
     rc_duplicate = DuplicateContractViolation, rc_unexpected = UnexpectedContractViolation,
     rc_orderSignificant = True, rc_unknownRepresentable = False\<rparr>"

definition KeyedResults :: ResultContract where
  "KeyedResults = \<lparr>rc_mode = ResultKeyed, rc_missing = MissingError, rc_errorMode = ErrorPerItem,
     rc_duplicate = DuplicateContractViolation, rc_unexpected = UnexpectedContractViolation,
     rc_orderSignificant = False, rc_unknownRepresentable = False\<rparr>"

text \<open>\<open>None\<close> is the panic of SparseResults.\<close>

definition SparseResults :: "u8 \<Rightarrow> ResultContract option" where
  "SparseResults missing =
     (if missing = MissingContractViolation then None
      else Some \<lparr>rc_mode = ResultSparse, rc_missing = missing, rc_errorMode = ErrorPerItem,
        rc_duplicate = DuplicateContractViolation, rc_unexpected = UnexpectedContractViolation,
        rc_orderSignificant = False, rc_unknownRepresentable = False\<rparr>)"

section \<open>Partition contracts\<close>

record PartitionContract =
  pc_scope :: u8
  pc_required :: "string list"
  pc_optional :: "string list"
  pc_crossRootScope :: bool
  pc_receiverPolicy :: u8
  pc_missingDimension :: u8
  pc_maxActivePartitions :: int
  pc_publicContextIndep :: bool

definition NewPartitionContract :: "u8 \<Rightarrow> string list \<Rightarrow> string list \<Rightarrow> PartitionContract" where
  "NewPartitionContract scope req opt = \<lparr>pc_scope = scope, pc_required = req, pc_optional = opt,
     pc_crossRootScope = False, pc_receiverPolicy = ReceiverSame,
     pc_missingDimension = MissingDimensionError, pc_maxActivePartitions = 0,
     pc_publicContextIndep = False\<rparr>"

definition DefaultPartitionContract :: PartitionContract where
  "DefaultPartitionContract = NewPartitionContract ScopeRequest [] []"

definition WithCrossRootScope :: "PartitionContract \<Rightarrow> PartitionContract" where
  "WithCrossRootScope c = c\<lparr>pc_crossRootScope := True\<rparr>"

definition WithReceiverPolicy :: "u8 \<Rightarrow> PartitionContract \<Rightarrow> PartitionContract" where
  "WithReceiverPolicy p c = c\<lparr>pc_receiverPolicy := p\<rparr>"

definition WithMaxActivePartitions :: "int \<Rightarrow> PartitionContract \<Rightarrow> PartitionContract" where
  "WithMaxActivePartitions n c = c\<lparr>pc_maxActivePartitions := n\<rparr>"

definition WithPublicContextIndependent :: "PartitionContract \<Rightarrow> PartitionContract" where
  "WithPublicContextIndependent c = c\<lparr>pc_publicContextIndep := True\<rparr>"

definition requires :: "PartitionContract \<Rightarrow> string \<Rightarrow> bool" where
  "requires c dim \<longleftrightarrow> list_ex (\<lambda>d. d = dim) (pc_required c)"

fun dimensionsLoop :: "string list \<Rightarrow> string set \<Rightarrow> op_error option" where
  "dimensionsLoop [] seen = None"
| "dimensionsLoop (d # ds) seen =
     (case Dimension_Validate d of
        Some e \<Rightarrow> Some (Wraps ErrInvalidPartitionContract e)
      | None \<Rightarrow>
          if d \<in> seen then Some (Because ErrInvalidPartitionContract ''dimension appears more than once'')
          else dimensionsLoop ds (insert d seen))"

definition PartitionContract_Validate :: "PartitionContract \<Rightarrow> op_error option" where
  "PartitionContract_Validate c =
     (if \<not> Scope_Valid (pc_scope c) then Some (Wraps ErrInvalidPartitionContract (Sentinel ErrInvalidScope))
      else if \<not> ReceiverPolicy_Valid (pc_receiverPolicy c)
        then Some (Wraps ErrInvalidPartitionContract (Sentinel ErrInvalidReceiverPolicy))
      else if \<not> MissingDimensionBehavior_Valid (pc_missingDimension c)
        then Some (Because ErrInvalidPartitionContract ''invalid missing-dimension behavior'')
      else if pc_maxActivePartitions c < 0
        then Some (Because ErrInvalidPartitionContract ''max active partitions is negative'')
      else
        (case dimensionsLoop (pc_required c @ pc_optional c) {} of
           Some e \<Rightarrow> Some e
         | None \<Rightarrow>
             if pc_scope c = ScopeProcess \<and> \<not> pc_publicContextIndep c \<and>
                (\<not> requires c ''authorization'' \<or> \<not> requires c ''tenant'')
             then Some (Because ErrInvalidPartitionContract
               ''process scope requires tenant and authorization dimensions unless public and context-independent'')
             else None))"

section \<open>Key contracts and extensions\<close>

record KeyContract =
  kc_comparable :: bool
  kc_canonicalKeySymbol :: Symbol

definition DefaultKeyContract :: KeyContract where
  "DefaultKeyContract = \<lparr>kc_comparable = False, kc_canonicalKeySymbol = zeroSymbol\<rparr>"

definition KeyContract_Validate :: "KeyContract \<Rightarrow> op_error option" where
  "KeyContract_Validate c =
     (if \<not> Symbol_IsZero (kc_canonicalKeySymbol c)
      then map_option (Wraps ErrInvalidKeyContract) (Symbol_Validate (kc_canonicalKeySymbol c))
      else None)"

definition NewKeyContract :: "bool \<Rightarrow> Symbol \<Rightarrow> op_error + KeyContract" where
  "NewKeyContract comparable canonical =
     (let c = \<lparr>kc_comparable = comparable, kc_canonicalKeySymbol = canonical\<rparr>
      in case KeyContract_Validate c of Some e \<Rightarrow> Inl e | None \<Rightarrow> Inr c)"

record Extension =
  Namespace :: string
  ext_Data :: string

definition Extension_Validate :: "Extension \<Rightarrow> op_error option" where
  "Extension_Validate e =
     (if Namespace e = [] then Some (Because ErrInvalidExtension ''namespace is empty'')
      else if ContainsAny (Namespace e) whitespace
        then Some (Because ErrInvalidExtension ''namespace contains whitespace'')
      else if \<not> Contains (Namespace e) ''/'' \<and> \<not> Contains (Namespace e) ''.''
        then Some (Because ErrInvalidExtension ''namespace must be a namespaced key'')
      else None)"

section \<open>Scheduler policy\<close>

record SchedulerParams =
  sp_Mode :: u8
  sp_MinBatchSize :: int
  sp_MaxBatchSize :: int
  sp_MaxBatchWeight :: int
  sp_MaxPayloadBytes :: int
  sp_MaxWait :: duration
  sp_DeadlineMargin :: duration
  sp_MaxConcurrency :: int
  sp_QueueItems :: int
  sp_QueueBytes :: int
  sp_ActivePartitions :: int
  sp_WaitersPerKey :: int
  sp_Fairness :: u8
  sp_PrioritySupport :: bool
  sp_Overflow :: u8

definition DefaultSchedulerPolicy :: SchedulerParams where
  "DefaultSchedulerPolicy = \<lparr>sp_Mode = SchedulerImmediateWave, sp_MinBatchSize = 1, sp_MaxBatchSize = 256,
     sp_MaxBatchWeight = 4096, sp_MaxPayloadBytes = 4 * 2 ^ 20, sp_MaxWait = 0, sp_DeadlineMargin = 0,
     sp_MaxConcurrency = 1, sp_QueueItems = 100000, sp_QueueBytes = 64 * 2 ^ 20,
     sp_ActivePartitions = 1024, sp_WaitersPerKey = 1024, sp_Fairness = FairnessFIFO,
     sp_PrioritySupport = False, sp_Overflow = BehaviorBlock\<rparr>"

definition SchedulerPolicy_Validate :: "SchedulerParams \<Rightarrow> op_error option" where
  "SchedulerPolicy_Validate q =
     (let bad = (\<lambda>msg. Some (Because ErrInvalidSchedulerPolicy msg)) in
      if \<not> SchedulerMode_Valid (sp_Mode q)
        then Some (Wraps ErrInvalidSchedulerPolicy (Sentinel ErrInvalidSchedulerMode))
      else if \<not> FairnessMode_Valid (sp_Fairness q) then bad ''invalid fairness mode''
      else if \<not> OverflowBehavior_Valid (sp_Overflow q) then bad ''invalid overflow behavior''
      else if sp_MinBatchSize q < 1 then bad ''minimum batch size must be positive''
      else if sp_MaxBatchSize q < 1 then bad ''maximum batch size must be positive''
      else if sp_MinBatchSize q > sp_MaxBatchSize q then bad ''minimum batch size exceeds maximum''
      else if sp_MaxBatchWeight q < 1 then bad ''maximum batch weight must be positive''
      else if sp_MaxPayloadBytes q < 1 then bad ''maximum payload bytes must be positive''
      else if sp_MaxWait q < 0 then bad ''maximum wait must not be negative''
      else if sp_DeadlineMargin q < 0 then bad ''deadline margin must not be negative''
      else if sp_MaxConcurrency q < 1 then bad ''maximum concurrency must be positive''
      else if sp_QueueItems q < 1 then bad ''queue item limit must be positive''
      else if sp_QueueBytes q < 1 then bad ''queue byte limit must be positive''
      else if sp_ActivePartitions q < 1 then bad ''active-partition limit must be positive''
      else if sp_WaitersPerKey q < 1 then bad ''waiters-per-key limit must be positive''
      else if sp_Mode q = SchedulerManual \<and> sp_MaxWait q > 0
        then bad ''manual mode must not configure an automatic wait''
      else if sp_Mode q = SchedulerAdaptive \<and> sp_MaxWait q \<le> 0
        then bad ''adaptive mode requires a positive maximum wait''
      else None)"

text \<open>
  The constructor the policies share: validate and return the policy or its first error.
\<close>

definition validated :: "('a \<Rightarrow> op_error option) \<Rightarrow> 'a \<Rightarrow> op_error + 'a" where
  "validated check p = (case check p of Some e \<Rightarrow> Inl e | None \<Rightarrow> Inr p)"

definition NewSchedulerPolicy :: "SchedulerParams \<Rightarrow> op_error + SchedulerParams" where
  "NewSchedulerPolicy params = validated SchedulerPolicy_Validate params"

section \<open>Deduplication policy\<close>

record DeduplicationParams =
  dp_Mode :: u8
  dp_InFlight :: bool
  dp_ScopeMemoization :: bool
  dp_NegativeMemoization :: bool
  dp_ErrorMemoization :: bool
  dp_MaxItems :: int
  dp_MaxBytes :: int
  dp_Canonicalizer :: Symbol

definition DefaultDeduplicationPolicy :: DeduplicationParams where
  "DefaultDeduplicationPolicy = \<lparr>dp_Mode = DeduplicationDisabled, dp_InFlight = False,
     dp_ScopeMemoization = False, dp_NegativeMemoization = False, dp_ErrorMemoization = False,
     dp_MaxItems = 0, dp_MaxBytes = 0, dp_Canonicalizer = zeroSymbol\<rparr>"

definition Dedup_Enabled :: "DeduplicationParams \<Rightarrow> bool" where
  "Dedup_Enabled q \<longleftrightarrow> dp_Mode q \<noteq> DeduplicationDisabled"

definition DeduplicationPolicy_Validate :: "DeduplicationParams \<Rightarrow> op_error option" where
  "DeduplicationPolicy_Validate q =
     (if \<not> DeduplicationMode_Valid (dp_Mode q)
        then Some (Wraps ErrInvalidDeduplicationPolicy (Sentinel ErrInvalidDeduplicationMode))
      else if dp_Mode q = DeduplicationDisabled then None
      else if dp_Mode q = DeduplicationCanonical \<and> Symbol_IsZero (dp_Canonicalizer q)
        then Some (Because ErrInvalidDeduplicationPolicy ''canonical mode requires a canonicalizer symbol'')
      else
        (case (if Symbol_IsZero (dp_Canonicalizer q) then None else Symbol_Validate (dp_Canonicalizer q)) of
           Some e \<Rightarrow> Some (Wraps ErrInvalidDeduplicationPolicy e)
         | None \<Rightarrow>
             if dp_ScopeMemoization q \<and> dp_MaxItems q < 1
               then Some (Because ErrInvalidDeduplicationPolicy ''memoization requires a positive item limit'')
             else if dp_ScopeMemoization q \<and> dp_MaxBytes q < 1
               then Some (Because ErrInvalidDeduplicationPolicy ''memoization requires a positive byte limit'')
             else None))"

definition NewDeduplicationPolicy :: "DeduplicationParams \<Rightarrow> op_error + DeduplicationParams" where
  "NewDeduplicationPolicy params = validated DeduplicationPolicy_Validate params"

section \<open>Retry policy\<close>

record RetryParams =
  rp_Enabled :: bool
  rp_MaxAttempts :: int
  rp_InitialBackoff :: duration
  rp_MaxBackoff :: duration
  rp_Jitter :: u8
  rp_Retryable :: "u8 list"
  rp_RespectRetryAfter :: bool
  rp_PartialItemRetry :: bool
  rp_UnknownOutcome :: u8
  rp_IdempotencyKey :: Symbol

definition DefaultRetryPolicy :: RetryParams where
  "DefaultRetryPolicy = \<lparr>rp_Enabled = False, rp_MaxAttempts = 0, rp_InitialBackoff = 0, rp_MaxBackoff = 0,
     rp_Jitter = 0, rp_Retryable = [], rp_RespectRetryAfter = False, rp_PartialItemRetry = False,
     rp_UnknownOutcome = 0, rp_IdempotencyKey = zeroSymbol\<rparr>"

definition RetryPolicy_Validate :: "RetryParams \<Rightarrow> op_error option" where
  "RetryPolicy_Validate q =
     (let bad = (\<lambda>msg. Some (Because ErrInvalidRetryPolicy msg)) in
      if \<not> JitterMode_Valid (rp_Jitter q) then bad ''invalid jitter mode''
      else if \<not> UnknownOutcomeBehavior_Valid (rp_UnknownOutcome q) then bad ''invalid unknown-outcome behavior''
      else if rp_InitialBackoff q < 0 \<or> rp_MaxBackoff q < 0 then bad ''backoff durations must not be negative''
      else if \<not> list_all RetryClassification_Valid (rp_Retryable q)
        then Some (Wraps ErrInvalidRetryPolicy (Sentinel ErrInvalidRetryClassification))
      else
        (case (if Symbol_IsZero (rp_IdempotencyKey q) then None else Symbol_Validate (rp_IdempotencyKey q)) of
           Some e \<Rightarrow> Some (Wraps ErrInvalidRetryPolicy e)
         | None \<Rightarrow>
             if \<not> rp_Enabled q then None
             else if rp_MaxAttempts q < 2 then bad ''enabled retry requires at least two attempts''
             else if rp_MaxBackoff q < rp_InitialBackoff q
               then bad ''maximum backoff is lower than initial backoff''
             else if length (rp_Retryable q) = 0
               then bad ''enabled retry requires at least one retryable classification''
             else None))"

definition NewRetryPolicy :: "RetryParams \<Rightarrow> op_error + RetryParams" where
  "NewRetryPolicy params = validated RetryPolicy_Validate params"

section \<open>Fallback policy\<close>

record FallbackParams =
  fp_Mode :: u8
  fp_MaxScalarConcurrency :: int
  fp_OnQueueOverflow :: bool
  fp_OnProviderUnavailable :: bool
  fp_OnUnsupportedPartition :: bool

definition DefaultFallbackPolicy :: FallbackParams where
  "DefaultFallbackPolicy = \<lparr>fp_Mode = FallbackScalar, fp_MaxScalarConcurrency = 0, fp_OnQueueOverflow = False,
     fp_OnProviderUnavailable = False, fp_OnUnsupportedPartition = False\<rparr>"

definition FallbackPolicy_Validate :: "FallbackParams \<Rightarrow> op_error option" where
  "FallbackPolicy_Validate q =
     (if \<not> FallbackMode_Valid (fp_Mode q)
        then Some (Wraps ErrInvalidFallbackPolicy (Sentinel ErrInvalidFallbackMode))
      else if fp_Mode q = FallbackParallelScalar then
        (if fp_MaxScalarConcurrency q < 1
         then Some (Because ErrInvalidFallbackPolicy ''parallel scalar fallback requires positive concurrency'')
         else None)
      else if fp_Mode q = FallbackReject then
        (if fp_MaxScalarConcurrency q \<noteq> 0
         then Some (Because ErrInvalidFallbackPolicy ''reject fallback must not set scalar concurrency'')
         else None)
      else if fp_MaxScalarConcurrency q < 0
        then Some (Because ErrInvalidFallbackPolicy ''scalar concurrency must not be negative'')
      else None)"

definition NewFallbackPolicy :: "FallbackParams \<Rightarrow> op_error + FallbackParams" where
  "NewFallbackPolicy params = validated FallbackPolicy_Validate params"

end
