(* ===== verification/Diagnostics.thy ===== *)
theory Diagnostics
  imports Go_Strings "HOL-Library.Product_Lexorder" "HOL-Library.Multiset"
begin

text \<open>
  The diagnostics package: severities, codes, positions and ranges, advisory fixes, and the
  ordered collection (severity.go, code.go, position.go, fix.go, diagnostic.go, collection.go)
  with its text form (format_text.go). A severity is a uint8. \<open>sort.SliceStable\<close> is the stable
  insertion sort \<open>stableSort\<close> by the package's comparison; the result of a stable sort by a strict
  weak order does not depend on the algorithm. What is left out: JSON output, and the check of a
  message for Unicode control characters and spaces in Diagnostic.Validate.
\<close>

section \<open>Severity and code\<close>

abbreviation SeverityUnknown :: u8 where "SeverityUnknown \<equiv> 0"
abbreviation SeverityInfo :: u8 where "SeverityInfo \<equiv> 1"
abbreviation SeverityWarning :: u8 where "SeverityWarning \<equiv> 2"
abbreviation SeverityError :: u8 where "SeverityError \<equiv> 3"

definition Severity_String :: "u8 \<Rightarrow> string" where
  "Severity_String s =
     (if s = SeverityInfo then ''info'' else if s = SeverityWarning then ''warning''
      else if s = SeverityError then ''error'' else ''unknown'')"

definition Severity_Valid :: "u8 \<Rightarrow> bool" where
  "Severity_Valid s \<longleftrightarrow> s = SeverityInfo \<or> s = SeverityWarning \<or> s = SeverityError"

definition sortWeight :: "u8 \<Rightarrow> int" where
  "sortWeight s =
     (if s = SeverityError then 0 else if s = SeverityWarning then 1
      else if s = SeverityInfo then 2 else 3)"

definition ParseSeverity :: "string \<Rightarrow> u8 option" where
  "ParseSeverity v =
     (if v = ''unknown'' then Some SeverityUnknown
      else if v = ''info'' then Some SeverityInfo
      else if v = ''warning'' then Some SeverityWarning
      else if v = ''error'' then Some SeverityError
      else None)"

definition Severity_MarshalText :: "u8 \<Rightarrow> string option" where
  "Severity_MarshalText s = (if s > SeverityError then None else Some (Severity_String s))"

text \<open>\<open>codePattern\<close>: the prefix, at least one upper-case letter, exactly three digits.\<close>

definition codeMatches :: "string \<Rightarrow> bool" where
  "codeMatches c \<longleftrightarrow>
     length c \<ge> 6 \<and> take 2 c = ''BW'' \<and> list_all isUpper (take (length c - 5) (drop 2 c)) \<and>
     list_all isDigit (drop (length c - 3) c)"

definition Code_Validate :: "string \<Rightarrow> bool" where
  "Code_Validate c \<longleftrightarrow> (if c = [] then False else codeMatches c)"

definition Code_Category :: "string \<Rightarrow> string" where
  "Code_Category c = (if \<not> Code_Validate c then [] else take (length c - 5) (drop 2 c))"

section \<open>Positions and ranges\<close>

record Position =
  pos_File :: string
  pos_Offset :: int
  pos_Line :: int
  pos_Column :: int

definition Position_IsZero :: "Position \<Rightarrow> bool" where
  "Position_IsZero p \<longleftrightarrow> pos_File p = [] \<and> pos_Offset p = 0 \<and> pos_Line p = 0 \<and> pos_Column p = 0"

definition Position_Validate :: "Position \<Rightarrow> bool" where
  "Position_Validate p \<longleftrightarrow>
     (if pos_Offset p < 0 \<or> pos_Line p < 0 \<or> pos_Column p < 0 then False
      else if pos_Column p > 0 \<and> pos_Line p = 0 then False else True)"

definition before :: "Position \<Rightarrow> Position \<Rightarrow> bool" where
  "before p q \<longleftrightarrow>
     (if pos_File p \<noteq> pos_File q then False
      else if pos_Line p \<noteq> pos_Line q then pos_Line p < pos_Line q
      else pos_Column p < pos_Column q)"

definition Position_String :: "Position \<Rightarrow> string" where
  "Position_String p =
     (if Position_IsZero p then ''-''
      else
        (let b = pos_File p in
         if pos_Line p > 0 then
           (let b = (if b \<noteq> [] then b @ '':'' else b); b = b @ Itoa (pos_Line p)
            in if pos_Column p > 0 then b @ '':'' @ Itoa (pos_Column p) else b)
         else b))"

record Range =
  Start :: Position
  End :: Position

definition Range_IsZero :: "Range \<Rightarrow> bool" where
  "Range_IsZero r \<longleftrightarrow> Position_IsZero (Start r) \<and> Position_IsZero (End r)"

definition Range_Validate :: "Range \<Rightarrow> bool" where
  "Range_Validate r \<longleftrightarrow>
     (if \<not> Position_Validate (Start r) then False
      else if \<not> Position_Validate (End r) then False
      else if \<not> Position_IsZero (End r) \<and> before (End r) (Start r) then False else True)"

definition Range_File :: "Range \<Rightarrow> string" where "Range_File r = pos_File (Start r)"

definition Range_String :: "Range \<Rightarrow> string" where "Range_String r = Position_String (Start r)"

definition AtPosition :: "Position \<Rightarrow> Range" where "AtPosition p = \<lparr>Start = p, End = p\<rparr>"

section \<open>Fixes\<close>

record TextEdit =
  ed_Range :: Range
  ed_NewText :: string

record Fix =
  fx_Message :: string
  fx_Edits :: "TextEdit list"

definition positionsEqualExclusive :: "Position \<Rightarrow> Position \<Rightarrow> bool" where
  "positionsEqualExclusive e s \<longleftrightarrow> pos_File e = pos_File s \<and> pos_Line e = pos_Line s \<and> pos_Column e = pos_Column s"

definition editEnd :: "TextEdit \<Rightarrow> Position" where
  "editEnd a = (if Position_IsZero (End (ed_Range a)) then Start (ed_Range a) else End (ed_Range a))"

definition editsOverlap :: "TextEdit \<Rightarrow> TextEdit \<Rightarrow> bool" where
  "editsOverlap a b \<longleftrightarrow>
     (if Range_File (ed_Range a) \<noteq> Range_File (ed_Range b) then False
      else
        (let aStart = Start (ed_Range a); aEnd = editEnd a; bStart = Start (ed_Range b); bEnd = editEnd b
         in \<not> before aEnd bStart \<and> \<not> before bEnd aStart \<and>
            \<not> positionsEqualExclusive aEnd bStart \<and> \<not> positionsEqualExclusive bEnd aStart))"

fun overlapLoop :: "TextEdit list \<Rightarrow> bool" where
  "overlapLoop [] = False"
| "overlapLoop (a # es) = (list_ex (editsOverlap a) es \<or> overlapLoop es)"

definition Fix_Validate :: "Fix \<Rightarrow> bool" where
  "Fix_Validate f \<longleftrightarrow>
     (if fx_Message f = [] then False
      else if \<not> list_all (\<lambda>e. Range_Validate (ed_Range e)) (fx_Edits f) then False
      else \<not> overlapLoop (fx_Edits f))"

section \<open>Diagnostics and collections\<close>

record RelatedInformation =
  rel_Message :: string
  rel_Range :: Range

record Diagnostic =
  dg_Code :: string
  dg_Severity :: u8
  dg_Message :: string
  dg_Range :: Range
  dg_Details :: string
  dg_Source :: string
  dg_Related :: "RelatedInformation list"
  dg_Fixes :: "Fix list"

definition IsError :: "Diagnostic \<Rightarrow> bool" where "IsError d \<longleftrightarrow> dg_Severity d = SeverityError"

definition nul :: char where "nul = CHR 0x00"

definition identity :: "Diagnostic \<Rightarrow> string" where
  "identity d =
     dg_Code d @ [nul] @ Severity_String (dg_Severity d) @ [nul] @ dg_Source d @ [nul] @
     pos_File (Start (dg_Range d)) @ [nul] @ Itoa (pos_Line (Start (dg_Range d))) @ [nul] @
     Itoa (pos_Column (Start (dg_Range d))) @ [nul] @ dg_Message d"

definition Diagnostic_String :: "Diagnostic \<Rightarrow> string" where
  "Diagnostic_String d =
     (if Range_IsZero (dg_Range d) then [] else Range_String (dg_Range d) @ '': '') @
     Severity_String (dg_Severity d) @
     (if dg_Code d = [] then [] else '' '' @ dg_Code d) @ '': '' @ dg_Message d"

type_synonym Collection = "Diagnostic list"

definition Collection_Add :: "Diagnostic \<Rightarrow> Collection \<Rightarrow> Collection" where
  "Collection_Add d c = c @ [d]"

definition AddCollection :: "Collection \<Rightarrow> Collection \<Rightarrow> Collection" where
  "AddCollection other c = (if length other = 0 then c else c @ other)"

definition HasErrors :: "Collection \<Rightarrow> bool" where
  "HasErrors c \<longleftrightarrow> list_ex (\<lambda>d. dg_Severity d = SeverityError) c"

definition Collection_Count :: "u8 \<Rightarrow> Collection \<Rightarrow> nat" where
  "Collection_Count sev c = length (filter (\<lambda>d. dg_Severity d = sev) c)"

definition lessDiagnostic :: "Diagnostic \<Rightarrow> Diagnostic \<Rightarrow> bool" where
  "lessDiagnostic a b \<longleftrightarrow>
     (let as = Start (dg_Range a); bs = Start (dg_Range b) in
      if pos_File as \<noteq> pos_File bs then pos_File as < pos_File bs
      else if pos_Line as \<noteq> pos_Line bs then pos_Line as < pos_Line bs
      else if pos_Column as \<noteq> pos_Column bs then pos_Column as < pos_Column bs
      else if sortWeight (dg_Severity a) \<noteq> sortWeight (dg_Severity b)
        then sortWeight (dg_Severity a) < sortWeight (dg_Severity b)
      else if dg_Code a \<noteq> dg_Code b then dg_Code a < dg_Code b
      else dg_Message a < dg_Message b)"

fun stableInsert :: "('a \<Rightarrow> 'a \<Rightarrow> bool) \<Rightarrow> 'a \<Rightarrow> 'a list \<Rightarrow> 'a list" where
  "stableInsert lt x [] = [x]"
| "stableInsert lt x (y # ys) = (if lt y x then y # stableInsert lt x ys else x # y # ys)"

definition stableSort :: "('a \<Rightarrow> 'a \<Rightarrow> bool) \<Rightarrow> 'a list \<Rightarrow> 'a list" where
  "stableSort lt xs = foldr (stableInsert lt) xs []"

definition Sorted :: "Collection \<Rightarrow> Collection" where
  "Sorted c = (if length c = 0 then [] else stableSort lessDiagnostic c)"

fun dedupLoop :: "Diagnostic list \<Rightarrow> string list \<Rightarrow> Diagnostic list" where
  "dedupLoop [] seen = []"
| "dedupLoop (d # ds) seen =
     (if identity d \<in> set seen then dedupLoop ds seen else d # dedupLoop ds (identity d # seen))"

definition Deduplicated :: "Collection \<Rightarrow> Collection" where
  "Deduplicated c = (if length c = 0 then [] else dedupLoop c [])"

definition FilterBySeverity :: "u8 \<Rightarrow> Collection \<Rightarrow> Collection" where
  "FilterBySeverity sev c = filter (\<lambda>d. dg_Severity d = sev) c"

definition FilterBySource :: "string \<Rightarrow> Collection \<Rightarrow> Collection" where
  "FilterBySource src c = filter (\<lambda>d. dg_Source d = src) c"

definition FilterByCodePrefix :: "string \<Rightarrow> Collection \<Rightarrow> Collection" where
  "FilterByCodePrefix p c = filter (\<lambda>d. HasPrefix (dg_Code d) p) c"

section \<open>Text output\<close>

definition writeIndented :: "string \<Rightarrow> string" where
  "writeIndented text = concat (map (\<lambda>line. ''  '' @ line @ [CHR 0x0A]) (Split CHR 0x0A text))"

definition writeRelated :: "RelatedInformation \<Rightarrow> string" where
  "writeRelated r = writeIndented
     (if Range_IsZero (rel_Range r) then rel_Message r
      else rel_Message r @ '' ('' @ Range_String (rel_Range r) @ '')'')"

definition writeOne :: "Diagnostic \<Rightarrow> string" where
  "writeOne d =
     (if Range_IsZero (dg_Range d) then [] else Range_String (dg_Range d) @ '': '') @
     Severity_String (dg_Severity d) @ '' '' @ dg_Code d @ '': '' @ dg_Message d @ [CHR 0x0A] @
     (if dg_Details d = [] then [] else writeIndented (dg_Details d)) @
     concat (map writeRelated (dg_Related d))"

definition TextFormat :: "Collection \<Rightarrow> string" where
  "TextFormat c = concat (map writeOne (Sorted c))"

section \<open>Stable sorting\<close>

locale weak_order =
  fixes lt :: "'a \<Rightarrow> 'a \<Rightarrow> bool" and key :: "'a \<Rightarrow> 'b :: linorder"
  assumes by_key: "lt x y \<longleftrightarrow> key x < key y"
begin

lemma mset_insert: "mset (stableInsert lt x xs) = add_mset x (mset xs)"
  by (induction xs) auto

lemma sort_mset: "mset (stableSort lt xs) = mset xs"
  by (induction xs) (simp_all add: stableSort_def mset_insert)

lemma set_insert: "set (stableInsert lt x xs) = insert x (set xs)"
  by (induction xs) auto

lemma sorted_insert:
  "sorted_wrt (\<lambda>a b. key a \<le> key b) xs \<Longrightarrow> sorted_wrt (\<lambda>a b. key a \<le> key b) (stableInsert lt x xs)"
  by (induction xs) (auto simp: by_key set_insert not_less)

lemma sort_sorted: "sorted_wrt (\<lambda>a b. key a \<le> key b) (stableSort lt xs)"
  by (induction xs) (simp_all add: stableSort_def sorted_insert)

lemma stable_insert:
  "sorted_wrt (\<lambda>a b. key a \<le> key b) xs \<Longrightarrow>
     filter (\<lambda>y. key y = k) (stableInsert lt x xs) = filter (\<lambda>y. key y = k) (x # xs)"
  by (induction xs) (auto simp: by_key)

lemma sort_stable: "filter (\<lambda>y. key y = k) (stableSort lt xs) = filter (\<lambda>y. key y = k) xs"
proof (induction xs)
  case (Cons x xs)
  then show ?case
    using stable_insert [OF sort_sorted, of k x xs] by (simp add: stableSort_def)
qed (simp add: stableSort_def)

end

definition sortKey :: "Diagnostic \<Rightarrow> string \<times> int \<times> int \<times> int \<times> string \<times> string" where
  "sortKey d = (pos_File (Start (dg_Range d)), pos_Line (Start (dg_Range d)), pos_Column (Start (dg_Range d)),
     sortWeight (dg_Severity d), dg_Code d, dg_Message d)"

interpretation diag: weak_order lessDiagnostic sortKey
  by unfold_locales (auto simp: lessDiagnostic_def sortKey_def Let_def less_prod_def)

lemma Sorted_eq: "Sorted c = stableSort lessDiagnostic c"
  by (simp add: Sorted_def stableSort_def)

text \<open>Sorting a collection is a stable sort by the documented order: the result has the same
  diagnostics, they are in ascending order of file, line, column, severity weight (errors
  first), code and message, and diagnostics equal in all of these keep their relative order.\<close>

theorem sorted_is_stable_sort:
  "mset (Sorted c) = mset c \<and> sorted (map sortKey (Sorted c)) \<and>
   filter (\<lambda>d. sortKey d = k) (Sorted c) = filter (\<lambda>d. sortKey d = k) c"
  using diag.sort_mset diag.sort_sorted diag.sort_stable
  by (simp add: Sorted_eq sorted_map)

section \<open>Deduplication\<close>

lemma dedupLoop_props:
  "distinct (map identity (dedupLoop ds seen)) \<and> set (map identity (dedupLoop ds seen)) \<inter> set seen = {} \<and>
   subseq (dedupLoop ds seen) ds \<and>
   set (map identity (dedupLoop ds seen)) \<union> set seen = set (map identity ds) \<union> set seen"
proof (induction ds seen rule: dedupLoop.induct)
  case (2 d ds seen)
  then show ?case
    by (cases "identity d \<in> set seen") (auto simp: list_emb_Cons)
qed simp

lemma nul_free: "nul \<notin> set (Severity_String s)" "nul \<notin> set (Itoa i)"
  using Itoa_chars [of nul i]
  by (auto simp: Severity_String_def nul_def isDigit_def less_eq_char_def)

lemma field_eq: "nul \<notin> set x \<Longrightarrow> nul \<notin> set y \<Longrightarrow> x @ nul # s = y @ nul # t \<longleftrightarrow> x = y \<and> s = t"
proof (induction x arbitrary: y)
  case Nil
  then show ?case by (cases y) auto
next
  case (Cons c x)
  then show ?case by (cases y) auto
qed

text \<open>Deduplication keeps exactly the first diagnostic of each identity, in order. Two
  diagnostics whose code, source and file contain no NUL byte have the same identity exactly when
  they agree in code, severity name, source, file, line, column and message.\<close>

theorem deduplicated_first_of_each:
  assumes "list_all (\<lambda>d. nul \<notin> set (dg_Code d) \<and> nul \<notin> set (dg_Source d) \<and> nul \<notin> set (pos_File (Start (dg_Range d)))) [a, b]"
  shows "distinct (map identity (Deduplicated c)) \<and> subseq (Deduplicated c) c \<and>
    set (map identity (Deduplicated c)) = set (map identity c) \<and>
    (identity a = identity b \<longleftrightarrow>
       dg_Code a = dg_Code b \<and> Severity_String (dg_Severity a) = Severity_String (dg_Severity b) \<and>
       dg_Source a = dg_Source b \<and> pos_File (Start (dg_Range a)) = pos_File (Start (dg_Range b)) \<and>
       pos_Line (Start (dg_Range a)) = pos_Line (Start (dg_Range b)) \<and>
       pos_Column (Start (dg_Range a)) = pos_Column (Start (dg_Range b)) \<and> dg_Message a = dg_Message b)"
  using assms dedupLoop_props [of c "[]"] Itoa_inj
  by (auto simp: Deduplicated_def identity_def field_eq nul_free)

definition zeroPosition :: Position where
  "zeroPosition = \<lparr>pos_File = [], pos_Offset = 0, pos_Line = 0, pos_Column = 0\<rparr>"

definition sampleDiagnostic :: "string \<Rightarrow> Diagnostic" where
  "sampleDiagnostic details = \<lparr>dg_Code = ''BWCFG021'', dg_Severity = SeverityError, dg_Message = ''bad'',
     dg_Range = AtPosition zeroPosition, dg_Details = details, dg_Source = ''config'', dg_Related = [], dg_Fixes = []\<rparr>"

theorem deduplicated_first_of_each_witness:
  "identity (sampleDiagnostic ''x'') = identity (sampleDiagnostic ''y'')"
proof -
  have "list_all (\<lambda>d. nul \<notin> set (dg_Code d) \<and> nul \<notin> set (dg_Source d) \<and> nul \<notin> set (pos_File (Start (dg_Range d))))
      [sampleDiagnostic ''x'', sampleDiagnostic ''y'']"
    by (simp add: sampleDiagnostic_def nul_def AtPosition_def zeroPosition_def)
  from deduplicated_first_of_each [OF this, of "[]"] show ?thesis
    by (simp add: sampleDiagnostic_def)
qed

text \<open>The text form depends on the order in which diagnostics were added: two diagnostics that
  differ only in their details are not ordered by the comparison, and the stable sort keeps the
  order of insertion.\<close>

theorem text_depends_on_insertion_order:
  "TextFormat [sampleDiagnostic ''x'', sampleDiagnostic ''y''] \<noteq>
   TextFormat [sampleDiagnostic ''y'', sampleDiagnostic ''x'']"
  by code_simp

section \<open>Overlapping edits\<close>

definition one_file :: "TextEdit \<Rightarrow> bool" where
  "one_file e \<longleftrightarrow> pos_File (editEnd e) = pos_File (Start (ed_Range e))"

definition place :: "Position \<Rightarrow> int \<times> int" where
  "place p = (pos_Line p, pos_Column p)"

text \<open>Two edits within one file each overlap exactly when they are in the same file and each
  starts strictly before the other ends, in the order of lines and columns; touching edits and
  two insertions at one point do not overlap. The relation is symmetric.\<close>

theorem overlap_correct:
  assumes "one_file a" "one_file b"
  shows "editsOverlap a b = editsOverlap b a \<and>
    (editsOverlap a b \<longleftrightarrow> Range_File (ed_Range a) = Range_File (ed_Range b) \<and>
       place (Start (ed_Range a)) < place (editEnd b) \<and> place (Start (ed_Range b)) < place (editEnd a))"
  using assms
  by (auto simp: editsOverlap_def one_file_def place_def Range_File_def before_def positionsEqualExclusive_def
      less_prod_def Let_def)

definition sampleEdit :: "int \<Rightarrow> int \<Rightarrow> TextEdit" where
  "sampleEdit i j = \<lparr>ed_Range = \<lparr>Start = \<lparr>pos_File = ''a.go'', pos_Offset = 0, pos_Line = 1, pos_Column = i\<rparr>,
     End = \<lparr>pos_File = ''a.go'', pos_Offset = 0, pos_Line = 1, pos_Column = j\<rparr>\<rparr>, ed_NewText = ''x''\<rparr>"

theorem overlap_correct_witness: "editsOverlap (sampleEdit 1 5) (sampleEdit 3 9) \<and> \<not> editsOverlap (sampleEdit 1 3) (sampleEdit 3 9)"
proof -
  have "one_file (sampleEdit i j)" for i j
    by (simp add: one_file_def editEnd_def sampleEdit_def)
  note 1 = overlap_correct [OF this this, of 1 5 3 9] and 2 = overlap_correct [OF this this, of 1 3 3 9]
  show ?thesis
    unfolding 1 [THEN conjunct2] 2 [THEN conjunct2]
    by (simp add: place_def editEnd_def sampleEdit_def Range_File_def Position_IsZero_def less_prod_def)
qed

end
