(* ===== verification/Op_Spec.thy ===== *)
theory Op_Spec
  imports Op_Policies Diagnostics
begin

text \<open>
  Operation specs: construction with options (spec.go) and the validation of a spec with its
  cross-field rules (validation.go). The text of an error
  value (Go's Error method) is the parameter \<open>msg\<close>. Left out: the canonical text encoding of a spec
  and the digest over it.
\<close>

section \<open>Specs\<close>

record Spec =
  spec_id :: string
  spec_semantics :: Semantics
  scalarSymbol :: Symbol
  batchSymbol :: Symbol
  keyContract :: KeyContract
  resultContract :: ResultContract
  partitionContract :: PartitionContract
  schedulerPolicy :: SchedulerParams
  deduplicationPolicy :: DeduplicationParams
  retryPolicy :: RetryParams
  fallbackPolicy :: FallbackParams
  spec_source :: Range
  extensions :: "Extension list"

type_synonym SpecOption = "Spec \<Rightarrow> Spec"

definition WithScalarSymbol :: "Symbol \<Rightarrow> SpecOption" where "WithScalarSymbol s sp = sp\<lparr>scalarSymbol := s\<rparr>"

definition WithBatchSymbol :: "Symbol \<Rightarrow> SpecOption" where "WithBatchSymbol s sp = sp\<lparr>batchSymbol := s\<rparr>"

definition WithKeyContract :: "KeyContract \<Rightarrow> SpecOption" where "WithKeyContract c sp = sp\<lparr>keyContract := c\<rparr>"

definition WithResultContract :: "ResultContract \<Rightarrow> SpecOption" where
  "WithResultContract c sp = sp\<lparr>resultContract := c\<rparr>"

definition WithPartitionContract :: "PartitionContract \<Rightarrow> SpecOption" where
  "WithPartitionContract c sp = sp\<lparr>partitionContract := c\<rparr>"

definition WithSchedulerPolicy :: "SchedulerParams \<Rightarrow> SpecOption" where
  "WithSchedulerPolicy p sp = sp\<lparr>schedulerPolicy := p\<rparr>"

definition WithDeduplicationPolicy :: "DeduplicationParams \<Rightarrow> SpecOption" where
  "WithDeduplicationPolicy p sp = sp\<lparr>deduplicationPolicy := p\<rparr>"

definition WithRetryPolicy :: "RetryParams \<Rightarrow> SpecOption" where "WithRetryPolicy p sp = sp\<lparr>retryPolicy := p\<rparr>"

definition WithFallbackPolicy :: "FallbackParams \<Rightarrow> SpecOption" where
  "WithFallbackPolicy p sp = sp\<lparr>fallbackPolicy := p\<rparr>"

definition WithSource :: "Range \<Rightarrow> SpecOption" where "WithSource src sp = sp\<lparr>spec_source := src\<rparr>"

definition WithExtensions :: "Extension list \<Rightarrow> SpecOption" where "WithExtensions es sp = sp\<lparr>extensions := es\<rparr>"

definition ConfigBased :: "Spec \<Rightarrow> bool" where
  "ConfigBased s \<longleftrightarrow> \<not> Symbol_IsZero (scalarSymbol s) \<or> \<not> Symbol_IsZero (batchSymbol s)"

section \<open>Validation\<close>

definition finding :: "Spec \<Rightarrow> string \<Rightarrow> string \<Rightarrow> Diagnostic" where
  "finding s code text = \<lparr>dg_Code = code, dg_Severity = SeverityError, dg_Message = text,
     dg_Range = spec_source s, dg_Details = [], dg_Source = ''operation'', dg_Related = [], dg_Fixes = []\<rparr>"

definition check :: "(op_error \<Rightarrow> string) \<Rightarrow> Spec \<Rightarrow> string \<Rightarrow> string \<Rightarrow> op_error option \<Rightarrow> Collection" where
  "check msg s code pre r =
     (case r of None \<Rightarrow> [] | Some e \<Rightarrow> [finding s code (pre @ msg e)])"

definition rule :: "Spec \<Rightarrow> bool \<Rightarrow> string \<Rightarrow> string \<Rightarrow> Collection" where
  "rule s broken code text = (if broken then [finding s code text] else [])"

definition validateCrossField :: "Spec \<Rightarrow> Collection" where
  "validateCrossField s =
     (let sem = spec_semantics s; part = partitionContract s; retry = retryPolicy s;
          em = rc_errorMode (resultContract s); mode = fp_Mode (fallbackPolicy s) in
      rule s (ConfigBased s \<and> (Symbol_IsZero (scalarSymbol s) \<or> Symbol_IsZero (batchSymbol s)))
        ''BWOP015'' ''configuration-based operation must declare both scalar and batch symbols'' @
      rule s (sem_kind sem = KindTransactionBound \<and> \<not> requires part ''transaction'')
        ''BWOP011'' ''transaction-bound operation must partition by transaction'' @
      rule s (sem_kind sem = KindSessionBound \<and> \<not> requires part ''session'')
        ''BWOP011'' ''session-bound operation must partition by session'' @
      rule s (Dedup_Enabled (deduplicationPolicy s) \<and> \<not> sem_deduplicationAllowed sem)
        ''BWOP012'' (''deduplication is not permitted for '' @ Kind_String (sem_kind sem) @ '' operations'') @
      (if rp_Enabled retry then
         rule s (\<not> sem_retryAllowed sem)
           ''BWOP013'' ''retry is not permitted by the operation semantics'' @
         rule s (sem_idempotency sem = IdempotencyNonIdempotent)
           ''BWOP013'' ''non-idempotent operations cannot enable retry'' @
         rule s (sem_idempotency sem = IdempotencyConditional \<and> Symbol_IsZero (rp_IdempotencyKey retry))
           ''BWOP013'' ''conditional idempotency requires an idempotency-key symbol to enable retry''
       else []) @
      (if rp_PartialItemRetry retry then
         rule s (em \<noteq> ErrorPerItem \<and> em \<noteq> ErrorMixed)
           ''BWOP013'' ''partial-item retry requires a per-item or mixed result error mode''
       else []) @
      (if mode = FallbackParallelScalar then
         rule s (sem_idempotency sem = IdempotencyNonIdempotent)
           ''BWOP014'' ''non-idempotent operations cannot use parallel scalar fallback'' @
         rule s (ConfigBased s \<and> Symbol_IsZero (scalarSymbol s))
           ''BWOP014'' ''scalar fallback requires a scalar symbol''
       else if mode = FallbackScalar then
         rule s (ConfigBased s \<and> Symbol_IsZero (scalarSymbol s))
           ''BWOP014'' ''scalar fallback requires a scalar symbol''
       else []))"

definition Spec_Validate :: "(op_error \<Rightarrow> string) \<Rightarrow> Spec \<Rightarrow> Collection" where
  "Spec_Validate msg s =
     check msg s ''BWOP001'' [] (ID_Validate (spec_id s)) @
     check msg s ''BWOP002'' [] (Semantics_Validate (spec_semantics s)) @
     check msg s ''BWOP009'' [] (KeyContract_Validate (keyContract s)) @
     check msg s ''BWOP003'' [] (ResultContract_Validate (resultContract s)) @
     check msg s ''BWOP004'' [] (PartitionContract_Validate (partitionContract s)) @
     check msg s ''BWOP005'' [] (SchedulerPolicy_Validate (schedulerPolicy s)) @
     check msg s ''BWOP006'' [] (DeduplicationPolicy_Validate (deduplicationPolicy s)) @
     check msg s ''BWOP007'' [] (RetryPolicy_Validate (retryPolicy s)) @
     check msg s ''BWOP008'' [] (FallbackPolicy_Validate (fallbackPolicy s)) @
     concat (map (\<lambda>e. check msg s ''BWOP010'' [] (Extension_Validate e)) (extensions s)) @
     (if Symbol_IsZero (scalarSymbol s) then []
      else check msg s ''BWOP016'' ''scalar '' (Symbol_Validate (scalarSymbol s))) @
     (if Symbol_IsZero (batchSymbol s) then []
      else check msg s ''BWOP016'' ''batch '' (Symbol_Validate (batchSymbol s))) @
     validateCrossField s"

record ValidationError =
  ve_ID :: string
  ve_Diagnostics :: Collection

definition Spec_ValidationError :: "(op_error \<Rightarrow> string) \<Rightarrow> Spec \<Rightarrow> ValidationError option" where
  "Spec_ValidationError msg s =
     (let diags = Spec_Validate msg s in
      if HasErrors diags then Some \<lparr>ve_ID = spec_id s, ve_Diagnostics = diags\<rparr> else None)"

definition baseSpec :: "string \<Rightarrow> Semantics \<Rightarrow> Spec" where
  "baseSpec i sem = \<lparr>spec_id = i, spec_semantics = sem, scalarSymbol = zeroSymbol, batchSymbol = zeroSymbol,
     keyContract = DefaultKeyContract, resultContract = OrderedResults,
     partitionContract = DefaultPartitionContract, schedulerPolicy = DefaultSchedulerPolicy,
     deduplicationPolicy = DefaultDeduplicationPolicy, retryPolicy = DefaultRetryPolicy,
     fallbackPolicy = DefaultFallbackPolicy, spec_source = AtPosition zeroPosition, extensions = []\<rparr>"

definition NewSpec :: "(op_error \<Rightarrow> string) \<Rightarrow> string \<Rightarrow> Semantics \<Rightarrow> SpecOption list \<Rightarrow> ValidationError + Spec" where
  "NewSpec msg i sem options =
     (let s = fold (\<lambda>opt. opt) options (baseSpec i sem); diags = Spec_Validate msg s
      in if HasErrors diags then Inl \<lparr>ve_ID = i, ve_Diagnostics = diags\<rparr> else Inr s)"

section \<open>What a valid spec guarantees\<close>

lemma HasErrors_findings:
  "HasErrors [] \<longleftrightarrow> False" "HasErrors (c @ d) \<longleftrightarrow> HasErrors c \<or> HasErrors d"
  "HasErrors (check msg s code pre r) \<longleftrightarrow> r \<noteq> None" "HasErrors (rule s broken code text) \<longleftrightarrow> broken"
  "HasErrors (concat cs) \<longleftrightarrow> list_ex HasErrors cs"
  "HasErrors (if b then c else d) \<longleftrightarrow> (if b then HasErrors c else HasErrors d)"
proof -
  show "HasErrors (concat cs) \<longleftrightarrow> list_ex HasErrors cs"
    by (induction cs) (auto simp: HasErrors_def)
qed (auto simp: HasErrors_def check_def rule_def finding_def split: option.split)

lemma Spec_Validate_iff:
  "\<not> HasErrors (Spec_Validate msg s) \<longleftrightarrow>
     ID_Validate (spec_id s) = None \<and> Semantics_Validate (spec_semantics s) = None \<and>
     KeyContract_Validate (keyContract s) = None \<and> ResultContract_Validate (resultContract s) = None \<and>
     PartitionContract_Validate (partitionContract s) = None \<and>
     SchedulerPolicy_Validate (schedulerPolicy s) = None \<and>
     DeduplicationPolicy_Validate (deduplicationPolicy s) = None \<and>
     RetryPolicy_Validate (retryPolicy s) = None \<and> FallbackPolicy_Validate (fallbackPolicy s) = None \<and>
     list_all (\<lambda>e. Extension_Validate e = None) (extensions s) \<and>
     (Symbol_IsZero (scalarSymbol s) \<or> Symbol_Validate (scalarSymbol s) = None) \<and>
     (Symbol_IsZero (batchSymbol s) \<or> Symbol_Validate (batchSymbol s) = None) \<and>
     \<not> HasErrors (validateCrossField s)"
  by (simp add: Spec_Validate_def HasErrors_findings list_ex_iff list_all_iff)

lemma dimensionsLoop_None:
  "dimensionsLoop ds seen = None \<longleftrightarrow>
     list_all (\<lambda>d. Dimension_Validate d = None) ds \<and> distinct ds \<and> set ds \<inter> seen = {}"
  by (induction ds seen rule: dimensionsLoop.induct) (auto split: option.split)

lemma PartitionContract_None:
  "PartitionContract_Validate c = None \<Longrightarrow>
     list_all (\<lambda>d. Dimension_Validate d = None) (pc_required c @ pc_optional c) \<and>
     distinct (pc_required c @ pc_optional c) \<and>
     (pc_scope c = ScopeProcess \<and> \<not> pc_publicContextIndep c \<longrightarrow>
        ''tenant'' \<in> set (pc_required c) \<and> ''authorization'' \<in> set (pc_required c))"
  by (auto simp: PartitionContract_Validate_def dimensionsLoop_None requires_def list_ex_iff
      split: if_splits option.splits)

lemma SchedulerPolicy_None:
  "SchedulerPolicy_Validate q = None \<Longrightarrow>
     1 \<le> sp_MinBatchSize q \<and> sp_MinBatchSize q \<le> sp_MaxBatchSize q \<and> 1 \<le> sp_MaxConcurrency q \<and>
     1 \<le> sp_MaxBatchWeight q \<and> 0 \<le> sp_MaxWait q \<and> 1 \<le> sp_QueueItems q"
  by (auto simp: SchedulerPolicy_Validate_def Let_def split: if_splits)

text \<open>C32: A spec that NewSpec returns is safe to batch: its identifier follows the grammar; its
  partition dimensions are valid and distinct, and process-wide batching isolates tenants and
  authorization unless declared public; transaction- and session-bound operations partition by
  transaction and session; retry is enabled only where repetition is declared safe;
  deduplication only where it is allowed; parallel fallback never runs non-idempotent
  operations; and the scheduler bounds are positive.\<close>

theorem valid_spec_is_safe:
  assumes "NewSpec msg i sem options = Inr s"
  shows "ParseID (spec_id s) = Inr (spec_id s) \<and>
    distinct (pc_required (partitionContract s) @ pc_optional (partitionContract s)) \<and>
    (pc_scope (partitionContract s) = ScopeProcess \<and> \<not> pc_publicContextIndep (partitionContract s) \<longrightarrow>
      ''tenant'' \<in> set (pc_required (partitionContract s)) \<and>
      ''authorization'' \<in> set (pc_required (partitionContract s))) \<and>
    (sem_kind (spec_semantics s) = KindTransactionBound \<longrightarrow> ''transaction'' \<in> set (pc_required (partitionContract s))) \<and>
    (sem_kind (spec_semantics s) = KindSessionBound \<longrightarrow> ''session'' \<in> set (pc_required (partitionContract s))) \<and>
    (rp_Enabled (retryPolicy s) \<longrightarrow> sem_retryAllowed (spec_semantics s) \<and>
      sem_idempotency (spec_semantics s) \<noteq> IdempotencyNonIdempotent \<and> 2 \<le> rp_MaxAttempts (retryPolicy s)) \<and>
    (Dedup_Enabled (deduplicationPolicy s) \<longrightarrow> sem_deduplicationAllowed (spec_semantics s)) \<and>
    (fp_Mode (fallbackPolicy s) = FallbackParallelScalar \<longrightarrow>
      sem_idempotency (spec_semantics s) \<noteq> IdempotencyNonIdempotent) \<and>
    1 \<le> sp_MaxBatchSize (schedulerPolicy s) \<and> 1 \<le> sp_MaxConcurrency (schedulerPolicy s)"
proof -
  have ok: "\<not> HasErrors (Spec_Validate msg s)"
    using assms by (auto simp: NewSpec_def Let_def split: if_splits)
  note parts = ok [unfolded Spec_Validate_iff]
  have i: "ParseID (spec_id s) = Inr (spec_id s)"
    using parts ParseID_text by (auto simp: ID_Validate_def split: sum.splits)
  have r: "rp_Enabled (retryPolicy s) \<longrightarrow> 2 \<le> rp_MaxAttempts (retryPolicy s)"
    using parts by (auto simp: RetryPolicy_Validate_def Let_def split: if_splits option.splits)
  have x: "\<not> HasErrors (validateCrossField s)" and p: "PartitionContract_Validate (partitionContract s) = None"
    and q: "SchedulerPolicy_Validate (schedulerPolicy s) = None"
    using parts by simp_all
  from x have cross: "(sem_kind (spec_semantics s) = KindTransactionBound \<longrightarrow> ''transaction'' \<in> set (pc_required (partitionContract s)))"
    "(sem_kind (spec_semantics s) = KindSessionBound \<longrightarrow> ''session'' \<in> set (pc_required (partitionContract s)))"
    "(rp_Enabled (retryPolicy s) \<longrightarrow> sem_retryAllowed (spec_semantics s) \<and>
      sem_idempotency (spec_semantics s) \<noteq> IdempotencyNonIdempotent)"
    "(Dedup_Enabled (deduplicationPolicy s) \<longrightarrow> sem_deduplicationAllowed (spec_semantics s))"
    "(fp_Mode (fallbackPolicy s) = FallbackParallelScalar \<longrightarrow>
      sem_idempotency (spec_semantics s) \<noteq> IdempotencyNonIdempotent)"
    by (simp_all add: validateCrossField_def Let_def HasErrors_findings requires_def list_ex_iff
        split: if_split_asm)
  show ?thesis
    using i r cross PartitionContract_None [OF p] SchedulerPolicy_None [OF q] by simp
qed

definition demoRetry :: RetryParams where
  "demoRetry = DefaultRetryPolicy\<lparr>rp_Enabled := True, rp_MaxAttempts := 3, rp_MaxBackoff := 10,
     rp_Retryable := [RetryTransport]\<rparr>"

definition demoTenant :: PartitionContract where
  "demoTenant = NewPartitionContract ScopeProcess [''tenant'', ''authorization''] [''region'']"

theorem valid_spec_is_safe_witness:
  "\<exists>s. NewSpec (\<lambda>_. ''err'') ''billing.customer.get'' ReadOnly [WithRetryPolicy demoRetry, WithPartitionContract demoTenant] = Inr s
     \<and> rp_Enabled (retryPolicy s) \<and> sem_retryAllowed (spec_semantics s) \<and>
     ''tenant'' \<in> set (pc_required (partitionContract s))"
proof -
  let ?r = "NewSpec (\<lambda>_. ''err'') ''billing.customer.get'' ReadOnly [WithRetryPolicy demoRetry, WithPartitionContract demoTenant]"
  have "case ?r of Inr s \<Rightarrow> rp_Enabled (retryPolicy s) \<and> pc_scope (partitionContract s) = ScopeProcess \<and>
      \<not> pc_publicContextIndep (partitionContract s) | Inl _ \<Rightarrow> False"
    by code_simp
  then obtain s where s: "?r = Inr s" "rp_Enabled (retryPolicy s)" "pc_scope (partitionContract s) = ScopeProcess"
    "\<not> pc_publicContextIndep (partitionContract s)"
    by (cases ?r) auto
  from valid_spec_is_safe [OF s(1)] s show ?thesis by auto
qed

definition namedSemantics :: "Semantics list" where
  "namedSemantics = [ReadOnly, FreshnessSensitiveRead, IdempotentWrite, NonIdempotentWrite,
     CommutativeAggregation, OrderedAggregation, AtomicGroup, TransactionBound, SessionBound]"

lemma default_parts:
  "KeyContract_Validate DefaultKeyContract = None" "ResultContract_Validate OrderedResults = None"
  "PartitionContract_Validate DefaultPartitionContract = None"
  "SchedulerPolicy_Validate DefaultSchedulerPolicy = None"
  "DeduplicationPolicy_Validate DefaultDeduplicationPolicy = None"
  "RetryPolicy_Validate DefaultRetryPolicy = None" "FallbackPolicy_Validate DefaultFallbackPolicy = None"
  "Symbol_IsZero zeroSymbol"
  "\<not> Dedup_Enabled DefaultDeduplicationPolicy" "\<not> rp_Enabled DefaultRetryPolicy"
  "\<not> rp_PartialItemRetry DefaultRetryPolicy" "fp_Mode DefaultFallbackPolicy = FallbackScalar"
  "\<not> requires DefaultPartitionContract d"
  by code_simp+

lemma baseSpec_ok:
  "\<not> HasErrors (Spec_Validate msg (baseSpec i sem)) \<longleftrightarrow>
     ID_Validate i = None \<and> Semantics_Validate sem = None \<and>
     sem_kind sem \<noteq> KindTransactionBound \<and> sem_kind sem \<noteq> KindSessionBound"
  by (simp add: Spec_Validate_iff baseSpec_def default_parts validateCrossField_def Let_def HasErrors_findings
      ConfigBased_def)

lemma NewSpec_default:
  "(\<exists>s. NewSpec msg i sem [] = Inr s) \<longleftrightarrow>
     ParseID i = Inr i \<and> Semantics_Validate sem = None \<and>
     sem_kind sem \<noteq> KindTransactionBound \<and> sem_kind sem \<noteq> KindSessionBound"
proof -
  have "ID_Validate i = None \<longleftrightarrow> ParseID i = Inr i"
    using ParseID_text by (auto simp: ID_Validate_def split: sum.splits)
  then show ?thesis
    using baseSpec_ok [of msg i sem] by (auto simp: NewSpec_def Let_def)
qed

lemma Kind_Valid_cases: "Kind_Valid k \<longleftrightarrow> k \<in> {1, 2, 3, 4, 5, 6, 7, 8, 9}"
proof
  assume v: "Kind_Valid k"
  then have "unat k < 10" "unat k \<noteq> 0"
    by (auto simp: Kind_Valid_def kindNames_def unat_eq_0)
  then have "unat k \<in> {1, 2, 3, 4, 5, 6, 7, 8, 9}"
    by auto
  then have "word_of_nat (unat k) \<in> (word_of_nat :: nat \<Rightarrow> u8) ` {1, 2, 3, 4, 5, 6, 7, 8, 9}"
    by (rule imageI)
  then show "k \<in> {1, 2, 3, 4, 5, 6, 7, 8, 9}"
    by simp
next
  assume "k \<in> {1, 2, 3, 4, 5, 6, 7, 8, 9}"
  then show "Kind_Valid k"
    by (auto simp: Kind_Valid_def kindNames_def)
qed

lemma namedSemantics_kinds: "map sem_kind namedSemantics = [1, 2, 3, 4, 5, 6, 7, 8, 9]"
  by code_simp

text \<open>The nine named semantics are valid and their kinds are all the valid kinds. With no options
  NewSpec accepts exactly a grammatical identifier with semantics that are bound neither to a
  transaction nor to a session (those need a partition contract). A read may be made
  reorderable, nothing else may.\<close>

theorem default_specs:
  "(Kind_Valid k \<longleftrightarrow> k \<in> set (map sem_kind namedSemantics)) \<and>
   list_all (\<lambda>sem. Semantics_Validate sem = None \<and>
     (Semantics_Validate (WithReorderable sem) = None \<longleftrightarrow> sem_effect sem = EffectRead) \<and>
     ((\<exists>s. NewSpec msg i sem [] = Inr s) \<longleftrightarrow> ParseID i = Inr i \<and> sem \<noteq> TransactionBound \<and> sem \<noteq> SessionBound))
     namedSemantics"
proof -
  have "list_all (\<lambda>sem. Semantics_Validate sem = None \<and>
     (Semantics_Validate (WithReorderable sem) = None \<longleftrightarrow> sem_effect sem = EffectRead) \<and>
     (sem_kind sem = KindTransactionBound \<longleftrightarrow> sem = TransactionBound) \<and>
     (sem_kind sem = KindSessionBound \<longleftrightarrow> sem = SessionBound)) namedSemantics"
    by code_simp
  moreover have "Kind_Valid k \<longleftrightarrow> k \<in> set (map sem_kind namedSemantics)"
    by (simp add: Kind_Valid_cases namedSemantics_kinds del: set_map)
  ultimately show ?thesis
    by (simp add: NewSpec_default list_all_iff)
qed

end
