(* ===== verification/Proof_Engine.thy ===== *)
theory Proof_Engine
  imports Proof_Model
begin

text \<open>
  The proof engine: the facts of a candidate and its evaluation (internal/proof/evaluate.go), the
  nineteen obligations (obligations_eval.go), the run over a snapshot (engine.go) and its
  diagnostics (diagnostics.go). A method on the candidate context that records a witness or
  requests an assumption returns the changed context. The set of assumptions is shared by all
  candidates of a run, so the run hands it from one candidate to the next. The Go version, the
  time stamp and the state of the run's context before each candidate are parameters.
\<close>

section \<open>Candidate facts (evaluate.go)\<close>

record Limits =
  li_MaxCandidates :: int
  li_MaxWitnessSteps :: int

definition DefaultMaxCandidates :: int where "DefaultMaxCandidates = 5000"

definition Limits_withDefaults :: "Limits \<Rightarrow> Limits" where
  "Limits_withDefaults l =
     (let l = (if li_MaxCandidates l \<le> 0 then l\<lparr>li_MaxCandidates := DefaultMaxCandidates\<rparr> else l)
      in if li_MaxWitnessSteps l \<le> 0 then l\<lparr>li_MaxWitnessSteps := 32\<rparr> else l)"

definition staticBarrierEffects :: "string list" where
  "staticBarrierEffects = [''global-write'', ''channel'', ''synchronization'', ''network'', ''process'',
     ''filesystem'', ''unsafe'', ''reflection'', ''unknown-call'', ''randomness'', ''time'', ''logging'',
     ''goroutine'']"

record candidateContext =
  cc_cand :: Candidate
  cc_op :: Operation
  cc_spec :: "Spec option"
  cc_sites :: "CallSite list"
  cc_contractDigest :: string
  cc_assumptions :: assumptionSet
  cc_limits :: Limits
  cc_effects :: "string list"
  cc_effectsComplete :: bool
  cc_dispatch :: "string list"
  cc_receivers :: "string list"
  cc_contexts :: "string list"
  cc_keyDeps :: "string list"
  cc_inGoroutine :: bool
  cc_location :: string
  cc_witnesses :: "Witness list"

definition keys :: "string list \<Rightarrow> string list" where
  "keys m = sort m"

definition effectSet :: "string list \<Rightarrow> string list" where
  "effectSet m = m"

definition addKey :: "string \<Rightarrow> string list \<Rightarrow> string list" where
  "addKey k m = (if k \<in> set m then m else m @ [k])"

definition ambiguousSite :: "CallSite \<Rightarrow> bool" where
  "ambiguousSite s \<longleftrightarrow> cs_Targets s \<noteq> 1 \<or> cs_Dispatch s = DispatchInterface \<or> cs_Dispatch s = DispatchUnknown"

record gathered =
  ga_cc :: candidateContext
  ga_recvSet :: "string list"
  ga_ctxSet :: "string list"
  ga_dispSet :: "string list"
  ga_keySet :: "string list"
  ga_seenFn :: "string list"

definition foldEffects :: "(string, EffectSummary) gomap \<Rightarrow> CallSite \<Rightarrow> gathered \<Rightarrow> gathered" where
  "foldEffects effByFn s g =
     (let f = cs_EnclosingFunctionID s in
      if f \<noteq> [] \<and> f \<notin> set (ga_seenFn g) then
        (let cc = ga_cc g;
             cc = (case map_of effByFn f of
                     Some e \<Rightarrow>
                       (let cc = cc\<lparr>cc_effects := fold addKey (ef_Effects e) (cc_effects cc)\<rparr>
                        in if \<not> ef_Complete e then cc\<lparr>cc_effectsComplete := False\<rparr> else cc)
                   | None \<Rightarrow> cc\<lparr>cc_effectsComplete := False\<rparr>)
         in g\<lparr>ga_seenFn := ga_seenFn g @ [f], ga_cc := cc\<rparr>)
      else g)"

definition gatherSite :: "(string, EffectSummary) gomap \<Rightarrow> CallSite \<Rightarrow> gathered \<Rightarrow> gathered" where
  "gatherSite effByFn s g =
     (let cc = ga_cc g;
          cc = cc\<lparr>cc_sites := cc_sites cc @ [s]\<rparr>;
          cc = (if cc_location cc = [] then cc\<lparr>cc_location := cs_Location s\<rparr> else cc);
          cc = (if cs_InGoroutine s then cc\<lparr>cc_inGoroutine := True\<rparr> else cc);
          disp = addKey (cs_Dispatch s) (ga_dispSet g);
          g = g\<lparr>ga_cc := cc,
                ga_dispSet := (if ambiguousSite s then addKey ''ambiguous'' disp else disp),
                ga_recvSet := (if cs_Receiver s \<noteq> [] then addKey (cs_Receiver s) (ga_recvSet g) else ga_recvSet g),
                ga_ctxSet := (if cs_ContextArg s \<noteq> [] then addKey (cs_ContextArg s) (ga_ctxSet g) else ga_ctxSet g),
                ga_keySet := (if cs_KeyDependency s \<noteq> [] then addKey (cs_KeyDependency s) (ga_keySet g)
                              else ga_keySet g)\<rparr>
      in foldEffects effByFn s g)"

fun gather :: "(string, CallSite) gomap \<Rightarrow> (string, EffectSummary) gomap \<Rightarrow> string list \<Rightarrow> gathered \<Rightarrow> gathered" where
  "gather siteByID effByFn [] g = g"
| "gather siteByID effByFn (i # is) g =
     (case map_of siteByID i of
        None \<Rightarrow> gather siteByID effByFn is g
      | Some s \<Rightarrow> gather siteByID effByFn is (gatherSite effByFn s g))"

definition newCandidateContext ::
  "Candidate \<Rightarrow> Operation \<Rightarrow> (string, Spec) gomap \<Rightarrow> (string, CallSite) gomap \<Rightarrow> (string, EffectSummary) gomap \<Rightarrow>
   assumptionSet \<Rightarrow> string \<Rightarrow> Limits \<Rightarrow> candidateContext" where
  "newCandidateContext cand op specs siteByID effByFn assumptions contractDigest limits =
     (let cc = \<lparr>cc_cand = cand, cc_op = op, cc_spec = map_of specs (cd_Operation cand), cc_sites = [],
            cc_contractDigest = contractDigest, cc_assumptions = assumptions, cc_limits = limits,
            cc_effects = [], cc_effectsComplete = True, cc_dispatch = [], cc_receivers = [], cc_contexts = [],
            cc_keyDeps = [], cc_inGoroutine = False, cc_location = [], cc_witnesses = []\<rparr>;
          g = gather siteByID effByFn (cd_CallSites cand)
                \<lparr>ga_cc = cc, ga_recvSet = [], ga_ctxSet = [], ga_dispSet = [], ga_keySet = [], ga_seenFn = []\<rparr>
      in (ga_cc g)\<lparr>cc_dispatch := keys (ga_dispSet g), cc_receivers := keys (ga_recvSet g),
            cc_contexts := keys (ga_ctxSet g), cc_keyDeps := keys (ga_keySet g)\<rparr>)"

definition candFacts :: "candidateContext \<Rightarrow> candidateFacts" where
  "candFacts cc =
     \<lparr>fa_id = cd_ID (cc_cand cc), fa_operation = cd_Operation (cc_cand cc), fa_structure = cd_State (cc_cand cc),
      fa_compatibility = ao_Compatibility (cc_op cc), fa_disabled = ao_Disabled (cc_op cc), fa_kind = ao_Kind (cc_op cc),
      fa_contractDigest = cc_contractDigest cc, fa_dispatch = cc_dispatch cc,
      fa_effects = keys (effectSet (cc_effects cc)), fa_effectsComplete = cc_effectsComplete cc,
      fa_receivers = cc_receivers cc, fa_contexts = cc_contexts cc\<rparr>"

definition structureLabel :: "string \<Rightarrow> string" where
  "structureLabel state =
     (if state = StatePotentialLoop then ''range loop''
      else if state = StatePotentialSiblings then ''sibling calls''
      else if state = StatePotentialFanout then ''goroutine fan-out''
      else if state = StateAmbiguousTarget then ''ambiguous target''
      else if state = StateDirectIsolated then ''direct call''
      else if state = StateDisabledOperation then ''disabled operation''
      else if state = StateInvalidDeclaration then ''invalid declaration''
      else state)"

definition barrierEffects :: "candidateContext \<Rightarrow> string list" where
  "barrierEffects cc = sort (filter (\<lambda>e. e \<in> set staticBarrierEffects) (cc_effects cc))"

definition addWitness ::
  "(string \<Rightarrow> string) \<Rightarrow> string \<Rightarrow> string \<Rightarrow> string list \<Rightarrow> candidateContext \<Rightarrow> string \<times> candidateContext" where
  "addWitness sha obl summary steps cc =
     (let i = shortID sha ''bwwit'' [cd_ID (cc_cand cc), obl];
          truncated = int (length steps) > li_MaxWitnessSteps (cc_limits cc);
          steps = (if truncated then take (nat (li_MaxWitnessSteps (cc_limits cc))) steps else steps)
      in (i, cc\<lparr>cc_witnesses := cc_witnesses cc @ [\<lparr>wi_ID = i, wi_Obligation = obl, wi_Summary = summary,
            wi_Steps = steps, wi_Location = cc_location cc, wi_Truncated = truncated\<rparr>]\<rparr>))"

section \<open>Obligations (obligations_eval.go)\<close>

fun JoinSep :: "string \<Rightarrow> string list \<Rightarrow> string" where
  "JoinSep sep [] = []"
| "JoinSep sep [s] = s"
| "JoinSep sep (s # t # ss) = s @ sep @ JoinSep sep (t # ss)"

definition has :: "string list \<Rightarrow> string \<Rightarrow> bool" where
  "has s v = list_ex (\<lambda>x. x = v) s"

definition evidence :: "(string \<Rightarrow> string) \<Rightarrow> candidateContext \<Rightarrow> string \<Rightarrow> string \<Rightarrow> Evidence" where
  "evidence sha cc kind detail =
     \<lparr>ev_EvID = shortID sha ''bwev'' [cd_ID (cc_cand cc), kind, detail], ev_EvKind = kind, ev_Detail = detail,
      ev_EvLocation = cc_location cc\<rparr>"

definition result :: "string \<Rightarrow> ObligationStatus \<Rightarrow> string \<Rightarrow> Evidence list \<Rightarrow> ObligationResult" where
  "result i status summary ev = \<lparr>or_ID = i, or_Family = [], or_Status = status, or_Summary = summary,
     or_Evidence = ev, or_Assumptions = [], or_Witness = []\<rparr>"

text \<open>A result whose witness is recorded in the context.\<close>

definition witnessed ::
  "(string \<Rightarrow> string) \<Rightarrow> string \<Rightarrow> string list \<Rightarrow> ObligationResult \<Rightarrow> candidateContext \<Rightarrow> ObligationResult \<times> candidateContext" where
  "witnessed sha summary steps r cc =
     (let (w, cc) = addWitness sha (or_ID r) summary steps cc in (r\<lparr>or_Witness := w\<rparr>, cc))"

type_synonym evaluator = "candidateContext \<Rightarrow> ObligationResult \<times> candidateContext"

definition oblSignatureCompatible :: "(string \<Rightarrow> string) \<Rightarrow> evaluator" where
  "oblSignatureCompatible sha cc =
     (let c = ao_Compatibility (cc_op cc) in
      if c = ''valid'' then
        (result OblSignatureCompatible ObligationSatisfied ''scalar and batch signatures are compatible''
           [evidence sha cc ''compatibility'' ''analysis resolved both symbols and verified error results''], cc)
      else if c = ''unresolved'' then
        (result OblSignatureCompatible ObligationUnknown
           ''scalar or batch symbol could not be resolved in the loaded program'' [], cc)
      else
        (result OblSignatureCompatible ObligationViolated ''scalar and batch signatures are not compatible'' [], cc))"

definition oblOperationEnabled :: evaluator where
  "oblOperationEnabled cc =
     (if ao_Disabled (cc_op cc) then (result OblOperationEnabled ObligationDeferred ''operation is disabled'' [], cc)
      else (result OblOperationEnabled ObligationSatisfied ''operation is enabled for transformation'' [], cc))"

definition oblResultContract :: "(string \<Rightarrow> string) \<Rightarrow> evaluator" where
  "oblResultContract sha cc =
     (case cc_spec cc of
        None \<Rightarrow> (result OblResultContract ObligationUnknown
           ''no validated result contract is available for this operation'' [], cc)
      | Some spec \<Rightarrow>
          (let mode = ResultMode_String (rc_mode (resultContract spec)) in
           (result OblResultContract ObligationSatisfied
              (''result contract ('' @ mode @ '') is sufficient for scalar reconstruction'')
              [evidence sha cc ''contract'' (''result mode '' @ mode @ '', missing policy '' @
                 MissingBehavior_String (rc_missing (resultContract spec)))], cc)))"

definition operationEffect :: "candidateContext \<Rightarrow> u8 \<times> string" where
  "operationEffect cc =
     (case cc_spec cc of
        Some spec \<Rightarrow> (let k = sem_kind (spec_semantics spec) in (Kind_Effect k, Kind_String k))
      | None \<Rightarrow>
          (let k = ao_Kind (cc_op cc) in
           if k = ''read-only'' \<or> k = ''freshness-sensitive-read'' then (EffectRead, k)
           else if k = [] then (EffectUnknown, ''unknown'')
           else if k = ''commutative-aggregation'' \<or> k = ''ordered-aggregation'' then (EffectAggregate, k)
           else (EffectWrite, k)))"

definition oblReadCategory :: "(string \<Rightarrow> string) \<Rightarrow> evaluator" where
  "oblReadCategory sha cc =
     (let (effect, kindName) = operationEffect cc in
      if effect = EffectRead then
        (result OblReadCategory ObligationSatisfied (''operation is declared '' @ kindName)
           [evidence sha cc ''operation-kind'' kindName], cc)
      else if effect = EffectUnknown then
        (result OblReadCategory ObligationUnknown
           ''operation kind is unknown; a read/write classification is required'' [], cc)
      else
        witnessed sha
          (''operation is a '' @ kindName @ ''; core static and runtime coalescing do not batch writes or aggregations'')
          [''declared kind: '' @ kindName]
          (result OblReadCategory ObligationViolated
             (''operation is a '' @ kindName @ ''; the strategy does not support it'') []) cc)"

definition oblFreshnessNeutral :: evaluator where
  "oblFreshnessNeutral cc =
     (if (case cc_spec cc of Some spec \<Rightarrow> sem_freshnessDependent (spec_semantics spec) | None \<Rightarrow> False) then
        (result OblFreshnessNeutral ObligationUnknown
           ''operation is freshness-sensitive; reordering across observations is not proven safe'' [], cc)
      else if fst (operationEffect cc) \<noteq> EffectRead then
        (result OblFreshnessNeutral ObligationNotApplicable ''freshness does not apply to a non-read operation'' [], cc)
      else (result OblFreshnessNeutral ObligationSatisfied ''operation is not freshness-sensitive'' [], cc))"

definition oblTargetResolved :: "(string \<Rightarrow> string) \<Rightarrow> evaluator" where
  "oblTargetResolved sha cc =
     (if list_ex ambiguousSite (cc_sites cc) then
        witnessed sha ''call target includes an unresolved interface implementation''
          [''dispatch: '' @ JoinSep '', '' (cc_dispatch cc)]
          (result OblTargetResolved ObligationUnknown ''call target does not resolve to a single implementation'' []) cc
      else
        (result OblTargetResolved ObligationSatisfied ''call target resolves to a single implementation''
           [evidence sha cc ''dispatch'' ''direct call with a single static target''], cc))"

definition oblNoObservableBarrier :: "(string \<Rightarrow> string) \<Rightarrow> evaluator" where
  "oblNoObservableBarrier sha cc =
     (if \<not> cc_effectsComplete cc then
        (result OblNoObservableBarrier ObligationUnknown
           ''the enclosing function has unresolved effects; a barrier cannot be excluded'' [], cc)
      else
        (let b = barrierEffects cc in
         if length b > 0 then
           witnessed sha ''the enclosing function performs observable effects that may occur between scalar calls''
             [''effects: '' @ JoinSep '', '' b]
             (result OblNoObservableBarrier ObligationUnknown
                (''an observable effect may occur between scalar calls: '' @ JoinSep '', '' b) []) cc
         else
           (result OblNoObservableBarrier ObligationSatisfied
              ''the enclosing function is observably effect-free around the scalar calls''
              [evidence sha cc ''effects'' ''no observable effects in the enclosing function''], cc)))"

definition oblEarlyExitReplayable :: evaluator where
  "oblEarlyExitReplayable cc =
     (case cc_spec cc of
        None \<Rightarrow> (result OblEarlyExitReplayable ObligationUnknown
           ''no result contract is available to reconstruct early control flow'' [], cc)
      | Some spec \<Rightarrow>
          if rc_errorMode (resultContract spec) = ErrorPerItem then
            (result OblEarlyExitReplayable ObligationSatisfied
               ''per-item errors allow early control flow to be reconstructed in source order'' [], cc)
          else
            (result OblEarlyExitReplayable ObligationUnknown
               ''a global error contract does not preserve per-iteration early exit without further proof'' [], cc))"

definition oblKeyIndependent :: "(string \<Rightarrow> string) \<Rightarrow> evaluator" where
  "oblKeyIndependent sha cc =
     (if has (cc_keyDeps cc) KeyResultDependent then
        witnessed sha ''the key expression depends on the result of a prior scalar-operation call''
          [''key dependency: '' @ KeyResultDependent]
          (result OblKeyIndependent ObligationViolated
             ''a key depends on a prior scalar result and cannot be collected ahead of the operation'' []) cc
      else if has (cc_keyDeps cc) KeyCallDerived then
        (let symbol = ''key:'' @ cd_Operation (cc_cand cc) in
         if assumptionSet_has (cc_assumptions cc) symbol FactSideEffectFreeRead then
           ((result OblKeyIndependent ObligationSatisfied ''key independence accepted by an explicit assumption'' [])
              \<lparr>or_Assumptions := [shortID sha ''BW-A'' [symbol, FactSideEffectFreeRead]]\<rparr>, cc)
         else
           (let (i, asms) = assumptionSet_request sha symbol FactSideEffectFreeRead
                  (''key expression for '' @ cd_Operation (cc_cand cc) @
                   '' is side-effect-free and independent of prior results'') (cc_assumptions cc)
            in witnessed sha ''the key expression calls another function or reads mutable global state''
                 [''key dependency: '' @ KeyCallDerived]
                 ((result OblKeyIndependent ObligationNeedsAssumption
                    ''a key is produced by a call whose independence requires an explicit assumption'' [])
                    \<lparr>or_Assumptions := [i]\<rparr>)
                 (cc\<lparr>cc_assumptions := asms\<rparr>)))
      else if has (cc_keyDeps cc) KeyUnknown \<or> length (cc_keyDeps cc) = 0 then
        (result OblKeyIndependent ObligationUnknown ''the key expression could not be classified'' [], cc)
      else
        (result OblKeyIndependent ObligationSatisfied
           ''keys derive only from parameters, constants, and induction values''
           [evidence sha cc ''key'' ''structural key dependency''], cc))"

definition oblNoLoopCarried :: "(string \<Rightarrow> string) \<Rightarrow> evaluator" where
  "oblNoLoopCarried sha cc =
     (if cd_State (cc_cand cc) \<noteq> StatePotentialLoop then
        (result OblNoLoopCarried ObligationNotApplicable ''candidate is not a loop'' [], cc)
      else if has (cc_keyDeps cc) KeyResultDependent then
        witnessed sha ''a later iteration key depends on an earlier iteration operation result''
          [''key dependency: '' @ KeyResultDependent]
          (result OblNoLoopCarried ObligationViolated ''a loop-carried dependency crosses the operation result'' []) cc
      else if has (cc_keyDeps cc) KeyCallDerived \<or> has (cc_keyDeps cc) KeyUnknown then
        (result OblNoLoopCarried ObligationUnknown ''a loop-carried dependency cannot be excluded for this key'' [], cc)
      else
        (result OblNoLoopCarried ObligationSatisfied ''no loop-carried dependency crosses the operation result'' [], cc))"

definition oblReceiverInvariant :: "(string \<Rightarrow> string) \<Rightarrow> evaluator" where
  "oblReceiverInvariant sha cc =
     (case cc_receivers cc of
        [] \<Rightarrow> (result OblReceiverInvariant ObligationSatisfied ''operation has no receiver to vary'' [], cc)
      | r0 # rs \<Rightarrow>
          if length (cc_receivers cc) > 1 \<or> has (cc_receivers cc) ''unknown'' then
            witnessed sha ''the receiver expression is not proven to evaluate to the same instance''
              [''receivers: '' @ JoinSep '', '' (cc_receivers cc)]
              (result OblReceiverInvariant ObligationUnknown
                 ''receiver identity is not proven invariant across the region'' []) cc
          else
            (result OblReceiverInvariant ObligationSatisfied ''receiver identity is invariant across the region''
               [evidence sha cc ''receiver'' r0], cc))"

definition oblContextInvariant :: "(string \<Rightarrow> string) \<Rightarrow> evaluator" where
  "oblContextInvariant sha cc =
     (case cc_contexts cc of
        [] \<Rightarrow> (result OblContextInvariant ObligationUnknown ''no context argument was identified'' [], cc)
      | c0 # cs \<Rightarrow>
          if cs = [] \<and> HasPrefix c0 ''parameter '' then
            (result OblContextInvariant ObligationSatisfied ''context expression is a loop-invariant parameter''
               [evidence sha cc ''context'' c0], cc)
          else
            witnessed sha ''the context argument is derived or varies across the region''
              [''contexts: '' @ JoinSep '', '' (cc_contexts cc)]
              (result OblContextInvariant ObligationUnknown
                 ''context expression is not proven invariant across the region'' []) cc)"

fun partitionLoop :: "(string \<Rightarrow> string) \<Rightarrow> Spec \<Rightarrow> string list \<Rightarrow> evaluator" where
  "partitionLoop sha spec [] cc =
     (result OblPartitionStable ObligationSatisfied ''required partitions are invariant across the region''
        [evidence sha cc ''partition'' (''scope '' @ Scope_String (pc_scope (partitionContract spec)))], cc)"
| "partitionLoop sha spec (name # dims) cc =
     (if name = ''receiver'' then
        (if \<not> (length (cc_receivers cc) \<le> 1 \<and> \<not> has (cc_receivers cc) ''unknown'') then
           (result OblPartitionStable ObligationUnknown ''receiver partition is not proven invariant'' [], cc)
         else partitionLoop sha spec dims cc)
      else
        witnessed sha (''partition dimension '' @ name @ '' is not resolvable without a contract'')
          [''required dimension: '' @ name]
          (result OblPartitionStable ObligationUnknown
             (''partition dimension '' @ name @ '' cannot be verified from static facts'') []) cc)"

definition oblPartitionStable :: "(string \<Rightarrow> string) \<Rightarrow> evaluator" where
  "oblPartitionStable sha cc =
     (case cc_spec cc of
        None \<Rightarrow> (result OblPartitionStable ObligationUnknown
           ''no partition contract is available to verify isolation'' [], cc)
      | Some spec \<Rightarrow> partitionLoop sha spec (pc_required (partitionContract spec)) cc)"

definition oblDuplicateMapping :: "(string \<Rightarrow> string) \<Rightarrow> evaluator" where
  "oblDuplicateMapping sha cc =
     (case cc_spec cc of
        None \<Rightarrow> (result OblDuplicateMapping ObligationUnknown
           ''no result contract is available to reconstruct duplicates and missing results'' [], cc)
      | Some spec \<Rightarrow> (result OblDuplicateMapping ObligationSatisfied
           ''duplicate keys and missing results reconstruct scalar outcomes per the result contract''
           [evidence sha cc ''contract'' (''missing policy '' @
              MissingBehavior_String (rc_missing (resultContract spec)))], cc))"

definition oblFirstErrorOrder :: "(string \<Rightarrow> string) \<Rightarrow> evaluator" where
  "oblFirstErrorOrder sha cc =
     (case cc_spec cc of
        None \<Rightarrow> (result OblFirstErrorOrder ObligationUnknown
           ''no error contract is available to reconstruct first-error order'' [], cc)
      | Some spec \<Rightarrow>
          if rc_errorMode (resultContract spec) = ErrorPerItem then
            (result OblFirstErrorOrder ObligationSatisfied
               ''per-item errors allow source-order first-error reconstruction''
               [evidence sha cc ''contract'' ''error mode per-item''], cc)
          else
            (result OblFirstErrorOrder ObligationUnknown
               ''a global or mixed error contract does not preserve source-order first-error without further proof'' [], cc))"

definition oblNoDeferBarrier :: "(string \<Rightarrow> string) \<Rightarrow> evaluator" where
  "oblNoDeferBarrier sha cc =
     (if ''defer'' \<in> set (cc_effects cc) then
        witnessed sha ''the enclosing function registers a defer whose timing could move'' [''effect: defer'']
          (result OblNoDeferBarrier ObligationUnknown
             ''a defer registration in the enclosing function may fall within the candidate region'' []) cc
      else (result OblNoDeferBarrier ObligationSatisfied ''no defer registration timing would move'' [], cc))"

definition oblNoRecoverBoundary :: "(string \<Rightarrow> string) \<Rightarrow> evaluator" where
  "oblNoRecoverBoundary sha cc =
     (if ''recover'' \<in> set (cc_effects cc) then
        witnessed sha ''a recover in the enclosing function may cross the candidate region'' [''effect: recover'']
          (result OblNoRecoverBoundary ObligationUnknown ''the enclosing function crosses a recover boundary'' []) cc
      else (result OblNoRecoverBoundary ObligationSatisfied ''no recover boundary is crossed'' [], cc))"

definition oblNoNewConcurrency :: evaluator where
  "oblNoNewConcurrency cc =
     (result OblNoNewConcurrency ObligationSatisfied ''the strategy introduces no new concurrency'' [], cc)"

definition oblFanoutEnvelope :: "(string \<Rightarrow> string) \<Rightarrow> evaluator" where
  "oblFanoutEnvelope sha cc =
     (if \<not> cc_inGoroutine cc then
        (result OblFanoutEnvelope ObligationNotApplicable ''candidate is not existing fan-out'' [], cc)
      else
        (result OblFanoutEnvelope ObligationSatisfied
           ''calls are already concurrent; coalescing preserves the existing concurrency envelope''
           [evidence sha cc ''concurrency'' ''calls occur inside launched goroutines''], cc))"

section \<open>Proving a candidate (evaluate.go)\<close>

definition evaluators :: "(string \<Rightarrow> string) \<Rightarrow> evaluator list" where
  "evaluators sha = [oblSignatureCompatible sha, oblOperationEnabled, oblResultContract sha, oblReadCategory sha,
     oblFreshnessNeutral, oblTargetResolved sha, oblNoObservableBarrier sha, oblEarlyExitReplayable,
     oblKeyIndependent sha, oblNoLoopCarried sha, oblReceiverInvariant sha, oblContextInvariant sha,
     oblPartitionStable sha, oblDuplicateMapping sha, oblFirstErrorOrder sha, oblNoDeferBarrier sha,
     oblNoRecoverBoundary sha, oblNoNewConcurrency, oblFanoutEnvelope sha]"

definition addResult :: "ObligationResult \<Rightarrow> results \<Rightarrow> results" where
  "addResult r out =
     (let r = (case Obligation (or_ID r) of
                 Some spec \<Rightarrow> if or_Family r = [] then r\<lparr>or_Family := ob_Family spec\<rparr> else r
               | None \<Rightarrow> r)
      in AList.update (or_ID r) r out)"

fun evaluateAll :: "evaluator list \<Rightarrow> results \<Rightarrow> candidateContext \<Rightarrow> results \<times> candidateContext" where
  "evaluateAll [] out cc = (out, cc)"
| "evaluateAll (f # fs) out cc = (let (r, cc) = f cc in evaluateAll fs (addResult r out) cc)"

definition evaluateObligations :: "(string \<Rightarrow> string) \<Rightarrow> candidateContext \<Rightarrow> results \<times> candidateContext" where
  "evaluateObligations sha cc = evaluateAll (evaluators sha) [] cc"

definition orderedResults :: "results \<Rightarrow> ObligationResult list" where
  "orderedResults m = List.map_filter (\<lambda>o1. map_of m (ob_ID o1)) obligationRegistry"

definition applicableStrategies :: "candidateContext \<Rightarrow> string list" where
  "applicableStrategies cc =
     (let state = cd_State (cc_cand cc) in
      if state = StatePotentialLoop then
        [StrategyStaticLoopPrefetch, StrategyStaticOrderedPrefetch, StrategyRuntimeScopeCoalescing]
      else if state = StatePotentialSiblings then [StrategyStaticSiblingFusion, StrategyRuntimeScopeCoalescing]
      else if state = StatePotentialFanout then [StrategyExistingFanoutCoalescing, StrategyRuntimeScopeCoalescing]
      else [StrategyRuntimeScopeCoalescing])"

fun strategyReason :: "Decision \<Rightarrow> string list \<Rightarrow> string" where
  "strategyReason DecisionProvenEligible blocking = ''all required obligations are satisfied''"
| "strategyReason DecisionProvenIneligible blocking =
     ''a required obligation is violated: '' @ JoinSep '', '' blocking"
| "strategyReason DecisionUnknown blocking = ''a required obligation is unknown: '' @ JoinSep '', '' blocking"
| "strategyReason DecisionRequiresAssumption blocking =
     ''a required obligation needs an assumption: '' @ JoinSep '', '' blocking"
| "strategyReason DecisionDeferred blocking = ''a required obligation is deferred: '' @ JoinSep '', '' blocking"

text \<open>Strategy and Obligation return the zero spec for an unknown id.\<close>

definition requiredOf :: "string \<Rightarrow> string list" where
  "requiredOf sid = (case Strategy sid of Some spec \<Rightarrow> st_Required spec | None \<Rightarrow> [])"

definition familyOf :: "string \<Rightarrow> string" where
  "familyOf i = (case Obligation i of Some spec \<Rightarrow> ob_Family spec | None \<Rightarrow> [])"

definition eligibilityOf :: "results \<Rightarrow> string \<Rightarrow> StrategyEligibility" where
  "eligibilityOf rs sid =
     (let (status, blocking) = strategyStatus (requiredOf sid) rs
      in \<lparr>se_Strategy = sid, se_Status = status, se_Reason = strategyReason status blocking,
          se_BlockingObligations = blocking\<rparr>)"

fun reasonLoop :: "Decision \<Rightarrow> StrategyEligibility list \<Rightarrow> string" where
  "reasonLoop decision [] = ReasonNone"
| "reasonLoop decision (s # ss) =
     (case se_BlockingObligations s of
        [] \<Rightarrow> reasonLoop decision ss
      | blocking # _ \<Rightarrow>
          if se_Status s \<noteq> decision then reasonLoop decision ss
          else if blocking = OblReadCategory then ReasonWriteCategory
          else if blocking = OblTargetResolved then ReasonAmbiguousTarget
          else
            (let family = familyOf blocking in
             if family = FamilyDependency then ReasonAmbiguousTarget
             else if family = FamilyOrder \<or> family = FamilyEffect then ReasonObservableBarrier
             else if family = FamilyResult \<or> family = FamilyError \<or> family = FamilyReceiver \<or>
               family = FamilyContext \<or> family = FamilyTransaction then ReasonMissingContract
             else reasonLoop decision ss))"

definition decisionReason :: "Decision \<Rightarrow> StrategyEligibility list \<Rightarrow> string" where
  "decisionReason decision elig =
     (if decision = DecisionProvenEligible then ReasonNone else reasonLoop decision elig)"

definition collectAssumptions :: "candidateContext \<Rightarrow> ObligationResult list \<Rightarrow> string list" where
  "collectAssumptions cc rs =
     (let used = fold addKey (concat (map or_Assumptions rs)) [];
          used = (if cc_inGoroutine cc then addKey builtinRaceFree used else used)
      in if length used = 0 then [] else sort used)"

definition limitations :: "candidateContext \<Rightarrow> string list" where
  "limitations cc =
     (let lims = [''provider performance is not guaranteed'',
            ''provider side effects not declared in the operation contract are not modeled'',
            ''behavior of code reached only through unresolved reflection is not modeled''];
          lims = (if cc_inGoroutine cc then lims @ [''correctness assumes the analyzed program is free of data races'']
                  else lims);
          lims = (if \<not> cc_effectsComplete cc
                  then lims @ [''the enclosing function has unresolved effects; some obligations are unknown'']
                  else lims)
      in sort lims)"

definition invalidation :: "(string \<Rightarrow> string) \<Rightarrow> string \<Rightarrow> candidateContext \<Rightarrow> InvalidationSet" where
  "invalidation sha cd cc = \<lparr>iv_AnalysisDigest = cc_contractDigest cc, iv_ContractDigest = cc_contractDigest cc,
     iv_AssumptionDigest = assumptionSet_digest sha (cc_assumptions cc), iv_CandidateDigest = cd,
     iv_ProofSchema = SchemaVersion, iv_StrategyRegistry = StrategyRegistryVersion\<rparr>"

definition terminal ::
  "(string \<Rightarrow> string) \<Rightarrow> string \<Rightarrow> Decision \<Rightarrow> string \<Rightarrow> string \<Rightarrow> candidateContext \<Rightarrow> CandidateProof" where
  "terminal sha cd decision reason summary cc =
     (let res = (if decision = DecisionProvenIneligible then
            [(result OblSignatureCompatible ObligationViolated summary [])\<lparr>or_Family := FamilyDeclaration\<rparr>]
          else [(result OblOperationEnabled ObligationDeferred summary [])\<lparr>or_Family := FamilyDeclaration\<rparr>])
      in \<lparr>cp_ID = cd_ID (cc_cand cc),
          cp_ProofID = proofID sha cd res [] (cc_contractDigest cc) (assumptionSet_digest sha (cc_assumptions cc)),
          cp_Operation = cd_Operation (cc_cand cc), cp_Structure = structureLabel (cd_State (cc_cand cc)),
          cp_Location = cc_location cc, cp_CandidateDigest = cd, cp_Decision = decision, cp_ReasonCode = reason,
          cp_AllowedStrategies = [], cp_Obligations = res, cp_Assumptions = [], cp_Witnesses = [],
          cp_Limitations = [], cp_Invalidation = invalidation sha cd cc\<rparr>)"

definition prove :: "(string \<Rightarrow> string) \<Rightarrow> candidateContext \<Rightarrow> CandidateProof \<times> candidateContext" where
  "prove sha cc =
     (let cd = candidateDigest sha (candFacts cc) in
      if ao_Compatibility (cc_op cc) = ''invalid'' then
        (terminal sha cd DecisionProvenIneligible ReasonInvalidDeclaration
           ''operation declaration is invalid; the scalar and batch signatures are not compatible'' cc, cc)
      else if ao_Disabled (cc_op cc) then
        (terminal sha cd DecisionDeferred ReasonDisabledOperation
           ''operation is disabled; no transformation strategy is offered'' cc, cc)
      else
        (let (results, cc) = evaluateObligations sha cc;
             elig = stableSort (\<lambda>a b. strategyRank (se_Strategy a) < strategyRank (se_Strategy b))
                      (map (eligibilityOf results) (applicableStrategies cc));
             decision = aggregateDecision elig;
             ordered = orderedResults results
         in (\<lparr>cp_ID = cd_ID (cc_cand cc),
              cp_ProofID = proofID sha cd ordered elig (cc_contractDigest cc)
                (assumptionSet_digest sha (cc_assumptions cc)),
              cp_Operation = cd_Operation (cc_cand cc), cp_Structure = structureLabel (cd_State (cc_cand cc)),
              cp_Location = cc_location cc, cp_CandidateDigest = cd, cp_Decision = decision,
              cp_ReasonCode = decisionReason decision elig, cp_AllowedStrategies = elig,
              cp_Obligations = ordered, cp_Assumptions = collectAssumptions cc ordered,
              cp_Witnesses = cc_witnesses cc, cp_Limitations = limitations cc,
              cp_Invalidation = invalidation sha cd cc\<rparr>, cc)))"

section \<open>Diagnostics (diagnostics.go)\<close>

abbreviation CodeDeclaration :: string where "CodeDeclaration \<equiv> ''BW5000''"
abbreviation CodeOrder :: string where "CodeOrder \<equiv> ''BW5100''"
abbreviation CodeDependency :: string where "CodeDependency \<equiv> ''BW5200''"
abbreviation CodeEffect :: string where "CodeEffect \<equiv> ''BW5300''"
abbreviation CodeReceiverKey :: string where "CodeReceiverKey \<equiv> ''BW5400''"
abbreviation CodeResultError :: string where "CodeResultError \<equiv> ''BW5500''"
abbreviation CodeContext :: string where "CodeContext \<equiv> ''BW5600''"
abbreviation CodeTransaction :: string where "CodeTransaction \<equiv> ''BW5700''"
abbreviation CodePanic :: string where "CodePanic \<equiv> ''BW5800''"
abbreviation CodePrecision :: string where "CodePrecision \<equiv> ''BW5900''"

definition codeForFamily :: "string \<Rightarrow> string" where
  "codeForFamily family =
     (if family = FamilyDeclaration then CodeDeclaration
      else if family = FamilyOrder then CodeOrder
      else if family = FamilyDependency then CodeDependency
      else if family = FamilyEffect then CodeEffect
      else if family = FamilyReceiver \<or> family = FamilyKey then CodeReceiverKey
      else if family = FamilyResult \<or> family = FamilyError then CodeResultError
      else if family = FamilyContext then CodeContext
      else if family = FamilyTransaction then CodeTransaction
      else if family = FamilyPanic then CodePanic
      else CodePrecision)"

definition diagnosticMessage :: "Decision \<Rightarrow> string \<Rightarrow> string" where
  "diagnosticMessage decision obligation =
     (let title = (case Obligation obligation of Some spec \<Rightarrow> ob_Title spec | None \<Rightarrow> []);
          title = (if title = [] then ''a proof obligation'' else title)
      in case decision of
           DecisionProvenIneligible \<Rightarrow> ''candidate is ineligible: '' @ title @ '' is violated''
         | DecisionRequiresAssumption \<Rightarrow> ''candidate requires an explicit assumption: '' @ title
         | DecisionDeferred \<Rightarrow> ''candidate is deferred to a later stage''
         | _ \<Rightarrow> ''candidate is unknown: '' @ title @ '' could not be proven'')"

definition blockingDiagnostic :: "CandidateProof \<Rightarrow> string \<times> string \<times> string" where
  "blockingDiagnostic cp =
     (let (obligation, strategy) =
            (case List.find (\<lambda>s. se_Status s = cp_Decision cp \<and> length (se_BlockingObligations s) > 0)
                    (cp_AllowedStrategies cp) of
               Some s \<Rightarrow> (hd (se_BlockingObligations s), se_Strategy s)
             | None \<Rightarrow> ([], []));
          obligation =
            (if obligation = [] then
               (case List.find (\<lambda>o1. or_Status o1 = ObligationViolated \<or> or_Status o1 = ObligationUnknown)
                       (cp_Obligations cp) of
                  Some o1 \<Rightarrow> or_ID o1
                | None \<Rightarrow> obligation)
             else obligation)
      in (codeForFamily (familyOf obligation), obligation, strategy))"

definition proofDiagnostics :: "(string \<Rightarrow> string) \<Rightarrow> CandidateProof \<Rightarrow> Diag list" where
  "proofDiagnostics sha cp =
     (if cp_Decision cp = DecisionProvenEligible then []
      else
        (let (code, obl, strategy) = blockingDiagnostic cp;
             severity = (if cp_Decision cp = DecisionProvenIneligible then ''warning'' else ''info'')
         in [\<lparr>di_Code = code, di_Severity = severity, di_Message = diagnosticMessage (cp_Decision cp) obl,
              di_Location = cp_Location cp, di_Candidate = cp_ID cp, di_Strategy = strategy, di_Obligation = obl,
              di_Fingerprint = shortID sha ''bwfp'' [cp_ID cp, code, obl]\<rparr>]))"

section \<open>The run (engine.go)\<close>

record Input =
  in_Snapshot :: "Snapshot option"
  in_Specs :: "(string, Spec) gomap"
  in_ContractDigest :: string
  in_Assumptions :: "Assumption list"
  in_Reproducible :: bool
  in_ToolVersion :: string
  in_Limits :: Limits

definition limitedProof :: "(string \<Rightarrow> string) \<Rightarrow> Candidate \<Rightarrow> string \<Rightarrow> string \<Rightarrow> CandidateProof" where
  "limitedProof sha cand contractDigest assumptionDigest =
     (let cd = candidateDigest sha
            \<lparr>fa_id = cd_ID cand, fa_operation = cd_Operation cand, fa_structure = cd_State cand,
             fa_compatibility = [], fa_disabled = False, fa_kind = [], fa_contractDigest = contractDigest,
             fa_dispatch = [], fa_effects = [], fa_effectsComplete = False, fa_receivers = [], fa_contexts = []\<rparr>
      in \<lparr>cp_ID = cd_ID cand, cp_ProofID = proofID sha cd [] [] contractDigest assumptionDigest,
          cp_Operation = cd_Operation cand, cp_Structure = structureLabel (cd_State cand), cp_Location = [],
          cp_CandidateDigest = cd, cp_Decision = DecisionUnknown, cp_ReasonCode = ''resource_limit'',
          cp_AllowedStrategies = [], cp_Obligations = [], cp_Assumptions = [], cp_Witnesses = [],
          cp_Limitations = [''candidate exceeded the configured proof budget and was not evaluated''],
          cp_Invalidation = \<lparr>iv_AnalysisDigest = contractDigest, iv_ContractDigest = contractDigest,
            iv_AssumptionDigest = assumptionDigest, iv_CandidateDigest = cd, iv_ProofSchema = SchemaVersion,
            iv_StrategyRegistry = StrategyRegistryVersion\<rparr>\<rparr>)"

definition bump :: "string \<Rightarrow> (string, nat) gomap \<Rightarrow> (string, nat) gomap" where
  "bump k m = AList.update k (case map_of m k of Some n \<Rightarrow> Suc n | None \<Rightarrow> 1) m"

definition lessDiag :: "Diag \<Rightarrow> Diag \<Rightarrow> bool" where
  "lessDiag a b =
     (if di_Location a \<noteq> di_Location b then di_Location a < di_Location b
      else if di_Code a \<noteq> di_Code b then di_Code a < di_Code b
      else di_Fingerprint a < di_Fingerprint b)"

definition sortDiags :: "Diag list \<Rightarrow> Diag list" where
  "sortDiags d = stableSort lessDiag d"

record proving =
  pv_report :: Report
  pv_assumptions :: assumptionSet
  pv_diags :: "Diag list"

definition recordProof :: "CandidateProof \<Rightarrow> Report \<Rightarrow> Report" where
  "recordProof cp r =
     r\<lparr>re_CandidateProofs := re_CandidateProofs r @ [cp],
       re_DecisionCounts := bump (decisionText (cp_Decision cp)) (re_DecisionCounts r)\<rparr>"

definition countStrategies :: "CandidateProof \<Rightarrow> Report \<Rightarrow> Report" where
  "countStrategies cp r =
     r\<lparr>re_StrategyCounts := fold (\<lambda>s m. if se_Status s = DecisionProvenEligible then bump (se_Strategy s) m else m)
         (cp_AllowedStrategies cp) (re_StrategyCounts r)\<rparr>"

text \<open>One turn of the loop of Prove, for the candidate at index \<open>i\<close>.\<close>

definition proveOne ::
  "(string \<Rightarrow> string) \<Rightarrow> Input \<Rightarrow> (string, Operation) gomap \<Rightarrow> (string, CallSite) gomap \<Rightarrow> (string, EffectSummary) gomap \<Rightarrow>
   Limits \<Rightarrow> nat \<Rightarrow> Candidate \<Rightarrow> proving \<Rightarrow> proving" where
  "proveOne sha inp opByID siteByID effByFn limits i cand p =
     (if int i \<ge> li_MaxCandidates limits then
        p\<lparr>pv_report := recordProof (limitedProof sha cand (in_ContractDigest inp)
            (assumptionSet_digest sha (pv_assumptions p))) (pv_report p)\<rparr>
      else
        (let op = (case map_of opByID (cd_Operation cand) of Some o1 \<Rightarrow> o1 | None \<Rightarrow> zeroOperation);
             cc = newCandidateContext cand op (in_Specs inp) siteByID effByFn (pv_assumptions p)
                    (in_ContractDigest inp) limits;
             (cp, cc) = prove sha cc
         in \<lparr>pv_report = countStrategies cp (recordProof cp (pv_report p)),
             pv_assumptions = cc_assumptions cc, pv_diags = pv_diags p @ proofDiagnostics sha cp\<rparr>))"

fun proveLoop ::
  "(nat \<Rightarrow> string option) \<Rightarrow> (nat \<Rightarrow> Candidate \<Rightarrow> proving \<Rightarrow> proving) \<Rightarrow> nat \<Rightarrow> Candidate list \<Rightarrow> proving \<Rightarrow> string + proving" where
  "proveLoop ctxErr step i [] p = Inr p"
| "proveLoop ctxErr step i (cand # cands) p =
     (case ctxErr i of
        Some err \<Rightarrow> Inl err
      | None \<Rightarrow> proveLoop ctxErr step (Suc i) cands (step i cand p))"

definition Prove :: "(string \<Rightarrow> string) \<Rightarrow> string \<Rightarrow> string \<Rightarrow> (nat \<Rightarrow> string option) \<Rightarrow> Input \<Rightarrow> string + Report" where
  "Prove sha goVersion now ctxErr inp =
     (case in_Snapshot inp of
        None \<Rightarrow> Inl ''proof: nil analysis snapshot''
      | Some snap \<Rightarrow>
          (let limits = Limits_withDefaults (in_Limits inp);
               siteByID = fold (\<lambda>s. AList.update (cs_ID s) s) (sn_CallSites snap) [];
               opByID = fold (\<lambda>o1. AList.update (ao_ID o1) o1) (sn_Operations snap) [];
               effByFn = fold (\<lambda>e. AList.update (ef_Function e) e) (sn_Effects snap) [];
               assumptions = newAssumptionSet (in_Assumptions inp);
               report = \<lparr>re_SchemaVersion = SchemaVersion, re_ToolVersion = in_ToolVersion inp,
                 re_GoVersion = goVersion, re_Timestamp = [], re_Workspace = sn_Workspace snap,
                 re_AnalysisSchema = sn_SchemaVersion snap, re_AnalysisDigest = sn_BuildDigest snap,
                 re_ContractDigest = in_ContractDigest inp,
                 re_AssumptionDigest = assumptionSet_digest sha assumptions,
                 re_DeclaredOperations = length (sn_Operations snap),
                 re_OperationCallSites = length (sn_CallSites snap), re_Candidates = length (sn_Candidates snap),
                 re_DecisionCounts = [], re_StrategyCounts = [], re_CandidateProofs = [], re_Assumptions = [],
                 re_Diagnostics = []\<rparr>
           in case proveLoop ctxErr (proveOne sha inp opByID siteByID effByFn limits) 0 (sn_Candidates snap)
                     \<lparr>pv_report = report, pv_assumptions = assumptions, pv_diags = []\<rparr> of
                Inl err \<Rightarrow> Inl err
              | Inr p \<Rightarrow>
                  (let report = (pv_report p)\<lparr>re_Assumptions := requestedRefs sha (pv_assumptions p),
                         re_Diagnostics := sortDiags (pv_diags p)\<rparr>
                   in Inr (if \<not> in_Reproducible inp then report\<lparr>re_Timestamp := now\<rparr> else report))))"

end
