(* ===== verification/Proof_Soundness.thy ===== *)
theory Proof_Soundness
  imports Proof_Engine
begin

text \<open>
  What a decision of the proof engine means. The obligations are evaluated in sequence over a
  context that only collects witnesses and requests, so the status of each depends on the facts
  of the candidate alone (\<open>obligationStatus\<close>). A strategy is proven eligible exactly when the facts
  satisfy its conditions, written out here without reference to obligations, and a candidate of a
  run is proven eligible exactly when one of its strategies is.
\<close>

section \<open>Evaluation keeps the facts\<close>

definition facts_of :: "candidateContext \<Rightarrow> candidateContext" where
  "facts_of cc = cc\<lparr>cc_witnesses := [], cc_assumptions := (cc_assumptions cc)\<lparr>aa_requested := [], aa_order := [], aa_unsafeWildcards := False\<rparr>\<rparr>"

definition same_facts :: "candidateContext \<Rightarrow> candidateContext \<Rightarrow> bool" where
  "same_facts cc cc' \<longleftrightarrow> facts_of cc' = facts_of cc"

definition evaluates :: "evaluator \<Rightarrow> string \<Rightarrow> (candidateContext \<Rightarrow> ObligationStatus) \<Rightarrow> bool" where
  "evaluates f i st \<longleftrightarrow>
     (\<forall>cc. or_ID (fst (f cc)) = i \<and> or_Status (fst (f cc)) = st cc \<and> same_facts cc (snd (f cc)) \<and>
       (\<forall>cc'. same_facts cc cc' \<longrightarrow> st cc' = st cc))"

lemma same_facts_refl [simp]: "same_facts cc cc"
  by (simp add: same_facts_def)

lemma same_facts_trans: "same_facts a b \<Longrightarrow> same_facts b c \<Longrightarrow> same_facts a c"
  by (simp add: same_facts_def)

lemma has_iff [simp]: "has s v \<longleftrightarrow> v \<in> set s"
  by (auto simp: has_def list_ex_iff)

lemma result_simps [simp]:
  "or_ID (result i s m e) = i" "or_Status (result i s m e) = s" "or_Assumptions (result i s m e) = []"
  by (simp_all add: result_def)

lemma witnessed_simps [simp]:
  "or_ID (fst (witnessed sha m ss r cc)) = or_ID r"
  "or_Status (fst (witnessed sha m ss r cc)) = or_Status r"
  by (simp_all add: witnessed_def split_beta)

lemma witnessed_facts [simp]: "same_facts cc0 (snd (witnessed sha m ss r cc)) = same_facts cc0 cc"
  by (simp add: witnessed_def addWitness_def Let_def same_facts_def facts_of_def)

lemma request_facts [simp]:
  "same_facts cc0 (cc\<lparr>cc_assumptions := snd (assumptionSet_request sha y f t (cc_assumptions cc))\<rparr>) =
     same_facts cc0 cc"
  by (simp add: assumptionSet_request_def Let_def same_facts_def facts_of_def split: option.split)

section \<open>The status of each obligation\<close>

definition accepted :: "candidateContext \<Rightarrow> bool" where
  "accepted cc \<longleftrightarrow> assumptionSet_has (cc_assumptions cc) (''key:'' @ cd_Operation (cc_cand cc)) FactSideEffectFreeRead"

definition one_receiver :: "candidateContext \<Rightarrow> bool" where
  "one_receiver cc \<longleftrightarrow> length (cc_receivers cc) \<le> 1 \<and> ''unknown'' \<notin> set (cc_receivers cc)"

definition freshness :: "candidateContext \<Rightarrow> bool" where
  "freshness cc \<longleftrightarrow> (case cc_spec cc of Some spec \<Rightarrow> sem_freshnessDependent (spec_semantics spec) | None \<Rightarrow> False)"

definition per_item_errors :: "candidateContext \<Rightarrow> bool" where
  "per_item_errors cc \<longleftrightarrow> (case cc_spec cc of Some spec \<Rightarrow> rc_errorMode (resultContract spec) = ErrorPerItem | None \<Rightarrow> False)"

definition parameter_context :: "candidateContext \<Rightarrow> bool" where
  "parameter_context cc \<longleftrightarrow> (case cc_contexts cc of [c] \<Rightarrow> HasPrefix c ''parameter '' | _ \<Rightarrow> False)"

definition isolated :: "candidateContext \<Rightarrow> bool" where
  "isolated cc \<longleftrightarrow> (case cc_spec cc of
       Some spec \<Rightarrow> \<forall>d\<in>set (pc_required (partitionContract spec)). d = ''receiver'' \<and> one_receiver cc
     | None \<Rightarrow> False)"

abbreviation orUnknown :: "bool \<Rightarrow> ObligationStatus" where
  "orUnknown b \<equiv> if b then ObligationSatisfied else ObligationUnknown"

definition obligationStatus :: "(string \<times> (candidateContext \<Rightarrow> ObligationStatus)) list" where
  "obligationStatus =
     [(OblSignatureCompatible, \<lambda>cc. if ao_Compatibility (cc_op cc) = ''valid'' then ObligationSatisfied
         else if ao_Compatibility (cc_op cc) = ''unresolved'' then ObligationUnknown else ObligationViolated),
      (OblOperationEnabled, \<lambda>cc. if ao_Disabled (cc_op cc) then ObligationDeferred else ObligationSatisfied),
      (OblResultContract, \<lambda>cc. orUnknown (cc_spec cc \<noteq> None)),
      (OblReadCategory, \<lambda>cc. if fst (operationEffect cc) = EffectRead then ObligationSatisfied
         else if fst (operationEffect cc) = EffectUnknown then ObligationUnknown else ObligationViolated),
      (OblFreshnessNeutral, \<lambda>cc. if freshness cc then ObligationUnknown
         else if fst (operationEffect cc) \<noteq> EffectRead then ObligationNotApplicable else ObligationSatisfied),
      (OblTargetResolved, \<lambda>cc. orUnknown (\<forall>s\<in>set (cc_sites cc). \<not> ambiguousSite s)),
      (OblNoObservableBarrier, \<lambda>cc. orUnknown (cc_effectsComplete cc \<and>
         set (cc_effects cc) \<inter> set staticBarrierEffects = {})),
      (OblEarlyExitReplayable, \<lambda>cc. orUnknown (per_item_errors cc)),
      (OblKeyIndependent, \<lambda>cc. if KeyResultDependent \<in> set (cc_keyDeps cc) then ObligationViolated
         else if KeyCallDerived \<in> set (cc_keyDeps cc) then
           (if accepted cc then ObligationSatisfied else ObligationNeedsAssumption)
         else orUnknown (KeyUnknown \<notin> set (cc_keyDeps cc) \<and> cc_keyDeps cc \<noteq> [])),
      (OblNoLoopCarried, \<lambda>cc. if cd_State (cc_cand cc) \<noteq> StatePotentialLoop then ObligationNotApplicable
         else if KeyResultDependent \<in> set (cc_keyDeps cc) then ObligationViolated
         else orUnknown (KeyCallDerived \<notin> set (cc_keyDeps cc) \<and> KeyUnknown \<notin> set (cc_keyDeps cc))),
      (OblReceiverInvariant, \<lambda>cc. orUnknown (one_receiver cc)),
      (OblContextInvariant, \<lambda>cc. orUnknown (parameter_context cc)),
      (OblPartitionStable, \<lambda>cc. orUnknown (isolated cc)),
      (OblDuplicateMapping, \<lambda>cc. orUnknown (cc_spec cc \<noteq> None)),
      (OblFirstErrorOrder, \<lambda>cc. orUnknown (per_item_errors cc)),
      (OblNoDeferBarrier, \<lambda>cc. orUnknown (''defer'' \<notin> set (cc_effects cc))),
      (OblNoRecoverBoundary, \<lambda>cc. orUnknown (''recover'' \<notin> set (cc_effects cc))),
      (OblNoNewConcurrency, \<lambda>cc. ObligationSatisfied),
      (OblFanoutEnvelope, \<lambda>cc. if cc_inGoroutine cc then ObligationSatisfied else ObligationNotApplicable)]"

lemmas fact_defs = freshness_def per_item_errors_def parameter_context_def isolated_def one_receiver_def
  accepted_def operationEffect_def assumptionSet_has_def

lemma partitionLoop_result:
  "or_ID (fst (partitionLoop sha spec ds cc)) = OblPartitionStable"
  "or_Status (fst (partitionLoop sha spec ds cc)) = orUnknown (\<forall>d\<in>set ds. d = ''receiver'' \<and> one_receiver cc)"
  "same_facts cc (snd (partitionLoop sha spec ds cc))"
  by (induction ds) (auto simp: one_receiver_def)

lemma barrierEffects_empty: "barrierEffects cc = [] \<longleftrightarrow> set (cc_effects cc) \<inter> set staticBarrierEffects = {}"
  by (metis (no_types, lifting) barrierEffects_def disjoint_iff filter_empty_conv length_0_conv length_sort)

lemma evaluatesI:
  assumes "\<And>cc. or_ID (fst (f cc)) = i" "\<And>cc. or_Status (fst (f cc)) = st cc" "\<And>cc. same_facts cc (snd (f cc))"
    "\<And>cc. st (facts_of cc) = st cc"
  shows "evaluates f i st"
  using assms by (auto simp: evaluates_def same_facts_def) metis

lemma facts_of_sel [simp]:
  "cc_cand (facts_of cc) = cc_cand cc" "cc_op (facts_of cc) = cc_op cc" "cc_spec (facts_of cc) = cc_spec cc"
  "cc_sites (facts_of cc) = cc_sites cc" "cc_effects (facts_of cc) = cc_effects cc"
  "cc_effectsComplete (facts_of cc) = cc_effectsComplete cc" "cc_receivers (facts_of cc) = cc_receivers cc"
  "cc_contexts (facts_of cc) = cc_contexts cc" "cc_keyDeps (facts_of cc) = cc_keyDeps cc"
  "cc_inGoroutine (facts_of cc) = cc_inGoroutine cc"
  "aa_bySymbol (cc_assumptions (facts_of cc)) = aa_bySymbol (cc_assumptions cc)"
  by (simp_all add: facts_of_def)

lemma fact_predicates [simp]:
  "freshness (facts_of cc) = freshness cc" "per_item_errors (facts_of cc) = per_item_errors cc"
  "parameter_context (facts_of cc) = parameter_context cc" "isolated (facts_of cc) = isolated cc"
  "one_receiver (facts_of cc) = one_receiver cc" "accepted (facts_of cc) = accepted cc"
  "operationEffect (facts_of cc) = operationEffect cc"
  by (simp_all add: fact_defs split: option.split)

lemma not_ambiguous: "list_ex ambiguousSite ss \<longleftrightarrow> \<not> (\<forall>s\<in>set ss. \<not> ambiguousSite s)"
  by (simp add: list_ex_iff)

lemmas declaration_evaluators = oblSignatureCompatible_def oblOperationEnabled_def oblResultContract_def
  oblReadCategory_def oblFreshnessNeutral_def oblTargetResolved_def

lemmas order_evaluators = oblNoObservableBarrier_def oblEarlyExitReplayable_def oblKeyIndependent_def oblNoLoopCarried_def

lemmas region_evaluators = oblReceiverInvariant_def oblContextInvariant_def oblPartitionStable_def
  oblDuplicateMapping_def oblFirstErrorOrder_def oblNoDeferBarrier_def oblNoRecoverBoundary_def
  oblNoNewConcurrency_def oblFanoutEnvelope_def

lemma evaluators_statuses:
  "list_all2 (\<lambda>f (i, st). evaluates f i st) (evaluators sha) obligationStatus"
  unfolding evaluators_def obligationStatus_def
  apply (intro list.rel_intros; unfold prod.case; rule evaluatesI)
  apply (simp_all add: declaration_evaluators order_evaluators region_evaluators Let_def split_beta)
  apply (auto simp: freshness_def per_item_errors_def parameter_context_def isolated_def one_receiver_def
      accepted_def barrierEffects_empty partitionLoop_result not_ambiguous list_ex_iff Let_def split: option.splits list.splits)
  done

lemma addResult_status: "statusOf (addResult r out) i = (if i = or_ID r then or_Status r else statusOf out i)"
  by (auto simp: addResult_def Let_def statusOf_def split: option.split)

lemma evaluateAll_status:
  assumes "list_all2 (\<lambda>f (i, st). evaluates f i st) fs table" "distinct (map fst table)"
  shows "statusOf (fst (evaluateAll fs out cc)) i =
      (case map_of table i of Some st \<Rightarrow> st cc | None \<Rightarrow> statusOf out i) \<and>
    same_facts cc (snd (evaluateAll fs out cc))"
  using assms
proof (induction fs table arbitrary: out cc rule: list_all2_induct)
  case (Cons f fs e table)
  obtain j st where e: "e = (j, st)" by (cases e)
  then have f: "or_ID (fst (f cc)) = j" "or_Status (fst (f cc)) = st cc" "same_facts cc (snd (f cc))"
    using Cons.hyps(1) by (auto simp: evaluates_def)
  have later: "st' (snd (f cc)) = st' cc" if "map_of table i = Some st'" for st'
  proof -
    from map_of_SomeD [OF that] have "(i, st') \<in> set table" .
    then obtain g where "evaluates g i st'"
      using Cons.hyps(2) by (metis (no_types, lifting) case_prodD in_set_conv_nth list_all2_conv_all_nth)
    with f(3) show ?thesis by (auto simp: evaluates_def)
  qed
  have dist: "distinct (map fst table)" "map_of table j = None"
    using Cons.prems e by (auto simp: map_of_eq_None_iff)
  note ih = Cons.IH [OF dist(1), of "addResult (fst (f cc)) out" "snd (f cc)"]
  show ?case
    using ih later e f dist(2) same_facts_trans [OF f(3)]
    by (auto simp: split_beta addResult_status split: option.splits)
qed simp

lemma obligationStatus_ids: "map fst obligationStatus = map ob_ID obligationRegistry"
  by (simp add: obligationStatus_def obligationRegistry_def obligationSpec_def)

lemma evaluated_status:
  "(i, st) \<in> set obligationStatus \<Longrightarrow> statusOf (fst (evaluateObligations sha cc)) i = st cc"
  using evaluateAll_status [OF evaluators_statuses, of sha "[]" cc i] obligations_distinct
  by (simp add: evaluateObligations_def obligationStatus_ids map_of_is_SomeI)

lemma evaluated_facts: "same_facts cc (snd (evaluateObligations sha cc))"
  using evaluateAll_status [OF evaluators_statuses, of sha "[]" cc] obligations_distinct
  by (simp add: evaluateObligations_def obligationStatus_ids)

lemma all_statuses:
  "list_all (\<lambda>(i, st). statusOf (fst (evaluateObligations sha cc)) i = st cc) obligationStatus"
  by (auto simp: list_all_iff evaluated_status)

lemmas status_of = all_statuses [unfolded obligationStatus_def list.pred_inject prod.case]

section \<open>What a strategy requires\<close>

definition reads_resolved :: "candidateContext \<Rightarrow> bool" where
  "reads_resolved cc \<longleftrightarrow>
     ao_Compatibility (cc_op cc) = ''valid'' \<and> \<not> ao_Disabled (cc_op cc) \<and> cc_spec cc \<noteq> None \<and>
     fst (operationEffect cc) = EffectRead \<and> (\<forall>s\<in>set (cc_sites cc). \<not> ambiguousSite s) \<and> isolated cc"

definition keys_known :: "candidateContext \<Rightarrow> bool" where
  "keys_known cc \<longleftrightarrow> KeyResultDependent \<notin> set (cc_keyDeps cc) \<and>
     (if KeyCallDerived \<in> set (cc_keyDeps cc) then accepted cc
      else KeyUnknown \<notin> set (cc_keyDeps cc) \<and> cc_keyDeps cc \<noteq> [])"

definition movable :: "candidateContext \<Rightarrow> bool" where
  "movable cc \<longleftrightarrow>
     reads_resolved cc \<and> \<not> freshness cc \<and> cc_effectsComplete cc \<and>
     set (cc_effects cc) \<inter> set (''defer'' # ''recover'' # staticBarrierEffects) = {} \<and>
     keys_known cc \<and> one_receiver cc \<and> parameter_context cc \<and> per_item_errors cc"

definition plain_loop_keys :: "candidateContext \<Rightarrow> bool" where
  "plain_loop_keys cc \<longleftrightarrow> cd_State (cc_cand cc) = StatePotentialLoop \<longrightarrow>
     set (cc_keyDeps cc) \<inter> {KeyResultDependent, KeyCallDerived, KeyUnknown} = {}"

definition strategy_holds :: "string \<Rightarrow> candidateContext \<Rightarrow> bool" where
  "strategy_holds sid cc \<longleftrightarrow>
     (if sid = StrategyStaticLoopPrefetch \<or> sid = StrategyStaticOrderedPrefetch then movable cc \<and> plain_loop_keys cc
      else if sid = StrategyStaticSiblingFusion then movable cc
      else reads_resolved cc)"

lemma harmless_orUnknown: "harmless (orUnknown b) = b"
  by simp

lemma required_ids:
  "requiredOf StrategyStaticLoopPrefetch = staticCore @ [OblNoLoopCarried, OblEarlyExitReplayable, OblFirstErrorOrder]"
  "requiredOf StrategyStaticOrderedPrefetch = staticCore @ [OblNoLoopCarried, OblEarlyExitReplayable, OblFirstErrorOrder]"
  "requiredOf StrategyStaticSiblingFusion = staticCore @ [OblEarlyExitReplayable, OblFirstErrorOrder]"
  "requiredOf StrategyExistingFanoutCoalescing = [OblSignatureCompatible, OblOperationEnabled, OblResultContract,
     OblReadCategory, OblTargetResolved, OblPartitionStable, OblDuplicateMapping, OblFanoutEnvelope]"
  "requiredOf StrategyRuntimeScopeCoalescing = [OblSignatureCompatible, OblOperationEnabled, OblResultContract,
     OblReadCategory, OblTargetResolved, OblPartitionStable, OblDuplicateMapping]"
  using Strategy_registered [of "strategyRegistry ! 0"] Strategy_registered [of "strategyRegistry ! 1"]
    Strategy_registered [of "strategyRegistry ! 2"] Strategy_registered [of "strategyRegistry ! 3"]
    Strategy_registered [of "strategyRegistry ! 4"]
  by (simp_all add: requiredOf_def strategyRegistry_def numeral_2_eq_2 numeral_3_eq_3 numeral_eq_Suc)

lemma eligible_iff_required:
  "se_Status (eligibilityOf rs sid) = DecisionProvenEligible \<longleftrightarrow> list_all (\<lambda>i. harmless (statusOf rs i)) (requiredOf sid)"
  using strategyStatus_eligible [of "requiredOf sid" rs]
  by (simp add: eligibilityOf_def split_beta list_all_iff)

lemma static_core_holds:
  "list_all (\<lambda>i. harmless (statusOf (fst (evaluateObligations sha cc)) i)) staticCore \<and>
   harmless (statusOf (fst (evaluateObligations sha cc)) OblFirstErrorOrder) \<longleftrightarrow> movable cc"
  by (simp only: staticCore_def list.pred_inject status_of harmless_orUnknown)
    (auto simp: movable_def reads_resolved_def keys_known_def)

lemma strategy_eligible_iff:
  assumes "sid \<in> st_ID ` set strategyRegistry"
  shows "se_Status (eligibilityOf (fst (evaluateObligations sha cc)) sid) = DecisionProvenEligible \<longleftrightarrow>
    strategy_holds sid cc"
proof -
  have loop: "harmless (statusOf (fst (evaluateObligations sha cc)) OblNoLoopCarried) \<longleftrightarrow> plain_loop_keys cc"
    by (simp only: status_of) (auto simp: plain_loop_keys_def)
  have exit: "statusOf (fst (evaluateObligations sha cc)) OblEarlyExitReplayable =
      statusOf (fst (evaluateObligations sha cc)) OblFirstErrorOrder"
    by (simp only: status_of)
  consider "sid = StrategyStaticLoopPrefetch \<or> sid = StrategyStaticOrderedPrefetch" | "sid = StrategyStaticSiblingFusion"
    | "sid = StrategyExistingFanoutCoalescing" | "sid = StrategyRuntimeScopeCoalescing"
    using assms by (auto simp: strategyRegistry_def)
  then show ?thesis
  proof cases
    case 1
    then show ?thesis
      using static_core_holds [of sha cc] loop exit
      by (auto simp: eligible_iff_required required_ids strategy_holds_def)
  next
    case 2
    then show ?thesis
      using static_core_holds [of sha cc] exit
      by (auto simp: eligible_iff_required required_ids strategy_holds_def)
  next
    case 3
    then show ?thesis
      by (simp only: eligible_iff_required required_ids list.pred_inject status_of harmless_orUnknown)
        (auto simp: strategy_holds_def reads_resolved_def)
  next
    case 4
    then show ?thesis
      by (simp only: eligible_iff_required required_ids list.pred_inject status_of harmless_orUnknown)
        (auto simp: strategy_holds_def reads_resolved_def)
  qed
qed

section \<open>Decisions of a candidate\<close>

interpretation by_strategy: weak_order
  "\<lambda>a b. strategyRank (se_Strategy a) < strategyRank (se_Strategy b)" "\<lambda>s. strategyRank (se_Strategy s)"
  by unfold_locales simp

lemma sorted_strategies [simp]:
  "set (stableSort (\<lambda>a b. strategyRank (se_Strategy a) < strategyRank (se_Strategy b)) ss) = set ss"
  by (metis by_strategy.sort_mset set_mset_mset)

lemma applicable_registered:
  "sid \<in> set (applicableStrategies cc) \<Longrightarrow> sid \<in> st_ID ` set strategyRegistry"
  "StrategyRuntimeScopeCoalescing \<in> set (applicableStrategies cc)"
  by (auto simp: applicableStrategies_def Let_def strategyRegistry_def split: if_splits)

lemma applicable_facts: "same_facts cc cc' \<Longrightarrow> applicableStrategies cc' = applicableStrategies cc"
  by (metis applicableStrategies_def facts_of_sel(1) same_facts_def)

lemma aggregate_eligible:
  "aggregateDecision ss = DecisionProvenEligible \<longleftrightarrow> (\<exists>s\<in>set ss. se_Status s = DecisionProvenEligible)"
  by (auto simp: aggregateDecision_def Let_def list_ex_iff)

lemma aggregate_ineligible:
  assumes "ss \<noteq> []" "\<forall>s\<in>set ss. se_Status s \<noteq> DecisionDeferred"
  shows "aggregateDecision ss = DecisionProvenIneligible \<longleftrightarrow> (\<forall>s\<in>set ss. se_Status s = DecisionProvenIneligible)"
proof -
  have "se_Status s = DecisionProvenIneligible \<or> se_Status s = DecisionProvenEligible \<or>
      se_Status s = DecisionRequiresAssumption \<or> se_Status s = DecisionUnknown" if "s \<in> set ss" for s
    using assms(2) that by (cases "se_Status s") auto
  moreover have "aggregateDecision ss = DecisionProvenIneligible \<longleftrightarrow>
      (\<forall>s\<in>set ss. se_Status s \<notin> {DecisionProvenEligible, DecisionRequiresAssumption, DecisionUnknown})"
    using assms by (auto simp: aggregateDecision_def Let_def list_ex_iff)
  ultimately show ?thesis by fastforce
qed

definition evaluated :: "candidateContext \<Rightarrow> bool" where
  "evaluated cc \<longleftrightarrow> ao_Compatibility (cc_op cc) \<noteq> ''invalid'' \<and> \<not> ao_Disabled (cc_op cc)"

definition eligibilities :: "(string \<Rightarrow> string) \<Rightarrow> candidateContext \<Rightarrow> StrategyEligibility list" where
  "eligibilities sha cc =
     stableSort (\<lambda>a b. strategyRank (se_Strategy a) < strategyRank (se_Strategy b))
       (map (eligibilityOf (fst (evaluateObligations sha cc))) (applicableStrategies cc))"

lemma evaluated_keeps [simp]:
  "cc_cand (snd (evaluateObligations sha cc)) = cc_cand cc"
  "aa_bySymbol (cc_assumptions (snd (evaluateObligations sha cc))) = aa_bySymbol (cc_assumptions cc)"
  by (metis evaluated_facts facts_of_sel(1) same_facts_def, metis evaluated_facts facts_of_sel(11) same_facts_def)

lemma prove_decision:
  "cp_Decision (fst (prove sha cc)) =
     (if ao_Compatibility (cc_op cc) = ''invalid'' then DecisionProvenIneligible
      else if ao_Disabled (cc_op cc) then DecisionDeferred
      else aggregateDecision (eligibilities sha cc))"
  "cp_AllowedStrategies (fst (prove sha cc)) = (if evaluated cc then eligibilities sha cc else [])"
  "cp_ID (fst (prove sha cc)) = cd_ID (cc_cand cc)"
  using applicable_facts [OF evaluated_facts, of sha cc]
  by (simp_all add: prove_def Let_def split_beta terminal_def evaluated_def eligibilities_def)

lemma eligibilities_set:
  "set (eligibilities sha cc) = eligibilityOf (fst (evaluateObligations sha cc)) ` set (applicableStrategies cc)"
  by (simp add: eligibilities_def)

lemma strategy_name [simp]: "se_Strategy (eligibilityOf rs sid) = sid"
  by (simp add: eligibilityOf_def split_beta)

lemma holds_evaluated: "strategy_holds sid cc \<Longrightarrow> evaluated cc"
  by (auto simp: strategy_holds_def movable_def reads_resolved_def evaluated_def split: if_splits)

lemma strategy_allowed_iff:
  "(\<exists>s\<in>set (cp_AllowedStrategies (fst (prove sha cc))). se_Strategy s = sid \<and> se_Status s = DecisionProvenEligible) \<longleftrightarrow>
     sid \<in> set (applicableStrategies cc) \<and> strategy_holds sid cc"
  using strategy_eligible_iff [OF applicable_registered(1)] holds_evaluated
  by (auto simp: prove_decision eligibilities_set)

lemma prove_eligible_iff:
  "cp_Decision (fst (prove sha cc)) = DecisionProvenEligible \<longleftrightarrow>
     (\<exists>sid\<in>set (applicableStrategies cc). strategy_holds sid cc)"
proof -
  have "(\<exists>s\<in>set (eligibilities sha cc). se_Status s = DecisionProvenEligible) \<longleftrightarrow>
      (\<exists>sid\<in>set (applicableStrategies cc). strategy_holds sid cc)"
    using strategy_eligible_iff [OF applicable_registered(1)] by (simp add: eligibilities_set)
  then show ?thesis
    using holds_evaluated by (auto simp: prove_decision aggregate_eligible evaluated_def)
qed

text \<open>Every strategy requires compatible signatures and a reading operation.\<close>

lemma required_everywhere:
  assumes "sid \<in> st_ID ` set strategyRegistry"
  shows "OblSignatureCompatible \<in> set (requiredOf sid)" "OblReadCategory \<in> set (requiredOf sid)"
    "OblOperationEnabled \<in> set (requiredOf sid)"
  using assms by (auto simp: strategyRegistry_def required_ids staticCore_def)

lemma never_deferred:
  assumes "\<not> ao_Disabled (cc_op cc)" "sid \<in> st_ID ` set strategyRegistry"
  shows "se_Status (eligibilityOf (fst (evaluateObligations sha cc)) sid) \<noteq> DecisionDeferred"
proof
  let ?rs = "fst (evaluateObligations sha cc)"
  assume "se_Status (eligibilityOf ?rs sid) = DecisionDeferred"
  then have "fst (strategyStatus (requiredOf sid) ?rs) = DecisionDeferred" by (simp add: eligibilityOf_def split_beta)
  then obtain i where i: "i \<in> set (requiredOf sid)" "statusOf ?rs i = ObligationDeferred"
    by (cases rule: strategyStatus_cases [of "requiredOf sid" ?rs]) auto
  have "i \<in> set (map fst obligationStatus)"
    using i(1) assms(2) by (auto simp: strategyRegistry_def required_ids staticCore_def obligationStatus_def)
  then obtain st where st: "(i, st) \<in> set obligationStatus" by auto
  with i(2) have "st cc = ObligationDeferred" by (simp add: evaluated_status)
  with st assms(1) show False by (auto simp: obligationStatus_def split: if_splits)
qed

end
