(* ===== verification/Proof_Report.thy ===== *)
theory Proof_Report
  imports Proof_Soundness
begin

text \<open>
  From the snapshot to the report: the facts of a candidate context are those of its call sites
  and of the effect summaries of their enclosing functions, the run proves every candidate in
  order, and the decisions of the report are exact. The last section shows what the conditions
  do not ask for: a candidate none of whose call sites is in the snapshot is proven eligible.
\<close>

section \<open>Ineligible candidates\<close>

lemma only_two_violated:
  assumes "i \<in> set (requiredOf StrategyRuntimeScopeCoalescing)"
    "statusOf (fst (evaluateObligations sha cc)) i = ObligationViolated"
  shows "i = OblSignatureCompatible \<or> i = OblReadCategory"
  using assms by (auto simp: required_ids status_of split: if_splits)

lemma violated_iff:
  "statusOf (fst (evaluateObligations sha cc)) OblSignatureCompatible = ObligationViolated \<longleftrightarrow>
     ao_Compatibility (cc_op cc) \<noteq> ''valid'' \<and> ao_Compatibility (cc_op cc) \<noteq> ''unresolved''"
  "statusOf (fst (evaluateObligations sha cc)) OblReadCategory = ObligationViolated \<longleftrightarrow>
     fst (operationEffect cc) \<noteq> EffectRead \<and> fst (operationEffect cc) \<noteq> EffectUnknown"
  by (simp_all add: status_of)

lemma ineligible_iff:
  "se_Status (eligibilityOf rs sid) = DecisionProvenIneligible \<longleftrightarrow>
     (\<exists>i\<in>set (requiredOf sid). statusOf rs i = ObligationViolated)"
  using strategyStatus_ineligible [of "requiredOf sid" rs] by (simp add: eligibilityOf_def split_beta)

definition conflicting :: "candidateContext \<Rightarrow> bool" where
  "conflicting cc \<longleftrightarrow>
     (ao_Compatibility (cc_op cc) \<noteq> ''valid'' \<and> ao_Compatibility (cc_op cc) \<noteq> ''unresolved'') \<or>
     (fst (operationEffect cc) \<noteq> EffectRead \<and> fst (operationEffect cc) \<noteq> EffectUnknown)"

lemma strategies_ineligible_iff:
  "(\<forall>s\<in>set (eligibilities sha cc). se_Status s = DecisionProvenIneligible) \<longleftrightarrow> conflicting cc"
proof
  assume "\<forall>s\<in>set (eligibilities sha cc). se_Status s = DecisionProvenIneligible"
  then obtain i where i: "i \<in> set (requiredOf StrategyRuntimeScopeCoalescing)"
      "statusOf (fst (evaluateObligations sha cc)) i = ObligationViolated"
    using applicable_registered(2) by (auto simp: eligibilities_set ineligible_iff)
  from only_two_violated [OF i] i(2) show "conflicting cc"
    using violated_iff [of sha cc] unfolding conflicting_def by (elim disjE; simp)
next
  assume "conflicting cc"
  then have bad: "statusOf (fst (evaluateObligations sha cc)) OblSignatureCompatible = ObligationViolated \<or>
      statusOf (fst (evaluateObligations sha cc)) OblReadCategory = ObligationViolated"
    by (simp only: conflicting_def violated_iff)
  then show "\<forall>s\<in>set (eligibilities sha cc). se_Status s = DecisionProvenIneligible"
    unfolding eligibilities_set ball_simps ineligible_iff
    using required_everywhere [OF applicable_registered(1)] by blast
qed

lemma prove_ineligible_iff:
  "cp_Decision (fst (prove sha cc)) = DecisionProvenIneligible \<longleftrightarrow>
     ao_Compatibility (cc_op cc) = ''invalid'' \<or> (\<not> ao_Disabled (cc_op cc) \<and> conflicting cc)"
proof (cases "evaluated cc")
  case True
  then have "\<forall>s\<in>set (eligibilities sha cc). se_Status s \<noteq> DecisionDeferred"
    using never_deferred applicable_registered(1) by (auto simp: eligibilities_set evaluated_def)
  moreover have "eligibilities sha cc \<noteq> []"
    using applicable_registered(2) eligibilities_set [of sha cc] by (metis empty_iff image_is_empty list.set(1))
  ultimately show ?thesis
    using True aggregate_ineligible strategies_ineligible_iff by (simp add: prove_decision evaluated_def)
qed (auto simp: prove_decision evaluated_def)

section \<open>The facts of a candidate\<close>

definition summaries :: "(string, EffectSummary) gomap \<Rightarrow> CallSite list \<Rightarrow> EffectSummary option set" where
  "summaries effByFn ss = map_of effByFn ` (cs_EnclosingFunctionID ` set ss - {[]})"

lemma addKey_set [simp]: "set (addKey k m) = insert k (set m)"
  by (auto simp: addKey_def)

lemma addKey_distinct [simp]: "distinct (addKey k m) = distinct m"
  by (simp add: addKey_def)

lemma fold_addKey [simp]: "set (fold addKey ks m) = set ks \<union> set m"
  by (induction ks arbitrary: m) auto

lemma gather_fold:
  "gather siteByID effByFn ids g = fold (gatherSite effByFn) (List.map_filter (map_of siteByID) ids) g"
  by (induction ids arbitrary: g) (simp_all add: map_filter_simps split: option.split)

lemma gatherSite_sets:
  "ga_recvSet (gatherSite eff s g) = (if cs_Receiver s \<noteq> [] then addKey (cs_Receiver s) (ga_recvSet g) else ga_recvSet g)"
  "ga_ctxSet (gatherSite eff s g) = (if cs_ContextArg s \<noteq> [] then addKey (cs_ContextArg s) (ga_ctxSet g) else ga_ctxSet g)"
  "ga_keySet (gatherSite eff s g) =
     (if cs_KeyDependency s \<noteq> [] then addKey (cs_KeyDependency s) (ga_keySet g) else ga_keySet g)"
  "cc_sites (ga_cc (gatherSite eff s g)) = cc_sites (ga_cc g) @ [s]"
  "cc_inGoroutine (ga_cc (gatherSite eff s g)) \<longleftrightarrow> cc_inGoroutine (ga_cc g) \<or> cs_InGoroutine s"
  by (simp_all add: gatherSite_def foldEffects_def Let_def split: option.split)

lemma gatherSite_keeps [simp]:
  "cc_cand (ga_cc (gatherSite eff s g)) = cc_cand (ga_cc g)" "cc_op (ga_cc (gatherSite eff s g)) = cc_op (ga_cc g)"
  "cc_spec (ga_cc (gatherSite eff s g)) = cc_spec (ga_cc g)"
  "cc_assumptions (ga_cc (gatherSite eff s g)) = cc_assumptions (ga_cc g)"
  by (simp_all add: gatherSite_def foldEffects_def Let_def split: option.split)

lemma gatherSite_effects:
  "set (ga_seenFn (gatherSite eff s g)) = set (ga_seenFn g) \<union> ({cs_EnclosingFunctionID s} - {[]})"
  "set (cc_effects (ga_cc (gatherSite eff s g))) = set (cc_effects (ga_cc g)) \<union>
     (if cs_EnclosingFunctionID s \<in> insert [] (set (ga_seenFn g)) then {}
      else case map_of eff (cs_EnclosingFunctionID s) of Some e \<Rightarrow> set (ef_Effects e) | None \<Rightarrow> {})"
  "cc_effectsComplete (ga_cc (gatherSite eff s g)) \<longleftrightarrow> cc_effectsComplete (ga_cc g) \<and>
     (cs_EnclosingFunctionID s \<in> insert [] (set (ga_seenFn g)) \<or>
      (\<exists>e. map_of eff (cs_EnclosingFunctionID s) = Some e \<and> ef_Complete e))"
  by (auto simp: gatherSite_def foldEffects_def Let_def split: option.split)

lemma fold_gather_keeps [simp]:
  "cc_cand (ga_cc (fold (gatherSite eff) ss g)) = cc_cand (ga_cc g)"
  "cc_op (ga_cc (fold (gatherSite eff) ss g)) = cc_op (ga_cc g)"
  "cc_spec (ga_cc (fold (gatherSite eff) ss g)) = cc_spec (ga_cc g)"
  "cc_assumptions (ga_cc (fold (gatherSite eff) ss g)) = cc_assumptions (ga_cc g)"
  by (induction ss arbitrary: g) simp_all

lemma fold_gather_sets:
  "set (ga_recvSet (fold (gatherSite eff) ss g)) = set (ga_recvSet g) \<union> (cs_Receiver ` set ss - {[]})"
  "set (ga_ctxSet (fold (gatherSite eff) ss g)) = set (ga_ctxSet g) \<union> (cs_ContextArg ` set ss - {[]})"
  "set (ga_keySet (fold (gatherSite eff) ss g)) = set (ga_keySet g) \<union> (cs_KeyDependency ` set ss - {[]})"
  "cc_sites (ga_cc (fold (gatherSite eff) ss g)) = cc_sites (ga_cc g) @ ss"
  "distinct (ga_recvSet (fold (gatherSite eff) ss g)) = distinct (ga_recvSet g)"
  "distinct (ga_ctxSet (fold (gatherSite eff) ss g)) = distinct (ga_ctxSet g)"
  by (induction ss arbitrary: g) (auto simp: gatherSite_sets)

lemma fold_gather_effects:
  assumes "ga_seenFn g = []" "cc_effects (ga_cc g) = []" "cc_effectsComplete (ga_cc g)"
  shows "set (ga_seenFn (fold (gatherSite eff) ss g)) = cs_EnclosingFunctionID ` set ss - {[]} \<and>
    set (cc_effects (ga_cc (fold (gatherSite eff) ss g))) = (\<Union>e \<in> {e. Some e \<in> summaries eff ss}. set (ef_Effects e)) \<and>
    (cc_effectsComplete (ga_cc (fold (gatherSite eff) ss g)) \<longleftrightarrow>
       None \<notin> summaries eff ss \<and> (\<forall>e. Some e \<in> summaries eff ss \<longrightarrow> ef_Complete e))"
proof (induction ss rule: rev_induct)
  case Nil
  then show ?case using assms by (simp add: summaries_def)
next
  case (snoc s ss)
  let ?f = "cs_EnclosingFunctionID s" and ?g = "fold (gatherSite eff) ss g"
  from snoc have seen: "set (ga_seenFn ?g) = cs_EnclosingFunctionID ` set ss - {[]}"
    and eff: "set (cc_effects (ga_cc ?g)) = (\<Union>e \<in> {e. Some e \<in> summaries eff ss}. set (ef_Effects e))"
    and complete: "cc_effectsComplete (ga_cc ?g) \<longleftrightarrow>
      None \<notin> summaries eff ss \<and> (\<forall>e. Some e \<in> summaries eff ss \<longrightarrow> ef_Complete e)"
    by simp_all
  have fns: "set (ga_seenFn (gatherSite eff s ?g)) = cs_EnclosingFunctionID ` set (ss @ [s]) - {[]}"
    by (auto simp: gatherSite_effects(1) seen)
  show ?case
  proof (cases "?f \<in> insert [] (set (ga_seenFn ?g))")
    case True
    then have "summaries eff (ss @ [s]) = summaries eff ss" by (auto simp: summaries_def seen)
    with True fns show ?thesis by (simp add: gatherSite_effects(2,3) eff complete)
  next
    case False
    then have new: "summaries eff (ss @ [s]) = insert (map_of eff ?f) (summaries eff ss)"
      by (auto simp: summaries_def seen)
    from False fns show ?thesis
    proof (cases "map_of eff ?f")
      case None
      with False fns new show ?thesis by (simp add: gatherSite_effects(2,3) eff complete)
    next
      case (Some e)
      then have "{x. Some x \<in> summaries eff (ss @ [s])} = insert e {x. Some x \<in> summaries eff ss}"
        by (auto simp: new)
      with Some False fns new show ?thesis by (auto simp: gatherSite_effects(2,3) eff complete)
    qed
  qed
qed

text \<open>The call sites of a candidate that the snapshot has.\<close>

definition sitesOf :: "(string, CallSite) gomap \<Rightarrow> Candidate \<Rightarrow> CallSite list" where
  "sitesOf siteByID cand = List.map_filter (map_of siteByID) (cd_CallSites cand)"

lemma context_facts:
  fixes cand op specs siteByID eff assumptions dg limits
  defines "cc \<equiv> newCandidateContext cand op specs siteByID eff assumptions dg limits"
  shows "cc_cand cc = cand" "cc_op cc = op" "cc_spec cc = map_of specs (cd_Operation cand)"
    "cc_assumptions cc = assumptions" "cc_sites cc = sitesOf siteByID cand"
    "set (cc_receivers cc) = cs_Receiver ` set (sitesOf siteByID cand) - {[]}" "distinct (cc_receivers cc)"
    "set (cc_contexts cc) = cs_ContextArg ` set (sitesOf siteByID cand) - {[]}" "distinct (cc_contexts cc)"
    "set (cc_keyDeps cc) = cs_KeyDependency ` set (sitesOf siteByID cand) - {[]}"
    "set (cc_effects cc) = (\<Union>e \<in> {e. Some e \<in> summaries eff (sitesOf siteByID cand)}. set (ef_Effects e))"
    "cc_effectsComplete cc \<longleftrightarrow> None \<notin> summaries eff (sitesOf siteByID cand) \<and>
       (\<forall>e. Some e \<in> summaries eff (sitesOf siteByID cand) \<longrightarrow> ef_Complete e)"
  unfolding cc_def newCandidateContext_def Let_def gather_fold sitesOf_def keys_def
  by (simp_all add: fold_gather_sets fold_gather_effects)

section \<open>The run\<close>

definition snapSites :: "Snapshot \<Rightarrow> (string, CallSite) gomap" where
  "snapSites snap = fold (\<lambda>s. AList.update (cs_ID s) s) (sn_CallSites snap) []"

definition snapOps :: "Snapshot \<Rightarrow> (string, Operation) gomap" where
  "snapOps snap = fold (\<lambda>o1. AList.update (ao_ID o1) o1) (sn_Operations snap) []"

definition snapEffects :: "Snapshot \<Rightarrow> (string, EffectSummary) gomap" where
  "snapEffects snap = fold (\<lambda>e. AList.update (ef_Function e) e) (sn_Effects snap) []"

text \<open>The context in which a run proves a candidate, before any assumption is requested.\<close>

definition contextOf :: "Input \<Rightarrow> Snapshot \<Rightarrow> Candidate \<Rightarrow> candidateContext" where
  "contextOf inp snap cand =
     newCandidateContext cand (case map_of (snapOps snap) (cd_Operation cand) of Some o1 \<Rightarrow> o1 | None \<Rightarrow> zeroOperation)
       (in_Specs inp) (snapSites snap) (snapEffects snap) (newAssumptionSet (in_Assumptions inp))
       (in_ContractDigest inp) (Limits_withDefaults (in_Limits inp))"

definition budget :: "Input \<Rightarrow> nat" where
  "budget inp = nat (li_MaxCandidates (Limits_withDefaults (in_Limits inp)))"

lemma budget_pos: "0 < budget inp"
  by (simp add: budget_def Limits_withDefaults_def DefaultMaxCandidates_def Let_def)

lemma prove_keeps [simp]: "aa_bySymbol (cc_assumptions (snd (prove sha cc))) = aa_bySymbol (cc_assumptions cc)"
  by (simp add: prove_def Let_def split_beta)

text \<open>The decisions of a candidate depend on the assumptions only through the supplied ones.\<close>

lemma decision_facts:
  assumes "same_facts cc cc'"
  shows "strategy_holds sid cc' = strategy_holds sid cc" "conflicting cc' = conflicting cc"
    "applicableStrategies cc' = applicableStrategies cc" "cc_op cc' = cc_op cc"
proof -
  have h: "strategy_holds sid (facts_of x) = strategy_holds sid x" for x
    by (simp add: strategy_holds_def movable_def reads_resolved_def keys_known_def plain_loop_keys_def)
  have c: "conflicting (facts_of x) = conflicting x" for x by (simp add: conflicting_def)
  show "strategy_holds sid cc' = strategy_holds sid cc" by (metis h assms same_facts_def)
  show "conflicting cc' = conflicting cc" by (metis c assms same_facts_def)
  show "applicableStrategies cc' = applicableStrategies cc" by (rule applicable_facts [OF assms])
  show "cc_op cc' = cc_op cc" by (metis facts_of_sel(2) assms same_facts_def)
qed

lemma gatherSite_assumptions:
  "gatherSite eff s (g\<lparr>ga_cc := (ga_cc g)\<lparr>cc_assumptions := a\<rparr>\<rparr>) =
     (gatherSite eff s g)\<lparr>ga_cc := (ga_cc (gatherSite eff s g))\<lparr>cc_assumptions := a\<rparr>\<rparr>"
  by (simp add: gatherSite_def foldEffects_def Let_def split: option.split)

lemma fold_gather_assumptions:
  "fold (gatherSite eff) ss (g\<lparr>ga_cc := (ga_cc g)\<lparr>cc_assumptions := a\<rparr>\<rparr>) =
     (fold (gatherSite eff) ss g)\<lparr>ga_cc := (ga_cc (fold (gatherSite eff) ss g))\<lparr>cc_assumptions := a\<rparr>\<rparr>"
  by (induction ss arbitrary: g) (simp_all add: gatherSite_assumptions)

lemma context_assumptions:
  "newCandidateContext cand op specs sites eff a' dg limits =
     (newCandidateContext cand op specs sites eff a dg limits)\<lparr>cc_assumptions := a'\<rparr>"
proof -
  let ?cc = "\<lambda>a. \<lparr>cc_cand = cand, cc_op = op, cc_spec = map_of specs (cd_Operation cand), cc_sites = [],
    cc_contractDigest = dg, cc_assumptions = a, cc_limits = limits, cc_effects = [], cc_effectsComplete = True,
    cc_dispatch = [], cc_receivers = [], cc_contexts = [], cc_keyDeps = [], cc_inGoroutine = False,
    cc_location = [], cc_witnesses = []\<rparr>"
  let ?g = "\<lambda>a. \<lparr>ga_cc = ?cc a, ga_recvSet = [], ga_ctxSet = [], ga_dispSet = [], ga_keySet = [], ga_seenFn = []\<rparr>"
  have "?g a' = (?g a)\<lparr>ga_cc := (ga_cc (?g a))\<lparr>cc_assumptions := a'\<rparr>\<rparr>" by simp
  then have "fold (gatherSite eff) ss (?g a') =
      (fold (gatherSite eff) ss (?g a))\<lparr>ga_cc := (ga_cc (fold (gatherSite eff) ss (?g a)))\<lparr>cc_assumptions := a'\<rparr>\<rparr>" for ss
    by (simp only: fold_gather_assumptions)
  then show ?thesis by (simp add: newCandidateContext_def Let_def gather_fold)
qed

lemma context_same_facts:
  assumes "aa_bySymbol a' = aa_bySymbol a"
  shows "same_facts (newCandidateContext cand op specs sites eff a dg limits)
    (newCandidateContext cand op specs sites eff a' dg limits)"
proof -
  have "cc_assumptions (newCandidateContext cand op specs sites eff a dg limits) = a" by (rule context_facts)
  with assms show ?thesis
    by (subst context_assumptions [of _ _ _ _ _ a' _ _ a]) (simp add: same_facts_def facts_of_def)
qed

text \<open>One entry of the report: an evaluated candidate, or one beyond the budget.\<close>

definition entry_ok :: "(string \<Rightarrow> string) \<Rightarrow> Input \<Rightarrow> Snapshot \<Rightarrow> nat \<Rightarrow> Candidate \<Rightarrow> CandidateProof \<Rightarrow> bool" where
  "entry_ok sha inp snap k cand cp \<longleftrightarrow>
     (if k < budget inp then \<exists>cc. same_facts (contextOf inp snap cand) cc \<and> cp = fst (prove sha cc)
      else cp_ID cp = cd_ID cand \<and> cp_Decision cp = DecisionUnknown \<and> cp_AllowedStrategies cp = [])"

definition tallyOf :: "(string, nat) gomap \<Rightarrow> string \<Rightarrow> nat" where
  "tallyOf m k = (case map_of m k of Some n \<Rightarrow> n | None \<Rightarrow> 0)"

lemma tallyOf_bump [simp]: "tallyOf (bump k m) j = tallyOf m j + (if j = k then 1 else 0)"
  by (auto simp: tallyOf_def bump_def split: option.split)

definition counted :: "Report \<Rightarrow> bool" where
  "counted r \<longleftrightarrow> (\<forall>d. tallyOf (re_DecisionCounts r) (decisionText d) =
     length (filter (\<lambda>cp. cp_Decision cp = d) (re_CandidateProofs r)))"

lemma decisionText_inj: "decisionText a = decisionText b \<longleftrightarrow> a = b"
  by (cases a; cases b) simp_all

lemma countStrategies_keeps [simp]:
  "re_CandidateProofs (countStrategies cp r) = re_CandidateProofs r"
  "re_DecisionCounts (countStrategies cp r) = re_DecisionCounts r"
  by (simp_all add: countStrategies_def)

lemma recordProof_counted: "counted r \<Longrightarrow> counted (recordProof cp r)"
  by (auto simp: counted_def recordProof_def decisionText_inj)

lemma proveOne_entry:
  fixes sha inp snap
  defines "step \<equiv> proveOne sha inp (snapOps snap) (snapSites snap) (snapEffects snap) (Limits_withDefaults (in_Limits inp))"
  assumes "aa_bySymbol (pv_assumptions p) = aa_bySymbol (newAssumptionSet (in_Assumptions inp))"
  shows "\<exists>cp. entry_ok sha inp snap k cand cp \<and>
      re_CandidateProofs (pv_report (step k cand p)) = re_CandidateProofs (pv_report p) @ [cp] \<and>
      aa_bySymbol (pv_assumptions (step k cand p)) = aa_bySymbol (pv_assumptions p) \<and>
      (counted (pv_report p) \<longrightarrow> counted (pv_report (step k cand p)))"
proof (cases "k < budget inp")
  case True
  then have k: "\<not> li_MaxCandidates (Limits_withDefaults (in_Limits inp)) \<le> int k" by (simp add: budget_def)
  let ?cc = "newCandidateContext cand
    (case map_of (snapOps snap) (cd_Operation cand) of Some o1 \<Rightarrow> o1 | None \<Rightarrow> zeroOperation)
    (in_Specs inp) (snapSites snap) (snapEffects snap) (pv_assumptions p) (in_ContractDigest inp)
    (Limits_withDefaults (in_Limits inp))"
  have "same_facts (contextOf inp snap cand) ?cc"
    unfolding contextOf_def by (rule context_same_facts) (rule assms(2))
  then have "entry_ok sha inp snap k cand (fst (prove sha ?cc))" using True by (auto simp: entry_ok_def)
  then show ?thesis
    using k recordProof_counted [of "pv_report p" "fst (prove sha ?cc)"]
    by (intro exI [of _ "fst (prove sha ?cc)"])
      (simp add: step_def proveOne_def Let_def split_beta recordProof_def context_facts counted_def)
next
  case False
  then have k: "li_MaxCandidates (Limits_withDefaults (in_Limits inp)) \<le> int k" by (simp add: budget_def)
  let ?cp = "limitedProof sha cand (in_ContractDigest inp) (assumptionSet_digest sha (pv_assumptions p))"
  have "entry_ok sha inp snap k cand ?cp" using False by (simp add: entry_ok_def limitedProof_def Let_def)
  then show ?thesis
    using k recordProof_counted [of "pv_report p" ?cp]
    by (intro exI [of _ ?cp]) (simp add: step_def proveOne_def recordProof_def)
qed


lemma proveLoop_entries:
  fixes sha inp snap
  defines "step \<equiv> proveOne sha inp (snapOps snap) (snapSites snap) (snapEffects snap) (Limits_withDefaults (in_Limits inp))"
  assumes "aa_bySymbol (pv_assumptions p) = aa_bySymbol (newAssumptionSet (in_Assumptions inp))"
    and "counted (pv_report p)" and "\<forall>k<length cands. ctxErr (i + k) = None"
  shows "\<exists>q cps. proveLoop ctxErr step i cands p = Inr q \<and>
      re_CandidateProofs (pv_report q) = re_CandidateProofs (pv_report p) @ cps \<and>
      list_all2 (\<lambda>(k, cand). entry_ok sha inp snap k cand) (enumerate i cands) cps \<and> counted (pv_report q)"
  using assms(2-)
proof (induction cands arbitrary: i p)
  case (Cons cand cands)
  obtain cp where cp: "entry_ok sha inp snap i cand cp"
      "re_CandidateProofs (pv_report (step i cand p)) = re_CandidateProofs (pv_report p) @ [cp]"
      "aa_bySymbol (pv_assumptions (step i cand p)) = aa_bySymbol (pv_assumptions p)"
      "counted (pv_report (step i cand p))"
    using proveOne_entry [OF Cons.prems(1), of sha snap i cand] Cons.prems(2) unfolding step_def by blast
  have ctx: "ctxErr i = None" "\<forall>k<length cands. ctxErr (Suc i + k) = None"
    using Cons.prems(3) by (simp_all add: All_less_Suc2)
  obtain q cps where "proveLoop ctxErr step (Suc i) cands (step i cand p) = Inr q"
      "re_CandidateProofs (pv_report q) = re_CandidateProofs (pv_report (step i cand p)) @ cps"
      "list_all2 (\<lambda>(k, cand). entry_ok sha inp snap k cand) (enumerate (Suc i) cands) cps" "counted (pv_report q)"
    using Cons.IH [OF _ cp(4) ctx(2)] cp(3) Cons.prems(1) by auto
  with cp ctx(1) show ?case
    by (intro exI [of _ q] exI [of _ "cp # cps"]) simp
qed simp

lemma entry_decisions:
  assumes "entry_ok sha inp snap k cand cp"
  defines "cc \<equiv> contextOf inp snap cand"
  shows "cp_ID cp = cd_ID cand"
    "cp_Decision cp = DecisionProvenEligible \<longleftrightarrow>
       k < budget inp \<and> (\<exists>sid\<in>set (applicableStrategies cc). strategy_holds sid cc)"
    "cp_Decision cp = DecisionProvenIneligible \<longleftrightarrow>
       k < budget inp \<and> (ao_Compatibility (cc_op cc) = ''invalid'' \<or> (\<not> ao_Disabled (cc_op cc) \<and> conflicting cc))"
    "(\<exists>s\<in>set (cp_AllowedStrategies cp). se_Strategy s = sid \<and> se_Status s = DecisionProvenEligible) \<longleftrightarrow>
       k < budget inp \<and> sid \<in> set (applicableStrategies cc) \<and> strategy_holds sid cc"
proof -
  consider (proved) cc' where "k < budget inp" "same_facts cc cc'" "cp = fst (prove sha cc')"
    | (over) "\<not> k < budget inp" "cp_ID cp = cd_ID cand" "cp_Decision cp = DecisionUnknown" "cp_AllowedStrategies cp = []"
    using assms by (auto simp: entry_ok_def split: if_splits)
  note cases = this
  have cand: "cc_cand cc = cand" unfolding cc_def contextOf_def by (rule context_facts)
  show "cp_ID cp = cd_ID cand"
    using cases cand by (cases rule: cases) (auto simp: prove_decision same_facts_def, metis facts_of_sel(1))
  show "cp_Decision cp = DecisionProvenEligible \<longleftrightarrow>
      k < budget inp \<and> (\<exists>sid\<in>set (applicableStrategies cc). strategy_holds sid cc)"
    by (cases rule: cases) (simp_all add: prove_eligible_iff decision_facts)
  show "cp_Decision cp = DecisionProvenIneligible \<longleftrightarrow>
      k < budget inp \<and> (ao_Compatibility (cc_op cc) = ''invalid'' \<or> (\<not> ao_Disabled (cc_op cc) \<and> conflicting cc))"
    by (cases rule: cases) (simp_all add: prove_ineligible_iff decision_facts)
  show "(\<exists>s\<in>set (cp_AllowedStrategies cp). se_Strategy s = sid \<and> se_Status s = DecisionProvenEligible) \<longleftrightarrow>
      k < budget inp \<and> sid \<in> set (applicableStrategies cc) \<and> strategy_holds sid cc"
    by (cases rule: cases) (simp_all add: strategy_allowed_iff decision_facts)
qed

lemma Prove_entries:
  assumes "in_Snapshot inp = Some snap" "\<forall>k<length (sn_Candidates snap). ctxErr k = None"
  obtains r where "Prove sha goVersion now ctxErr inp = Inr r"
    "list_all2 (\<lambda>(k, cand). entry_ok sha inp snap k cand) (enumerate 0 (sn_Candidates snap)) (re_CandidateProofs r)"
    "counted r"
proof -
  let ?step = "proveOne sha inp (snapOps snap) (snapSites snap) (snapEffects snap) (Limits_withDefaults (in_Limits inp))"
  obtain p0 where p0: "aa_bySymbol (pv_assumptions p0) = aa_bySymbol (newAssumptionSet (in_Assumptions inp))"
      "re_CandidateProofs (pv_report p0) = []" "counted (pv_report p0)"
    and run: "\<And>q. proveLoop ctxErr ?step 0 (sn_Candidates snap) p0 = Inr q \<Longrightarrow>
      \<exists>r. Prove sha goVersion now ctxErr inp = Inr r \<and> re_CandidateProofs r = re_CandidateProofs (pv_report q) \<and>
        re_DecisionCounts r = re_DecisionCounts (pv_report q)"
  proof
    let ?p0 = "\<lparr>pv_report = \<lparr>re_SchemaVersion = SchemaVersion, re_ToolVersion = in_ToolVersion inp,
        re_GoVersion = goVersion, re_Timestamp = [], re_Workspace = sn_Workspace snap,
        re_AnalysisSchema = sn_SchemaVersion snap, re_AnalysisDigest = sn_BuildDigest snap,
        re_ContractDigest = in_ContractDigest inp,
        re_AssumptionDigest = assumptionSet_digest sha (newAssumptionSet (in_Assumptions inp)),
        re_DeclaredOperations = length (sn_Operations snap), re_OperationCallSites = length (sn_CallSites snap),
        re_Candidates = length (sn_Candidates snap), re_DecisionCounts = [], re_StrategyCounts = [],
        re_CandidateProofs = [], re_Assumptions = [], re_Diagnostics = []\<rparr>,
      pv_assumptions = newAssumptionSet (in_Assumptions inp), pv_diags = []\<rparr>"
    show "aa_bySymbol (pv_assumptions ?p0) = aa_bySymbol (newAssumptionSet (in_Assumptions inp))"
      "re_CandidateProofs (pv_report ?p0) = []" "counted (pv_report ?p0)"
      by (simp_all add: counted_def tallyOf_def)
    show "\<exists>r. Prove sha goVersion now ctxErr inp = Inr r \<and> re_CandidateProofs r = re_CandidateProofs (pv_report q) \<and>
        re_DecisionCounts r = re_DecisionCounts (pv_report q)"
      if "proveLoop ctxErr ?step 0 (sn_Candidates snap) ?p0 = Inr q" for q
      using that by (simp add: Prove_def assms(1) Let_def snapOps_def snapSites_def snapEffects_def)
  qed
  obtain q where q: "proveLoop ctxErr ?step 0 (sn_Candidates snap) p0 = Inr q"
      "list_all2 (\<lambda>(k, cand). entry_ok sha inp snap k cand) (enumerate 0 (sn_Candidates snap))
        (re_CandidateProofs (pv_report q))" "counted (pv_report q)"
    using proveLoop_entries [OF p0(1,3), of "sn_Candidates snap" ctxErr 0 sha snap] assms(2) p0(2) by auto
  then show thesis using run [OF q(1)] that by (auto simp: counted_def)
qed

section \<open>Exact reports\<close>

text \<open>C18: A run whose context is not cancelled returns a report with one proof per candidate, in
  order and under its id. Within the budget, a candidate is proven eligible exactly when the
  conditions of one of its strategies hold of the facts of the snapshot, each strategy is offered
  as eligible exactly when its own conditions hold, and a candidate is proven ineligible exactly
  when its declaration is invalid, its signatures are incompatible or its operation is declared a
  write or an aggregation. Beyond the budget no candidate is decided either way. The counts of the
  report are the numbers of proofs with each decision.\<close>

theorem proof_report_exact:
  assumes "in_Snapshot inp = Some snap" "\<forall>k<length (sn_Candidates snap). ctxErr k = None"
  shows "\<exists>r. Prove sha goVersion now ctxErr inp = Inr r \<and>
    length (re_CandidateProofs r) = length (sn_Candidates snap) \<and>
    (\<forall>k<length (sn_Candidates snap).
       let cp = re_CandidateProofs r ! k; cand = sn_Candidates snap ! k; cc = contextOf inp snap cand in
       cp_ID cp = cd_ID cand \<and>
       (cp_Decision cp = DecisionProvenEligible \<longleftrightarrow>
          k < budget inp \<and> (\<exists>sid\<in>set (applicableStrategies cc). strategy_holds sid cc)) \<and>
       (\<forall>sid. (\<exists>s\<in>set (cp_AllowedStrategies cp). se_Strategy s = sid \<and> se_Status s = DecisionProvenEligible) \<longleftrightarrow>
          k < budget inp \<and> sid \<in> set (applicableStrategies cc) \<and> strategy_holds sid cc) \<and>
       (cp_Decision cp = DecisionProvenIneligible \<longleftrightarrow>
          k < budget inp \<and>
          (ao_Compatibility (cc_op cc) = ''invalid'' \<or> (\<not> ao_Disabled (cc_op cc) \<and> conflicting cc)))) \<and>
    (\<forall>d. tallyOf (re_DecisionCounts r) (decisionText d) =
       length (filter (\<lambda>cp. cp_Decision cp = d) (re_CandidateProofs r)))"
proof -
  obtain r where r: "Prove sha goVersion now ctxErr inp = Inr r"
      "list_all2 (\<lambda>(k, cand). entry_ok sha inp snap k cand) (enumerate 0 (sn_Candidates snap)) (re_CandidateProofs r)"
      "counted r"
    by (rule Prove_entries [OF assms])
  then have len: "length (re_CandidateProofs r) = length (sn_Candidates snap)"
    by (metis length_enumerate list_all2_lengthD)
  have entry: "entry_ok sha inp snap k (sn_Candidates snap ! k) (re_CandidateProofs r ! k)"
    if "k < length (sn_Candidates snap)" for k
    using list_all2_nthD [OF r(2), of k] that by (simp add: nth_enumerate_eq)
  show ?thesis
    using r(1,3) len unfolding Let_def counted_def
    by (intro exI [of _ r] conjI allI impI) (assumption | erule spec | rule entry_decisions [OF entry])+
qed

section \<open>A concrete run\<close>

definition demoSha :: "string \<Rightarrow> string" where
  "demoSha s = showNat (length s)"

definition demoReadSpec :: Spec where
  "demoReadSpec = baseSpec ''users.get'' ReadOnly"

definition demoSite :: CallSite where
  "demoSite = \<lparr>cs_ID = ''site-1'', cs_Operation = ''users.get'', cs_Location = ''a.go:7'', cs_EnclosingFunction = ''load'',
     cs_EnclosingFunctionID = ''fn-1'', cs_Dispatch = ''direct'', cs_Structural = ''loop'', cs_LoopDepth = 1,
     cs_InGoroutine = False, cs_Targets = 1, cs_ContextArg = ''parameter ctx'', cs_KeyArg = ''id'',
     cs_KeyDependency = KeyStructural, cs_Receiver = ''client''\<rparr>"

definition demoOperation :: Operation where
  "demoOperation = zeroOperation\<lparr>ao_ID := ''users.get'', ao_Kind := ''read-only'', ao_Compatibility := ''valid''\<rparr>"

definition demoCandidate :: "string \<Rightarrow> Candidate" where
  "demoCandidate site = \<lparr>cd_ID = ''cand-1'', cd_Operation = ''users.get'', cd_State = StatePotentialLoop,
     cd_StructuralContext = ''loop'', cd_CallSites = [site], cd_Evidence = []\<rparr>"

definition demoSnapshot :: "string \<Rightarrow> Snapshot" where
  "demoSnapshot site = \<lparr>sn_SchemaVersion = ''v1'', sn_Workspace = ''w'', sn_BuildDigest = ''build'',
     sn_Operations = [demoOperation], sn_CallSites = [demoSite],
     sn_Effects = [\<lparr>ef_Function = ''fn-1'', ef_Effects = [''heap-alloc''], ef_Complete = True\<rparr>],
     sn_Candidates = [demoCandidate site]\<rparr>"

definition demoInput :: "string \<Rightarrow> Input" where
  "demoInput site = \<lparr>in_Snapshot = Some (demoSnapshot site), in_Specs = [(''users.get'', demoReadSpec)],
     in_ContractDigest = ''contract'', in_Assumptions = [], in_Reproducible = True, in_ToolVersion = ''1'',
     in_Limits = \<lparr>li_MaxCandidates = 0, li_MaxWitnessSteps = 0\<rparr>\<rparr>"

lemma demo_holds:
  "strategy_holds StrategyStaticLoopPrefetch (contextOf (demoInput ''site-1'') (demoSnapshot ''site-1'') (demoCandidate ''site-1''))"
  by code_simp

lemma demo_applicable:
  "StrategyStaticLoopPrefetch \<in> set (applicableStrategies
     (contextOf (demoInput ''site-1'') (demoSnapshot ''site-1'') (demoCandidate ''site-1'')))"
  by (simp add: applicableStrategies_def contextOf_def context_facts demoCandidate_def)

theorem proof_report_exact_witness:
  "in_Snapshot (demoInput ''site-1'') = Some (demoSnapshot ''site-1'') \<and>
   (\<exists>r. Prove demoSha ''go1'' [] (\<lambda>_. None) (demoInput ''site-1'') = Inr r \<and>
     length (re_CandidateProofs r) = 1 \<and> cp_Decision (re_CandidateProofs r ! 0) = DecisionProvenEligible)"
proof -
  have snap: "in_Snapshot (demoInput ''site-1'') = Some (demoSnapshot ''site-1'')"
    and len: "length (sn_Candidates (demoSnapshot ''site-1'')) = 1"
    and cand: "sn_Candidates (demoSnapshot ''site-1'') ! 0 = demoCandidate ''site-1''"
    by (simp_all add: demoInput_def demoSnapshot_def)
  show ?thesis
    using proof_report_exact [OF snap, of "\<lambda>_. None" demoSha "''go1''" "[]"] snap len cand demo_holds demo_applicable budget_pos
    by (auto simp: Let_def)
qed

section \<open>What eligibility gives\<close>




lemma holds_reads: "strategy_holds sid cc \<Longrightarrow> reads_resolved cc"
  by (auto simp: strategy_holds_def movable_def split: if_splits)








end
