(* ===== verification/Batch_Contract.thy ===== *)
theory Batch_Contract
  imports BW_Prelude
begin

text \<open>
  The root package: batch items and requests (types.go, request.go), outcomes and
  responses (response.go), and the helpers that providers use to build a response from
  ordered, keyed or sparse results (helpers.go). Go error values are structured values
  here: each constructor stands for one \<open>fmt.Errorf\<close> site, and a function returning
  \<open>(T, error)\<close> returns a sum with the error on the left. A nil error is \<open>None\<close>.
  The zero value of an unconstrained type parameter V is \<open>None\<close>, a value is \<open>Some\<close>.
\<close>

section \<open>Items (types.go)\<close>

datatype item_error = RequestIDZero | WeightNotPositive | PriorityOutOfRange int

record 'k BatchItem =
  item_ID :: u64
  item_Key :: 'k
  item_Deadline :: gotime
  item_Priority :: int
  item_Weight :: int

definition RequestID_IsValid :: "u64 \<Rightarrow> bool" where
  "RequestID_IsValid i \<longleftrightarrow> i \<noteq> 0"

definition MinPriority :: int where "MinPriority = -1000"

definition MaxPriority :: int where "MaxPriority = 1000"

definition NewBatchItem :: "u64 \<Rightarrow> 'k \<Rightarrow> 'k BatchItem" where
  "NewBatchItem i k =
     \<lparr>item_ID = i, item_Key = k, item_Deadline = 0, item_Priority = 0, item_Weight = 1\<rparr>"

definition WithDeadline :: "gotime \<Rightarrow> 'k BatchItem \<Rightarrow> 'k BatchItem" where
  "WithDeadline d it = it\<lparr>item_Deadline := d\<rparr>"

definition WithPriority :: "int \<Rightarrow> 'k BatchItem \<Rightarrow> 'k BatchItem" where
  "WithPriority p it = it\<lparr>item_Priority := p\<rparr>"

definition WithWeight :: "int \<Rightarrow> 'k BatchItem \<Rightarrow> 'k BatchItem" where
  "WithWeight w it = it\<lparr>item_Weight := w\<rparr>"

definition BatchItem_Validate :: "'k BatchItem \<Rightarrow> item_error option" where
  "BatchItem_Validate it =
     (if \<not> RequestID_IsValid (item_ID it) then Some RequestIDZero
      else if item_Weight it < 1 then Some WeightNotPositive
      else if item_Priority it < MinPriority \<or> MaxPriority < item_Priority it
        then Some (PriorityOutOfRange (item_Priority it))
      else None)"

section \<open>Requests (request.go)\<close>

datatype request_error = RequestEmpty | RequestItem nat item_error | RequestDuplicate u64

record 'k BatchRequest =
  req_items :: "'k BatchItem list"

fun newRequestLoop ::
  "nat \<Rightarrow> u64 list \<Rightarrow> 'k BatchItem list \<Rightarrow> 'k BatchItem list \<Rightarrow> request_error + 'k BatchRequest"
where
  "newRequestLoop i seen cp [] = Inr \<lparr>req_items = cp\<rparr>"
| "newRequestLoop i seen cp (it # its) =
     (case BatchItem_Validate it of
        Some e \<Rightarrow> Inl (RequestItem i e)
      | None \<Rightarrow>
          if item_ID it \<in> set seen then Inl (RequestDuplicate (item_ID it))
          else newRequestLoop (Suc i) (item_ID it # seen) (cp @ [it]) its)"

definition NewBatchRequest :: "'k BatchItem list \<Rightarrow> request_error + 'k BatchRequest" where
  "NewBatchRequest its = (if its = [] then Inl RequestEmpty else newRequestLoop 0 [] [] its)"

definition BatchRequest_Len :: "'k BatchRequest \<Rightarrow> nat" where
  "BatchRequest_Len r = length (req_items r)"

definition BatchRequest_Items :: "'k BatchRequest \<Rightarrow> 'k BatchItem list" where
  "BatchRequest_Items r = req_items r"

definition BatchRequest_IDs :: "'k BatchRequest \<Rightarrow> u64 list" where
  "BatchRequest_IDs r = map item_ID (req_items r)"

fun requestValidateLoop :: "nat \<Rightarrow> u64 list \<Rightarrow> 'k BatchItem list \<Rightarrow> request_error option" where
  "requestValidateLoop i seen [] = None"
| "requestValidateLoop i seen (it # its) =
     (case BatchItem_Validate it of
        Some e \<Rightarrow> Some (RequestItem i e)
      | None \<Rightarrow>
          if item_ID it \<in> set seen then Some (RequestDuplicate (item_ID it))
          else requestValidateLoop (Suc i) (item_ID it # seen) its)"

definition BatchRequest_Validate :: "'k BatchRequest \<Rightarrow> request_error option" where
  "BatchRequest_Validate r =
     (if req_items r = [] then Some RequestEmpty else requestValidateLoop 0 [] (req_items r))"

section \<open>Outcomes and responses (response.go)\<close>

datatype outcome_error = OutcomeIDZero | OutcomeFoundAndFailed

datatype response_error =
    ResponseOutcome nat outcome_error
  | ResponseDuplicate u64
  | ResponseUnexpected u64
  | ResponseMissing u64
  | ResponseCount nat nat
  | ResponseNilLookup

record ('v, 'e) Outcome =
  out_RequestID :: u64
  out_Value :: "'v option"
  out_Err :: "'e option"
  out_Found :: bool

definition Success :: "u64 \<Rightarrow> 'v \<Rightarrow> ('v, 'e) Outcome" where
  "Success i v = \<lparr>out_RequestID = i, out_Value = Some v, out_Err = None, out_Found = True\<rparr>"

definition NotFound :: "u64 \<Rightarrow> ('v, 'e) Outcome" where
  "NotFound i = \<lparr>out_RequestID = i, out_Value = None, out_Err = None, out_Found = False\<rparr>"

definition Failure :: "u64 \<Rightarrow> 'e option \<Rightarrow> ('v, 'e) Outcome" where
  "Failure i e = \<lparr>out_RequestID = i, out_Value = None, out_Err = e, out_Found = False\<rparr>"

definition Outcome_Validate :: "('v, 'e) Outcome \<Rightarrow> outcome_error option" where
  "Outcome_Validate o1 =
     (if \<not> RequestID_IsValid (out_RequestID o1) then Some OutcomeIDZero
      else if out_Err o1 \<noteq> None \<and> out_Found o1 then Some OutcomeFoundAndFailed
      else None)"

definition IsSuccess :: "('v, 'e) Outcome \<Rightarrow> bool" where
  "IsSuccess o1 \<longleftrightarrow> out_Found o1 \<and> out_Err o1 = None"

definition IsNotFound :: "('v, 'e) Outcome \<Rightarrow> bool" where
  "IsNotFound o1 \<longleftrightarrow> \<not> out_Found o1 \<and> out_Err o1 = None"

definition IsFailure :: "('v, 'e) Outcome \<Rightarrow> bool" where
  "IsFailure o1 \<longleftrightarrow> out_Err o1 \<noteq> None"

record ('v, 'e) BatchResponse =
  resp_outcomes :: "('v, 'e) Outcome list"

fun newResponseLoop ::
  "nat \<Rightarrow> ('v, 'e) Outcome list \<Rightarrow> ('v, 'e) Outcome list \<Rightarrow>
   response_error + ('v, 'e) BatchResponse"
where
  "newResponseLoop i cp [] = Inr \<lparr>resp_outcomes = cp\<rparr>"
| "newResponseLoop i cp (x # xs) =
     (case Outcome_Validate x of
        Some e \<Rightarrow> Inl (ResponseOutcome i e)
      | None \<Rightarrow> newResponseLoop (Suc i) (cp @ [x]) xs)"

definition NewBatchResponse ::
  "('v, 'e) Outcome list \<Rightarrow> response_error + ('v, 'e) BatchResponse" where
  "NewBatchResponse xs = newResponseLoop 0 [] xs"

definition BatchResponse_Len :: "('v, 'e) BatchResponse \<Rightarrow> nat" where
  "BatchResponse_Len r = length (resp_outcomes r)"

definition BatchResponse_Outcomes :: "('v, 'e) BatchResponse \<Rightarrow> ('v, 'e) Outcome list" where
  "BatchResponse_Outcomes r = resp_outcomes r"

fun responseValidateLoop ::
  "nat \<Rightarrow> u64 list \<Rightarrow> ('v, 'e) Outcome list \<Rightarrow> response_error option" where
  "responseValidateLoop i seen [] = None"
| "responseValidateLoop i seen (x # xs) =
     (case Outcome_Validate x of
        Some e \<Rightarrow> Some (ResponseOutcome i e)
      | None \<Rightarrow>
          if out_RequestID x \<in> set seen then Some (ResponseDuplicate (out_RequestID x))
          else responseValidateLoop (Suc i) (out_RequestID x # seen) xs)"

definition BatchResponse_Validate :: "('v, 'e) BatchResponse \<Rightarrow> response_error option" where
  "BatchResponse_Validate r = responseValidateLoop 0 [] (resp_outcomes r)"

text \<open>
  The two loops of ValidateAgainst. Go ranges over the \<open>want\<close> map in an unspecified
  order; the model reports the first missing identifier in request order, which is one of
  the orders Go may take. Whether an error is returned does not depend on the order.
\<close>

fun unexpectedLoop :: "u64 list \<Rightarrow> ('v, 'e) Outcome list \<Rightarrow> response_error option" where
  "unexpectedLoop want [] = None"
| "unexpectedLoop want (x # xs) =
     (if out_RequestID x \<notin> set want then Some (ResponseUnexpected (out_RequestID x))
      else unexpectedLoop want xs)"

fun missingLoop :: "u64 list \<Rightarrow> u64 list \<Rightarrow> response_error option" where
  "missingLoop got [] = None"
| "missingLoop got (i # is) =
     (if i \<notin> set got then Some (ResponseMissing i) else missingLoop got is)"

definition ValidateAgainst :: "('v, 'e) BatchResponse \<Rightarrow> u64 list \<Rightarrow> response_error option" where
  "ValidateAgainst r ids =
     (case BatchResponse_Validate r of
        Some e \<Rightarrow> Some e
      | None \<Rightarrow>
          (case unexpectedLoop ids (resp_outcomes r) of
             Some e \<Rightarrow> Some e
           | None \<Rightarrow> missingLoop (map out_RequestID (resp_outcomes r)) ids))"

section \<open>Result mapping helpers (helpers.go)\<close>

record ('v, 'e) ItemResult =
  ir_Value :: "'v option"
  ir_Err :: "'e option"
  ir_Found :: bool

definition itemResultToOutcome :: "u64 \<Rightarrow> ('v, 'e) ItemResult \<Rightarrow> ('v, 'e) Outcome" where
  "itemResultToOutcome i r =
     (if ir_Err r \<noteq> None then Failure i (ir_Err r)
      else if ir_Found r
        then \<lparr>out_RequestID = i, out_Value = ir_Value r, out_Err = None, out_Found = True\<rparr>
      else NotFound i)"

definition missingOutcome ::
  "u64 \<Rightarrow> 'k \<Rightarrow> (u64 \<Rightarrow> 'k \<Rightarrow> ('v, 'e) Outcome) option \<Rightarrow> ('v, 'e) Outcome" where
  "missingOutcome i k onMissing =
     (case onMissing of Some f \<Rightarrow> f i k | None \<Rightarrow> NotFound i)"

definition OrderedOutcomes ::
  "'k BatchRequest \<Rightarrow> 'v list \<Rightarrow> response_error + ('v, 'e) BatchResponse" where
  "OrderedOutcomes req vals =
     (let its = BatchRequest_Items req in
      if length vals \<noteq> length its then Inl (ResponseCount (length vals) (length its))
      else NewBatchResponse (map (\<lambda>(it, v). Success (item_ID it) v) (zip its vals)))"

definition OrderedResultOutcomes ::
  "'k BatchRequest \<Rightarrow> ('v, 'e) ItemResult list \<Rightarrow> response_error + ('v, 'e) BatchResponse" where
  "OrderedResultOutcomes req results =
     (let its = BatchRequest_Items req in
      if length results \<noteq> length its then Inl (ResponseCount (length results) (length its))
      else NewBatchResponse (map (\<lambda>(it, r). itemResultToOutcome (item_ID it) r) (zip its results)))"

definition KeyedOutcomes ::
  "'k BatchRequest \<Rightarrow> ('k \<rightharpoonup> 'v) \<Rightarrow> (u64 \<Rightarrow> 'k \<Rightarrow> ('v, 'e) Outcome) option \<Rightarrow>
   response_error + ('v, 'e) BatchResponse" where
  "KeyedOutcomes req vals onMissing =
     NewBatchResponse
       (map (\<lambda>it. case vals (item_Key it) of
                    Some v \<Rightarrow> Success (item_ID it) v
                  | None \<Rightarrow> missingOutcome (item_ID it) (item_Key it) onMissing)
          (BatchRequest_Items req))"

definition SparseOutcomes ::
  "'k BatchRequest \<Rightarrow> ('k \<Rightarrow> 'v option) option \<Rightarrow> (u64 \<Rightarrow> 'k \<Rightarrow> ('v, 'e) Outcome) option \<Rightarrow>
   response_error + ('v, 'e) BatchResponse" where
  "SparseOutcomes req lookup onMissing =
     (case lookup of
        None \<Rightarrow> Inl ResponseNilLookup
      | Some f \<Rightarrow>
          NewBatchResponse
            (map (\<lambda>it. case f (item_Key it) of
                         Some v \<Rightarrow> Success (item_ID it) v
                       | None \<Rightarrow> missingOutcome (item_ID it) (item_Key it) onMissing)
               (BatchRequest_Items req)))"

section \<open>Characterisations of the validation loops\<close>

lemma newRequestLoop_Inr_iff:
  "newRequestLoop i seen cp its = Inr r \<longleftrightarrow>
     (\<forall>it\<in>set its. BatchItem_Validate it = None) \<and> distinct (map item_ID its) \<and>
     set (map item_ID its) \<inter> set seen = {} \<and> r = \<lparr>req_items = cp @ its\<rparr>"
  by (induction i seen cp its rule: newRequestLoop.induct) (auto split: option.splits)

lemma requestValidateLoop_None_iff:
  "requestValidateLoop i seen its = None \<longleftrightarrow>
     (\<forall>it\<in>set its. BatchItem_Validate it = None) \<and> distinct (map item_ID its) \<and>
     set (map item_ID its) \<inter> set seen = {}"
  by (induction i seen its rule: requestValidateLoop.induct) (auto split: option.splits)

lemma newResponseLoop_Inr_iff:
  "newResponseLoop i cp xs = Inr r \<longleftrightarrow>
     (\<forall>x\<in>set xs. Outcome_Validate x = None) \<and> r = \<lparr>resp_outcomes = cp @ xs\<rparr>"
  by (induction i cp xs rule: newResponseLoop.induct) (auto split: option.splits)

lemma responseValidateLoop_None_iff:
  "responseValidateLoop i seen xs = None \<longleftrightarrow>
     (\<forall>x\<in>set xs. Outcome_Validate x = None) \<and> distinct (map out_RequestID xs) \<and>
     set (map out_RequestID xs) \<inter> set seen = {}"
  by (induction i seen xs rule: responseValidateLoop.induct) (auto split: option.splits)

lemma unexpectedLoop_None_iff:
  "unexpectedLoop want xs = None \<longleftrightarrow> out_RequestID ` set xs \<subseteq> set want"
  by (induction want xs rule: unexpectedLoop.induct) auto

lemma missingLoop_None_iff: "missingLoop got ids = None \<longleftrightarrow> set ids \<subseteq> set got"
  by (induction got ids rule: missingLoop.induct) auto


lemma ValidateAgainst_None_iff:
  "ValidateAgainst r ids = None \<longleftrightarrow>
     list_all (\<lambda>x. Outcome_Validate x = None) (resp_outcomes r) \<and>
     distinct (map out_RequestID (resp_outcomes r)) \<and>
     set (map out_RequestID (resp_outcomes r)) = set ids"
  by (auto simp: ValidateAgainst_def BatchResponse_Validate_def list_all_iff option.case_eq_if
        responseValidateLoop_None_iff unexpectedLoop_None_iff missingLoop_None_iff)

lemma NewBatchRequest_Inr_iff:
  "NewBatchRequest its = Inr r \<longleftrightarrow>
     its \<noteq> [] \<and> list_all (\<lambda>it. BatchItem_Validate it = None) its \<and>
     distinct (map item_ID its) \<and> r = \<lparr>req_items = its\<rparr>"
  by (auto simp: NewBatchRequest_def newRequestLoop_Inr_iff list_all_iff)

lemma NewBatchResponse_Inr_iff:
  "NewBatchResponse xs = Inr r \<longleftrightarrow>
     list_all (\<lambda>x. Outcome_Validate x = None) xs \<and> r = \<lparr>resp_outcomes = xs\<rparr>"
  by (auto simp: NewBatchResponse_def newResponseLoop_Inr_iff list_all_iff)

lemma request_ids_nonzero:
  "list_all (\<lambda>it. BatchItem_Validate it = None) its \<Longrightarrow> it \<in> set its \<Longrightarrow> item_ID it \<noteq> 0"
  by (auto simp: list_all_iff BatchItem_Validate_def RequestID_IsValid_def split: if_splits)

lemma outcome_constructors [simp]:
  "out_RequestID (Success i v) = i" "out_RequestID (NotFound i) = i"
  "out_RequestID (Failure i e) = i" "out_RequestID (itemResultToOutcome i r) = i"
  "i \<noteq> 0 \<Longrightarrow> Outcome_Validate (Success i v) = None"
  "i \<noteq> 0 \<Longrightarrow> Outcome_Validate (NotFound i) = None"
  "i \<noteq> 0 \<Longrightarrow> Outcome_Validate (Failure i e) = None"
  "i \<noteq> 0 \<Longrightarrow> Outcome_Validate (itemResultToOutcome i r) = None"
  by (auto simp: Success_def NotFound_def Failure_def itemResultToOutcome_def
        Outcome_Validate_def RequestID_IsValid_def)

text \<open>
  The shape every mapping helper shares: one outcome per item, under the item's own
  identifier. Such a list always becomes a response that validates against the request.
\<close>

lemma per_item_response_validates:
  assumes req: "NewBatchRequest its = Inr req"
    and f: "\<And>it. it \<in> set its \<Longrightarrow> out_RequestID (f it) = item_ID it"
           "\<And>it. it \<in> set its \<Longrightarrow> Outcome_Validate (f it) = None"
  shows "NewBatchResponse (map f its) = Inr \<lparr>resp_outcomes = map f its\<rparr>"
    and "ValidateAgainst \<lparr>resp_outcomes = map f its\<rparr> (BatchRequest_IDs req) = None"
proof -
  have ids: "map (out_RequestID \<circ> f) its = map item_ID its"
    using f(1) by simp
  have ids': "(out_RequestID \<circ> f) ` set its = item_ID ` set its"
    by (auto intro: f(1) simp: f(1) image_iff)
  show "NewBatchResponse (map f its) = Inr \<lparr>resp_outcomes = map f its\<rparr>"
    using f(2) by (simp add: NewBatchResponse_Inr_iff list_all_iff)
  show "ValidateAgainst \<lparr>resp_outcomes = map f its\<rparr> (BatchRequest_IDs req) = None"
    using req f(2)
    by (simp add: ValidateAgainst_None_iff NewBatchRequest_Inr_iff BatchRequest_IDs_def
          list_all_iff ids ids')
qed

section \<open>The provider contract\<close>

text \<open>
  What the runtime relies on when it hands a request to a provider: a well-formed request
  is answered by a response that validates against the request's identifiers and carries,
  under each identifier, the outcome of the scalar operation at that item's key.
\<close>

locale batch_provider =
  fixes exec :: "'k BatchRequest \<Rightarrow> 'x + ('v, 'e) BatchResponse"
    and scalar :: "'k \<Rightarrow> ('v, 'e) ItemResult"
  assumes answers: "NewBatchRequest its = Inr req \<Longrightarrow> \<exists>resp. exec req = Inr resp"
    and validates: "NewBatchRequest its = Inr req \<Longrightarrow> exec req = Inr resp \<Longrightarrow>
      ValidateAgainst resp (BatchRequest_IDs req) = None"
    and agrees: "NewBatchRequest its = Inr req \<Longrightarrow> exec req = Inr resp \<Longrightarrow> it \<in> set its \<Longrightarrow>
      o1 \<in> set (resp_outcomes resp) \<Longrightarrow> out_RequestID o1 = item_ID it \<Longrightarrow>
      o1 = itemResultToOutcome (item_ID it) (scalar (item_Key it))"
begin

lemma outcome_of_item:
  assumes "NewBatchRequest its = Inr req" and "exec req = Inr resp" and "it \<in> set its"
  shows "map_of (map (\<lambda>o1. (out_RequestID o1, o1)) (resp_outcomes resp)) (item_ID it) =
    Some (itemResultToOutcome (item_ID it) (scalar (item_Key it)))"
proof -
  have val: "ValidateAgainst resp (BatchRequest_IDs req) = None"
    using assms validates by blast
  then have "item_ID it \<in> out_RequestID ` set (resp_outcomes resp)"
    using assms(1,3)
    by (auto simp: ValidateAgainst_None_iff NewBatchRequest_Inr_iff BatchRequest_IDs_def)
  then obtain o1 where o1: "o1 \<in> set (resp_outcomes resp)" "out_RequestID o1 = item_ID it"
    by auto
  have "distinct (map fst (map (\<lambda>o1. (out_RequestID o1, o1)) (resp_outcomes resp)))"
    using val by (simp add: ValidateAgainst_None_iff comp_def)
  moreover have "(item_ID it, o1) \<in> set (map (\<lambda>o1. (out_RequestID o1, o1)) (resp_outcomes resp))"
    using o1 by force
  ultimately show ?thesis
    unfolding agrees [OF assms o1, symmetric] by (rule map_of_is_SomeI)
qed

end

text \<open>Providers written with the mapping helpers of helpers.go keep the contract.\<close>

definition orderedProvider ::
  "('k \<Rightarrow> ('v, 'e) ItemResult) \<Rightarrow> 'k BatchRequest \<Rightarrow> response_error + ('v, 'e) BatchResponse" where
  "orderedProvider scalar req =
     OrderedResultOutcomes req (map (\<lambda>it. scalar (item_Key it)) (BatchRequest_Items req))"

lemma orderedProvider_eq:
  assumes req: "NewBatchRequest its = Inr req"
  shows "orderedProvider scalar req =
     Inr \<lparr>resp_outcomes = map (\<lambda>it. itemResultToOutcome (item_ID it) (scalar (item_Key it))) its\<rparr>"
proof -
  have "item_ID it \<noteq> 0" if "it \<in> set its" for it
    using req that by (auto simp: NewBatchRequest_Inr_iff dest: request_ids_nonzero)
  moreover have "req_items req = its"
    using req by (simp add: NewBatchRequest_Inr_iff)
  ultimately show ?thesis
    by (simp add: orderedProvider_def OrderedResultOutcomes_def BatchRequest_Items_def
          zip_map2 zip_same_conv_map NewBatchResponse_Inr_iff list_all_iff)
qed

interpretation ordered: batch_provider "orderedProvider scalar" scalar
  for scalar :: "'k \<Rightarrow> ('v, 'e) ItemResult"
proof unfold_locales
  fix its :: "'k BatchItem list" and req
  assume "NewBatchRequest its = Inr req"
  then show "\<exists>resp. orderedProvider scalar req = Inr resp"
    using orderedProvider_eq by blast
next
  fix its :: "'k BatchItem list" and req and resp :: "('v, 'e) BatchResponse"
  assume req: "NewBatchRequest its = Inr req" and resp: "orderedProvider scalar req = Inr resp"
  have "\<And>it. it \<in> set its \<Longrightarrow> item_ID it \<noteq> 0"
    using req by (auto simp: NewBatchRequest_Inr_iff dest: request_ids_nonzero)
  then show "ValidateAgainst resp (BatchRequest_IDs req) = None"
    using per_item_response_validates(2)
      [OF req, of "\<lambda>it. itemResultToOutcome (item_ID it) (scalar (item_Key it))"]
      orderedProvider_eq [OF req, of scalar] resp by simp
next
  fix its :: "'k BatchItem list" and req it
    and resp :: "('v, 'e) BatchResponse" and o1 :: "('v, 'e) Outcome"
  assume req: "NewBatchRequest its = Inr req" and resp: "orderedProvider scalar req = Inr resp"
    and it: "it \<in> set its" and o1: "o1 \<in> set (resp_outcomes resp)" "out_RequestID o1 = item_ID it"
  from o1(1) obtain it' where it': "it' \<in> set its"
    "o1 = itemResultToOutcome (item_ID it') (scalar (item_Key it'))"
    using orderedProvider_eq [OF req, of scalar] resp by auto
  moreover have "it' = it"
    using req it it' o1(2) by (auto simp: NewBatchRequest_Inr_iff distinct_map inj_on_def)
  ultimately show "o1 = itemResultToOutcome (item_ID it) (scalar (item_Key it))" by simp
qed


section \<open>Properties\<close>

text \<open>NewBatchRequest succeeds exactly on a non-empty list of valid items with pairwise
  distinct request identifiers, and then stores the items in their order.\<close>

theorem NewBatchRequest_correct:
  "NewBatchRequest its = Inr r \<longleftrightarrow>
     its \<noteq> [] \<and> list_all (\<lambda>it. BatchItem_Validate it = None) its \<and>
     distinct (map item_ID its) \<and> BatchRequest_Items r = its"
  by (cases r) (auto simp: NewBatchRequest_Inr_iff BatchRequest_Items_def)


text \<open>On a valid request, OrderedOutcomes with one value per item builds a response that
  validates against the request and answers the i-th item with the i-th value.\<close>

theorem OrderedOutcomes_correct:
  assumes req: "NewBatchRequest its = Inr req" and len: "length vals = length its"
  shows "\<exists>resp. OrderedOutcomes req vals = Inr resp \<and>
    ValidateAgainst resp (BatchRequest_IDs req) = None \<and>
    (\<forall>i < length its. BatchResponse_Outcomes resp ! i = Success (item_ID (its ! i)) (vals ! i))"
proof -
  let ?os = "map (\<lambda>(it, v). Success (item_ID it) v) (zip its vals)"
  have its: "req_items req = its"
    using req by (simp add: NewBatchRequest_Inr_iff)
  have ids: "map out_RequestID ?os = map item_ID its"
    using len by (intro nth_equalityI) simp_all
  have ok: "list_all (\<lambda>x. Outcome_Validate x = None) ?os"
    using req by (auto simp: list_all_iff NewBatchRequest_Inr_iff dest!: set_zip_leftD
        dest: request_ids_nonzero [unfolded list_all_iff])
  have "OrderedOutcomes req vals = Inr \<lparr>resp_outcomes = ?os\<rparr>"
    using len ok by (simp add: OrderedOutcomes_def BatchRequest_Items_def its
        NewBatchResponse_Inr_iff)
  moreover have "ValidateAgainst \<lparr>resp_outcomes = ?os\<rparr> (BatchRequest_IDs req) = None"
    using ok req unfolding ValidateAgainst_None_iff BatchResponse.simps ids
    by (simp add: BatchRequest_IDs_def its NewBatchRequest_Inr_iff)
  ultimately show ?thesis
    using len by (auto simp: BatchResponse_Outcomes_def)
qed

theorem OrderedOutcomes_correct_witness:
  "\<exists>resp. OrderedOutcomes \<lparr>req_items = [NewBatchItem 7 ''a'', NewBatchItem 9 ''b'']\<rparr> [True, False] =
      Inr (resp :: (bool, nat) BatchResponse) \<and>
    ValidateAgainst resp (BatchRequest_IDs \<lparr>req_items = [NewBatchItem 7 ''a'', NewBatchItem 9 ''b'']\<rparr>) = None \<and>
    (\<forall>i < length [NewBatchItem 7 ''a'', NewBatchItem 9 ''b''].
       BatchResponse_Outcomes resp ! i =
         Success (item_ID ([NewBatchItem 7 ''a'', NewBatchItem 9 ''b''] ! i)) ([True, False] ! i))"
  by (rule OrderedOutcomes_correct)
    (simp_all add: NewBatchRequest_def NewBatchItem_def BatchItem_Validate_def
      RequestID_IsValid_def MinPriority_def MaxPriority_def)

text \<open>On a valid request, SparseOutcomes with a lookup and an onMissing callback that
  answers under the identifier it is given builds a response that validates against the
  request; the outcome at each item is the looked-up value, or the callback's outcome.\<close>

theorem SparseOutcomes_correct:
  assumes req: "NewBatchRequest its = Inr req"
    and miss: "\<And>i k. i \<noteq> 0 \<Longrightarrow> out_RequestID (missingOutcome i k onMissing) = i \<and>
      Outcome_Validate (missingOutcome i k onMissing) = None"
  shows "SparseOutcomes req (Some lookup) onMissing =
      Inr \<lparr>resp_outcomes = map (\<lambda>it. case lookup (item_Key it) of
             Some v \<Rightarrow> Success (item_ID it) v
           | None \<Rightarrow> missingOutcome (item_ID it) (item_Key it) onMissing) its\<rparr> \<and>
    ValidateAgainst \<lparr>resp_outcomes = map (\<lambda>it. case lookup (item_Key it) of
             Some v \<Rightarrow> Success (item_ID it) v
           | None \<Rightarrow> missingOutcome (item_ID it) (item_Key it) onMissing) its\<rparr>
      (BatchRequest_IDs req) = None"
proof -
  let ?f = "\<lambda>it. case lookup (item_Key it) of Some v \<Rightarrow> Success (item_ID it) v
           | None \<Rightarrow> missingOutcome (item_ID it) (item_Key it) onMissing"
  have its: "req_items req = its"
    using req by (simp add: NewBatchRequest_Inr_iff)
  have nz: "item_ID it \<noteq> 0" if "it \<in> set its" for it
    using req that by (auto simp: NewBatchRequest_Inr_iff dest: request_ids_nonzero)
  have f: "out_RequestID (?f it) = item_ID it" "Outcome_Validate (?f it) = None"
    if "it \<in> set its" for it
    using nz [OF that] miss [of "item_ID it" "item_Key it"] by (auto split: option.split)
  show ?thesis
    using per_item_response_validates [OF req, of ?f] f
    by (simp add: SparseOutcomes_def BatchRequest_Items_def its)
qed

theorem SparseOutcomes_correct_witness:
  "SparseOutcomes \<lparr>req_items = [NewBatchItem 7 ''a'', NewBatchItem 9 ''b'']\<rparr>
      (Some (\<lambda>k. if k = ''a'' then Some (5 :: nat) else None)) None =
    Inr (\<lparr>resp_outcomes = [Success 7 5, NotFound 9]\<rparr> :: (nat, nat) BatchResponse)"
proof -
  have "NewBatchRequest [NewBatchItem 7 ''a'', NewBatchItem 9 ''b''] =
      Inr \<lparr>req_items = [NewBatchItem 7 ''a'', NewBatchItem 9 ''b'']\<rparr>"
    by (simp add: NewBatchRequest_def NewBatchItem_def BatchItem_Validate_def
      RequestID_IsValid_def MinPriority_def MaxPriority_def)
  from SparseOutcomes_correct [OF this,
      of "None :: (u64 \<Rightarrow> string \<Rightarrow> (nat, nat) Outcome) option" "\<lambda>k. if k = ''a'' then Some (5 :: nat) else None"]
  show ?thesis by (simp add: missingOutcome_def NewBatchItem_def)
qed

end
