(* ===== verification/Runtime_Keys.thy ===== *)
theory Runtime_Keys
  imports BW_Prelude
begin

unbundle bit_operations_syntax

text \<open>
  Key strategies (runtime/key.go), partitions and their length-delimited encoding
  (runtime/partition.go), and the queue policies (runtime/policy.go). The process-seeded
  \<open>hash/maphash\<close> is a parameter \<open>mh\<close>: any function from byte strings to 64-bit values.
  A Go \<open>[]byte\<close> is an optional byte list, with the nil slice as \<open>None\<close>.
\<close>

section \<open>Key strategies\<close>

record 'k KeyStrategy =
  Clone :: "'k \<Rightarrow> 'k"
  Hash :: "'k \<Rightarrow> u64"
  Equal :: "'k \<Rightarrow> 'k \<Rightarrow> bool"
  EstimateBytes :: "'k \<Rightarrow> int"

definition comparableStrategy :: "('k \<Rightarrow> u64) \<Rightarrow> nat \<Rightarrow> 'k KeyStrategy" where
  "comparableStrategy mhc sz =
     \<lparr>Clone = (\<lambda>k. k), Hash = mhc, Equal = (\<lambda>a b. a = b), EstimateBytes = (\<lambda>_. int sz)\<rparr>"

definition stringStrategy :: "(string \<Rightarrow> u64) \<Rightarrow> string KeyStrategy" where
  "stringStrategy mh =
     \<lparr>Clone = (\<lambda>s. s), Hash = mh, Equal = (\<lambda>a b. a = b), EstimateBytes = (\<lambda>s. int (length s))\<rparr>"

definition sliceBytes :: "string option \<Rightarrow> string" where
  "sliceBytes b = (case b of None \<Rightarrow> [] | Some s \<Rightarrow> s)"

definition bytesStrategy :: "(string \<Rightarrow> u64) \<Rightarrow> string option KeyStrategy" where
  "bytesStrategy mh =
     \<lparr>Clone = (\<lambda>b. case b of None \<Rightarrow> None | Some s \<Rightarrow> Some s),
      Hash = (\<lambda>b. mh (sliceBytes b)),
      Equal = (\<lambda>a b. sliceBytes a = sliceBytes b),
      EstimateBytes = (\<lambda>b. int (length (sliceBytes b)))\<rparr>"

text \<open>
  The contract the runtime's indexes rely on: Equal decides an equivalence, equal keys
  hash alike, a clone is equal to its original, and sizes are non-negative.
\<close>

locale key_strategy =
  fixes ks :: "'k KeyStrategy"
  assumes equal_refl [simp]: "Equal ks a a"
    and equal_sym: "Equal ks a b \<Longrightarrow> Equal ks b a"
    and equal_trans: "Equal ks a b \<Longrightarrow> Equal ks b c \<Longrightarrow> Equal ks a c"
    and equal_hash: "Equal ks a b \<Longrightarrow> Hash ks a = Hash ks b"
    and clone_equal: "Equal ks (Clone ks a) a"
    and bytes_nonneg: "0 \<le> EstimateBytes ks a"
begin

lemma equal_cong: "Equal ks a b \<Longrightarrow> Equal ks a c \<longleftrightarrow> Equal ks b c"
  by (blast intro: equal_sym equal_trans)

lemma clone_hash: "Hash ks (Clone ks a) = Hash ks a"
  by (rule equal_hash) (rule clone_equal)

end

interpretation comparable: key_strategy "comparableStrategy mhc sz" for mhc sz
  by unfold_locales (auto simp: comparableStrategy_def)

interpretation stringKeys: key_strategy "stringStrategy mh" for mh
  by unfold_locales (auto simp: stringStrategy_def)

interpretation bytesKeys: key_strategy "bytesStrategy mh" for mh
  by unfold_locales (auto simp: bytesStrategy_def split: option.split)

section \<open>Partitions\<close>

record Partition =
  encoded :: string
  phash :: u64

definition newPartition :: "(string \<Rightarrow> u64) \<Rightarrow> string \<Rightarrow> Partition" where
  "newPartition mh e = \<lparr>encoded = e, phash = mh e\<rparr>"

definition wf_partition :: "(string \<Rightarrow> u64) \<Rightarrow> Partition \<Rightarrow> bool" where
  "wf_partition mh p \<longleftrightarrow> phash p = mh (encoded p)"

definition tagSingle :: char where "tagSingle = char_of (1 :: nat)"

definition tagComposite :: char where "tagComposite = char_of (2 :: nat)"

text \<open>\<open>binary.PutUvarint\<close> of the Go standard library: seven bits per byte, low bits first.\<close>

fun putUvarint :: "nat \<Rightarrow> string" where
  "putUvarint x =
     (if x \<ge> 128 then char_of (x mod 128 + 128) # putUvarint (x div 128) else [char_of x])"

declare putUvarint.simps [simp del]

fun writeComponents :: "string \<Rightarrow> string list \<Rightarrow> string" where
  "writeComponents b [] = b"
| "writeComponents b (v # vs) = writeComponents (b @ putUvarint (length v) @ v) vs"

definition PartitionFromStrings :: "(string \<Rightarrow> u64) \<Rightarrow> string list \<Rightarrow> Partition" where
  "PartitionFromStrings mh vs = newPartition mh (writeComponents [tagComposite] vs)"

definition PartitionFromBytes :: "(string \<Rightarrow> u64) \<Rightarrow> string option list \<Rightarrow> Partition" where
  "PartitionFromBytes mh vs = newPartition mh (writeComponents [tagComposite] (map sliceBytes vs))"

definition SinglePartition :: "(string \<Rightarrow> u64) \<Rightarrow> Partition" where
  "SinglePartition mh = newPartition mh [tagSingle]"

definition Partition_IsZero :: "Partition \<Rightarrow> bool" where
  "Partition_IsZero p \<longleftrightarrow> encoded p = []"

definition singlePartitioner :: "(string \<Rightarrow> u64) \<Rightarrow> 'k \<Rightarrow> 'err + Partition" where
  "singlePartitioner mh k = Inr (SinglePartition mh)"

section \<open>Queue limits and policies\<close>

record QueueLimits =
  MaxItems :: int
  MaxWaiters :: int
  MaxBytes :: int
  MaxWeight :: int
  MaxPartitions :: int

definition QueueLimits_Validate :: "QueueLimits \<Rightarrow> bool" where
  "QueueLimits_Validate l \<longleftrightarrow>
     \<not> (MaxItems l < 0 \<or> MaxWaiters l < 0 \<or> MaxBytes l < 0 \<or> MaxWeight l < 0 \<or> MaxPartitions l < 0)"

definition QueueLimits_merge :: "QueueLimits \<Rightarrow> QueueLimits \<Rightarrow> QueueLimits" where
  "QueueLimits_merge l other =
     (let l = (if MaxItems l = 0 then l\<lparr>MaxItems := MaxItems other\<rparr> else l);
          l = (if MaxWaiters l = 0 then l\<lparr>MaxWaiters := MaxWaiters other\<rparr> else l);
          l = (if MaxBytes l = 0 then l\<lparr>MaxBytes := MaxBytes other\<rparr> else l);
          l = (if MaxWeight l = 0 then l\<lparr>MaxWeight := MaxWeight other\<rparr> else l);
          l = (if MaxPartitions l = 0 then l\<lparr>MaxPartitions := MaxPartitions other\<rparr> else l)
      in l)"

datatype OverflowPolicy = OverflowReject | OverflowFallback | OverflowBlock

datatype FlushReason =
    FlushManual | FlushSize | FlushWeight | FlushBytes | FlushWait | FlushDeadline
  | FlushScopeClose | FlushEngineClose | FlushOverflow

lemma wf_partition_constructors [simp]:
  "wf_partition mh (newPartition mh e)" "wf_partition mh (SinglePartition mh)"
  "wf_partition mh (PartitionFromStrings mh vs)"
  by (simp_all add: wf_partition_def newPartition_def SinglePartition_def PartitionFromStrings_def)

lemma merge_fields [simp]:
  "MaxItems (QueueLimits_merge l m) = (if MaxItems l = 0 then MaxItems m else MaxItems l)"
  "MaxWaiters (QueueLimits_merge l m) = (if MaxWaiters l = 0 then MaxWaiters m else MaxWaiters l)"
  "MaxBytes (QueueLimits_merge l m) = (if MaxBytes l = 0 then MaxBytes m else MaxBytes l)"
  "MaxWeight (QueueLimits_merge l m) = (if MaxWeight l = 0 then MaxWeight m else MaxWeight l)"
  "MaxPartitions (QueueLimits_merge l m) =
     (if MaxPartitions l = 0 then MaxPartitions m else MaxPartitions l)"
  by (simp_all add: QueueLimits_merge_def Let_def)

section \<open>The encoding is injective\<close>

lemma char_of_inj:
  "x < 256 \<Longrightarrow> y < 256 \<Longrightarrow> (char_of x :: char) = char_of (y :: nat) \<longleftrightarrow> x = y"
  by (metis of_char_of mod_less)

lemma putUvarint_prefix_free:
  "putUvarint x @ a = putUvarint y @ b \<Longrightarrow> x = y \<and> a = b"
proof (induction x arbitrary: y a b rule: putUvarint.induct)
  case (1 x)
  show ?case
  proof (cases "x \<ge> 128")
    case True
    then have px: "putUvarint x = char_of (x mod 128 + 128) # putUvarint (x div 128)"
      by (simp add: putUvarint.simps)
    have y: "y \<ge> 128"
    proof (rule ccontr)
      assume "\<not> y \<ge> 128"
      moreover from this have "putUvarint y = [char_of y]"
        by (subst putUvarint.simps) simp
      ultimately have "(char_of (x mod 128 + 128) :: char) = char_of y"
        using 1(2) px by simp
      then have "x mod 128 + 128 = y"
        using \<open>\<not> y \<ge> 128\<close> by (subst (asm) char_of_inj) auto
      then show False using \<open>\<not> y \<ge> 128\<close> by simp
    qed
    then have py: "putUvarint y = char_of (y mod 128 + 128) # putUvarint (y div 128)"
      by (simp add: putUvarint.simps)
    from 1(2) px py have "x mod 128 + 128 = y mod 128 + 128"
      by (subst char_of_inj [symmetric]) auto
    moreover from 1(2) px py have "x div 128 = y div 128 \<and> a = b"
      using True by (intro 1(1)) auto
    ultimately show ?thesis by (metis add_right_cancel div_mult_mod_eq)
  next
    case False
    then have px: "putUvarint x = [char_of x]"
      by (subst putUvarint.simps) simp
    have y: "\<not> y \<ge> 128"
    proof
      assume "y \<ge> 128"
      moreover from this have "putUvarint y = char_of (y mod 128 + 128) # putUvarint (y div 128)"
        by (simp add: putUvarint.simps)
      ultimately have "(char_of x :: char) = char_of (y mod 128 + 128)"
        using 1(2) px by simp
      then have "x = y mod 128 + 128"
        using False by (subst (asm) char_of_inj) auto
      then show False using False by simp
    qed
    then have py: "putUvarint y = [char_of y]"
      by (subst putUvarint.simps) simp
    from 1(2) px py False y show ?thesis by (simp add: char_of_inj)
  qed
qed

lemma putUvarint_nonempty [simp]: "putUvarint x \<noteq> []"
  by (subst putUvarint.simps) simp

lemma writeComponents_append:
  "writeComponents b vs = b @ concat (map (\<lambda>v. putUvarint (length v) @ v) vs)"
  by (induction b vs rule: writeComponents.induct) auto

lemma components_inj:
  "concat (map (\<lambda>v. putUvarint (length v) @ v) vs) =
   concat (map (\<lambda>v. putUvarint (length v) @ v) ws) \<Longrightarrow> vs = ws"
proof (induction vs arbitrary: ws)
  case Nil
  then show ?case by (cases ws) auto
next
  case (Cons v vs)
  then obtain w ws' where ws: "ws = w # ws'" by (cases ws) auto
  with Cons.prems have
    "putUvarint (length v) @ (v @ concat (map (\<lambda>v. putUvarint (length v) @ v) vs)) =
     putUvarint (length w) @ (w @ concat (map (\<lambda>v. putUvarint (length v) @ v) ws'))"
    by simp
  then have "length v = length w"
    and "v @ concat (map (\<lambda>v. putUvarint (length v) @ v) vs) =
         w @ concat (map (\<lambda>v. putUvarint (length v) @ v) ws')"
    by (auto dest: putUvarint_prefix_free)
  with Cons.IH ws show ?case by auto
qed

section \<open>Properties\<close>

text \<open>C30: Partitions built from string components are equal only if the component lists are
  equal, whatever the hash function: grouping components differently never merges two
  partitions, and the single partition differs from every composite one.\<close>

theorem partition_encoding_injective:
  "(PartitionFromStrings mh vs = PartitionFromStrings mh ws \<longleftrightarrow> vs = ws) \<and>
   encoded (PartitionFromStrings mh vs) \<noteq> encoded (SinglePartition mh) \<and>
   \<not> Partition_IsZero (PartitionFromStrings mh vs) \<and> \<not> Partition_IsZero (SinglePartition mh)"
proof -
  have tags: "tagComposite \<noteq> tagSingle"
    by (simp add: tagComposite_def tagSingle_def char_of_inj)
  show ?thesis
    using tags components_inj [of vs ws]
    by (auto simp: PartitionFromStrings_def SinglePartition_def newPartition_def
        Partition_IsZero_def writeComponents_append)
qed

text \<open>Merging limits keeps every limit that is set, fills the unset ones from the other
  limits, keeps well-formedness, and is associative, so the precedence binding, operation,
  engine does not depend on how the merges are grouped.\<close>

theorem merge_limits_correct:
  "MaxItems (QueueLimits_merge l m) = (if MaxItems l = 0 then MaxItems m else MaxItems l) \<and>
   MaxWaiters (QueueLimits_merge l m) = (if MaxWaiters l = 0 then MaxWaiters m else MaxWaiters l) \<and>
   MaxBytes (QueueLimits_merge l m) = (if MaxBytes l = 0 then MaxBytes m else MaxBytes l) \<and>
   MaxWeight (QueueLimits_merge l m) = (if MaxWeight l = 0 then MaxWeight m else MaxWeight l) \<and>
   MaxPartitions (QueueLimits_merge l m) =
     (if MaxPartitions l = 0 then MaxPartitions m else MaxPartitions l) \<and>
   (QueueLimits_Validate l \<and> QueueLimits_Validate m \<longrightarrow>
      QueueLimits_Validate (QueueLimits_merge l m)) \<and>
   QueueLimits_merge (QueueLimits_merge l m) n = QueueLimits_merge l (QueueLimits_merge m n)"
proof -
  have "QueueLimits_merge (QueueLimits_merge l m) n = QueueLimits_merge l (QueueLimits_merge m n)"
    by (rule QueueLimits.equality) simp_all
  then show ?thesis by (simp add: QueueLimits_Validate_def)
qed

theorem merge_limits_correct_witness:
  "QueueLimits_Validate (QueueLimits_merge
     \<lparr>MaxItems = 0, MaxWaiters = 5, MaxBytes = 0, MaxWeight = 0, MaxPartitions = 2\<rparr>
     \<lparr>MaxItems = 100000, MaxWaiters = 0, MaxBytes = 67108864, MaxWeight = 0, MaxPartitions = 10000\<rparr>)"
proof -
  let ?l = "\<lparr>MaxItems = 0, MaxWaiters = 5, MaxBytes = 0, MaxWeight = 0, MaxPartitions = 2\<rparr>"
  let ?m = "\<lparr>MaxItems = 100000, MaxWaiters = 0, MaxBytes = 67108864, MaxWeight = 0,
             MaxPartitions = 10000\<rparr>"
  have "QueueLimits_Validate ?l" and "QueueLimits_Validate ?m"
    by (simp_all add: QueueLimits_Validate_def)
  then show ?thesis using merge_limits_correct [of ?l ?m] by blast
qed

end
