(* ===== verification/Adaptive_Settings.thy ===== *)
theory Adaptive_Settings
  imports BW_Prelude
begin

text \<open>
  The runtime side of adaptive tuning (runtime/adaptive.go): the settings an adaptive
  controller may install on a bound operation, how they are clamped to the binding's
  configuration, and the values the coordinator then reads. Durations are nanoseconds.
\<close>

record AdaptiveSettings =
  as_MaxWait :: duration
  as_MaxBatchSize :: int
  as_MaxConcurrency :: int

record dynamicSettings =
  ds_maxWait :: duration
  ds_maxBatchSize :: int
  ds_maxConcurrency :: int

record schedLimits =
  sc_maxWait :: duration
  sc_maxBatchSize :: int
  sc_maxConcurrency :: int

definition clampInt :: "int \<Rightarrow> int \<Rightarrow> int \<Rightarrow> int" where
  "clampInt v lo hi =
     (let v = (if v < lo then lo else v) in if hi > 0 \<and> v > hi then hi else v)"

definition clampDur :: "duration \<Rightarrow> duration \<Rightarrow> duration \<Rightarrow> duration" where
  "clampDur v lo hi =
     (let v = (if v < lo then lo else v) in if hi > 0 \<and> v > hi then hi else v)"

definition ApplyAdaptiveSettings :: "schedLimits \<Rightarrow> AdaptiveSettings \<Rightarrow> dynamicSettings option" where
  "ApplyAdaptiveSettings cfg s =
     (let ds = \<lparr>ds_maxWait = sc_maxWait cfg, ds_maxBatchSize = sc_maxBatchSize cfg,
                ds_maxConcurrency = sc_maxConcurrency cfg\<rparr>;
          ds = (if as_MaxWait s > 0 \<and> as_MaxWait s < sc_maxWait cfg
                  then ds\<lparr>ds_maxWait := as_MaxWait s\<rparr>
                else if as_MaxWait s = 0 then ds\<lparr>ds_maxWait := sc_maxWait cfg\<rparr>
                else ds\<lparr>ds_maxWait := clampDur (as_MaxWait s) 0 (sc_maxWait cfg)\<rparr>);
          ds = (if as_MaxBatchSize s > 0
                  then ds\<lparr>ds_maxBatchSize := clampInt (as_MaxBatchSize s) 1 (sc_maxBatchSize cfg)\<rparr>
                else ds);
          ds = (if as_MaxConcurrency s > 0
                  then ds\<lparr>ds_maxConcurrency := clampInt (as_MaxConcurrency s) 1 (sc_maxConcurrency cfg)\<rparr>
                else ds)
      in Some ds)"

definition ClearAdaptiveSettings :: "dynamicSettings option" where
  "ClearAdaptiveSettings = None"

definition effectiveMaxWait :: "schedLimits \<Rightarrow> dynamicSettings option \<Rightarrow> duration" where
  "effectiveMaxWait cfg dyn = (case dyn of Some ds \<Rightarrow> ds_maxWait ds | None \<Rightarrow> sc_maxWait cfg)"

definition effectiveMaxBatchSize :: "schedLimits \<Rightarrow> dynamicSettings option \<Rightarrow> int" where
  "effectiveMaxBatchSize cfg dyn =
     (case dyn of Some ds \<Rightarrow> ds_maxBatchSize ds | None \<Rightarrow> sc_maxBatchSize cfg)"

definition effectiveMaxConcurrency :: "schedLimits \<Rightarrow> dynamicSettings option \<Rightarrow> int" where
  "effectiveMaxConcurrency cfg dyn =
     (case dyn of Some ds \<Rightarrow> ds_maxConcurrency ds | None \<Rightarrow> sc_maxConcurrency cfg)"

definition EffectiveSettings :: "schedLimits \<Rightarrow> dynamicSettings option \<Rightarrow> AdaptiveSettings" where
  "EffectiveSettings cfg dyn =
     \<lparr>as_MaxWait = effectiveMaxWait cfg dyn, as_MaxBatchSize = effectiveMaxBatchSize cfg dyn,
      as_MaxConcurrency = effectiveMaxConcurrency cfg dyn\<rparr>"

text \<open>The settings a coordinator may see: none, or ones installed by ApplyAdaptiveSettings.\<close>

definition dyn_ok :: "schedLimits \<Rightarrow> dynamicSettings option \<Rightarrow> bool" where
  "dyn_ok cfg dyn \<longleftrightarrow>
     1 \<le> effectiveMaxBatchSize cfg dyn \<and> effectiveMaxBatchSize cfg dyn \<le> sc_maxBatchSize cfg \<and>
     1 \<le> effectiveMaxConcurrency cfg dyn \<and> effectiveMaxConcurrency cfg dyn \<le> sc_maxConcurrency cfg"

lemma effective_None [simp]:
  "effectiveMaxWait cfg None = sc_maxWait cfg"
  "effectiveMaxBatchSize cfg None = sc_maxBatchSize cfg"
  "effectiveMaxConcurrency cfg None = sc_maxConcurrency cfg"
  by (simp_all add: effectiveMaxWait_def effectiveMaxBatchSize_def effectiveMaxConcurrency_def)

lemma dyn_ok_apply:
  "1 \<le> sc_maxBatchSize cfg \<Longrightarrow> 1 \<le> sc_maxConcurrency cfg \<Longrightarrow>
     dyn_ok cfg (ApplyAdaptiveSettings cfg s)"
  by (simp add: dyn_ok_def ApplyAdaptiveSettings_def Let_def clampInt_def
      effectiveMaxBatchSize_def effectiveMaxConcurrency_def)

section \<open>Properties\<close>

text \<open>C31: Under a binding with a positive configured wait, batch size and concurrency (Bind
  makes the last two at least one), whatever settings a controller applies, the effective
  batch size and concurrency stay between one and the configured value, and the effective
  wait stays between zero and the configured wait.\<close>

theorem adaptive_settings_only_tighten:
  assumes "1 \<le> sc_maxBatchSize cfg" "1 \<le> sc_maxConcurrency cfg" "0 < sc_maxWait cfg"
  shows "let e = EffectiveSettings cfg (ApplyAdaptiveSettings cfg s) in
     1 \<le> as_MaxBatchSize e \<and> as_MaxBatchSize e \<le> sc_maxBatchSize cfg \<and>
     1 \<le> as_MaxConcurrency e \<and> as_MaxConcurrency e \<le> sc_maxConcurrency cfg \<and>
     0 \<le> as_MaxWait e \<and> as_MaxWait e \<le> sc_maxWait cfg"
  using assms
  by (simp add: EffectiveSettings_def ApplyAdaptiveSettings_def Let_def clampInt_def clampDur_def
      effectiveMaxBatchSize_def effectiveMaxConcurrency_def effectiveMaxWait_def)

theorem adaptive_settings_only_tighten_witness:
  "let e = EffectiveSettings \<lparr>sc_maxWait = 2000000, sc_maxBatchSize = 64, sc_maxConcurrency = 4\<rparr>
        (ApplyAdaptiveSettings \<lparr>sc_maxWait = 2000000, sc_maxBatchSize = 64, sc_maxConcurrency = 4\<rparr>
          \<lparr>as_MaxWait = 9000000, as_MaxBatchSize = 1000, as_MaxConcurrency = 0\<rparr>) in
     1 \<le> as_MaxBatchSize e \<and> as_MaxBatchSize e \<le> 64 \<and>
     1 \<le> as_MaxConcurrency e \<and> as_MaxConcurrency e \<le> 4 \<and> 0 \<le> as_MaxWait e \<and> as_MaxWait e \<le> 2000000"
  using adaptive_settings_only_tighten
    [of "\<lparr>sc_maxWait = 2000000, sc_maxBatchSize = 64, sc_maxConcurrency = 4\<rparr>"
        "\<lparr>as_MaxWait = 9000000, as_MaxBatchSize = 1000, as_MaxConcurrency = 0\<rparr>"]
  by simp

text \<open>With no configured wait the clamp has no upper bound: any positive adaptive wait is
  installed unchanged, so the effective wait exceeds the configured one; and a negative
  adaptive wait is installed as zero, which switches the time-based flush off.\<close>

theorem adaptive_wait_escapes_zero_bound:
  "as_MaxWait (EffectiveSettings (cfg\<lparr>sc_maxWait := 0\<rparr>)
      (ApplyAdaptiveSettings (cfg\<lparr>sc_maxWait := 0\<rparr>) (s\<lparr>as_MaxWait := int (Suc n)\<rparr>))) = int (Suc n) \<and>
   as_MaxWait (EffectiveSettings cfg
      (ApplyAdaptiveSettings cfg (s\<lparr>as_MaxWait := - int (Suc n)\<rparr>))) = 0"
  by (simp add: EffectiveSettings_def ApplyAdaptiveSettings_def Let_def clampDur_def
      effectiveMaxWait_def)

end
