(* ===== verification/Coordinator.thy ===== *)
theory Coordinator
  imports Batch_Contract Runtime_Keys Adaptive_Settings
begin

text \<open>
  The coordinator of one bound operation (runtime/coordinator.go, coordinator_handlers.go,
  coordinator_dispatch.go): its state, one definition per method, and one iteration of its
  event loop.

  Queued items are shared by pointer between a partition's pending queue, its hash index
  and an in-flight batch, so they live in a store: \<open>c_heap\<close> maps an address to an item,
  \<open>c_next\<close> is the next free address, and pointer comparison is equality of addresses.
  A partition is reached through \<open>c_partitions\<close> under its encoded name; an update of a
  partition that has been retired from the map is an update of an unreachable object and
  has no effect. Go maps are association lists; where the code ranges over a map, the model
  takes the list's order, one of the orders Go may take.

  What leaves the goroutine is logged: results sent to callers (\<open>o_deliveries\<close>), replies to
  submit and control requests (\<open>o_replies\<close>), provider calls started (\<open>o_workers\<close>), batch
  contexts cancelled (\<open>o_cancels\<close>) and hook events (\<open>o_events\<close>). The clock is a parameter
  \<open>clk\<close>, a sequence of readings of which \<open>e_reads\<close> have been consumed. Sums of weights and
  bytes are kept at Go's 64-bit width by \<open>i64\<close>; sequence numbers and counters, which move by
  one per request, are unbounded.
\<close>

section \<open>Data (coordinator.go)\<close>

datatype flushMode = flushImmediate | flushFixedWindow | flushDeadlineAware | flushManual

datatype controlKind = controlFlush | controlDrain | controlClose

datatype contract_reason = RequestReason request_error | ResponseReason response_error

datatype rt_error =
    ErrEngineClosed
  | ErrEngineClosing
  | ErrItemTooLarge
  | errFallbackSentinel
  | QueueFullError string string
  | PartitionLimitError string int
  | ProviderPanicError string string
  | ContractError string contract_reason
  | ErrFlushTimeout rt_error
  | ErrDrainTimeout rt_error
  | ErrScopeRequired
  | ErrScopeClosed
  | ErrNestedScope
  | ErrOperationAlreadyBound string
  | ErrRecursiveOperation
  | ErrInvalidBinding string
  | ErrInvalidOption string
  | ErrMissingResult
  | CallbackPanicError string string string
  | ContextError string
  | UserError string

record 'v res =
  res_value :: "'v option"
  res_err :: "rt_error option"
  res_found :: bool

record waiter =
  w_id :: u64
  w_ch :: chan
  w_active :: bool
  w_deadline :: gotime
  w_hasDeadline :: bool

record 'k qitem =
  q_id :: u64
  q_seq :: int
  q_key :: 'k
  q_hash :: u64
  q_weight :: int
  q_bytes :: int
  q_enqueue :: gotime
  q_waiters :: "waiter list"
  q_activeWaiters :: int
  q_dispatched :: bool
  q_batchID :: nat

record partitionState =
  p_part :: Partition
  p_pending :: "addr list"
  p_active :: "(u64, addr list) gomap"
  p_bytes :: int
  p_weight :: int
  p_waiters :: int
  p_live :: int

record batchInflight =
  b_id :: nat
  b_items :: "addr list"
  b_activeWaiters :: int
  b_partition :: string
  b_minSeq :: int

record 'k submitReq =
  s_part :: Partition
  s_key :: 'k
  s_hash :: u64
  s_weight :: int
  s_bytes :: int
  s_waiter :: waiter
  s_reply :: chan

record cancelReq =
  x_part :: string
  x_waiterID :: u64
  x_blocked :: bool

record 'v completeReq =
  d_batchID :: nat
  d_response :: "('v, rt_error) BatchResponse"
  d_globalErr :: "rt_error option"
  d_panicked :: bool
  d_panicVal :: string

record controlReq =
  t_kind :: controlKind
  t_reply :: chan
  t_ctx :: "nat option"

record barrier =
  br_kind :: controlKind
  br_seq :: int
  br_reply :: chan
  br_ctx :: "nat option"
  br_dispatchOnly :: bool

datatype EventKind =
    EventRequestSubmitted | EventRequestRejected | EventRequestJoinedInFlight
  | EventRequestCanceled | EventMemoHit | EventBatchSelected | EventBatchDispatched
  | EventBatchCompleted | EventBatchFailed | EventContractViolation | EventFallbackStarted
  | EventFallbackCompleted | EventScopeOpened | EventScopeClosed | EventEngineClosing
  | EventEngineClosed

record Event =
  ev_Kind :: EventKind
  ev_Operation :: string
  ev_Partition :: string
  ev_ScopeID :: string
  ev_BatchID :: nat
  ev_Count :: nat
  ev_FlushReason :: FlushReason
  ev_ErrorClass :: string

record counters =
  n_activePartitions :: int
  n_queuedItems :: int
  n_queuedWaiters :: int
  n_activeProviderCalls :: int
  n_batches :: nat
  n_totalBatchItems :: nat
  n_maxBatchSize :: int
  n_inFlightJoins :: nat
  n_memoHits :: nat
  n_fallbacks :: nat
  n_providerErrors :: nat
  n_itemErrors :: nat
  n_queueRejections :: nat
  n_flushReasons :: "FlushReason \<Rightarrow> nat"
  n_totalRequests :: nat
  n_totalProviderCalls :: nat
  n_totalBackendItems :: nat
  n_totalCallsSaved :: nat
  n_totalFallbacks :: nat
  n_totalCancellations :: nat
  n_totalContractViolations :: nat

record 'k workerCall =
  k_batchID :: nat
  k_deadline :: "gotime option"
  k_opID :: string
  k_part :: string
  k_req :: "'k BatchRequest"

record 'k bindingConfig =
  cf_opID :: string
  cf_limits :: QueueLimits
  cf_overflow :: OverflowPolicy
  cf_flushMode :: flushMode
  cf_sched :: schedLimits
  cf_maxBatchWeight :: int
  cf_maxBatchBytes :: int
  cf_deadlineMargin :: duration
  cf_dedupEnabled :: bool
  cf_keys :: "'k KeyStrategy"
  cf_hooks :: bool

record ('k, 'v) coordinator =
  c_heap :: "addr \<Rightarrow> 'k qitem"
  c_next :: addr
  c_partitions :: "(string, partitionState) gomap"
  c_inflight :: "(nat, batchInflight) gomap"
  c_blocked :: "'k submitReq list"
  c_timer :: "duration option"
  c_timerActive :: bool
  c_activeProvider :: int
  c_batchSeq :: nat
  c_submitSeq :: int
  c_closing :: bool
  c_done :: bool
  c_counters :: counters
  c_barriers :: "barrier list"
  c_dyn :: "dynamicSettings option"
  e_requestSeq :: u64
  e_reads :: nat
  o_deliveries :: "(chan \<times> 'v res) list"
  o_replies :: "(chan \<times> rt_error option) list"
  o_workers :: "'k workerCall list"
  o_cancels :: "nat list"
  o_events :: "Event list"

type_synonym clock = "nat \<Rightarrow> gotime"
type_synonym ('k, 'v) coord_op = "('k, 'v) coordinator \<Rightarrow> ('k, 'v) coordinator"

fun earliestLoop :: "waiter list \<Rightarrow> gotime \<Rightarrow> bool \<Rightarrow> gotime \<times> bool" where
  "earliestLoop [] best found = (best, found)"
| "earliestLoop (w # ws) best found =
     (if w_active w \<and> w_hasDeadline w \<and> (\<not> found \<or> w_deadline w < best)
      then earliestLoop ws (w_deadline w) True
      else earliestLoop ws best found)"

definition item_earliestDeadline :: "'k qitem \<Rightarrow> gotime \<times> bool" where
  "item_earliestDeadline it = earliestLoop (q_waiters it) 0 False"

fun latestLoop :: "waiter list \<Rightarrow> gotime \<Rightarrow> bool \<Rightarrow> bool \<Rightarrow> gotime \<times> bool" where
  "latestLoop [] best all any = (best, any \<and> all)"
| "latestLoop (w # ws) best all any =
     (if \<not> w_active w then latestLoop ws best all any
      else if \<not> w_hasDeadline w then latestLoop ws best False True
      else latestLoop ws (if w_deadline w > best then w_deadline w else best) all True)"

definition item_latestDeadline :: "'k qitem \<Rightarrow> gotime \<times> bool" where
  "item_latestDeadline it = latestLoop (q_waiters it) 0 True False"

section \<open>Access to the state\<close>

definition partOf :: "('k, 'v) coordinator \<Rightarrow> string \<Rightarrow> partitionState option" where
  "partOf c pk = map_of (c_partitions c) pk"

definition pendingOf :: "('k, 'v) coordinator \<Rightarrow> string \<Rightarrow> addr list" where
  "pendingOf c pk = (case partOf c pk of None \<Rightarrow> [] | Some p \<Rightarrow> p_pending p)"

definition updPart :: "string \<Rightarrow> (partitionState \<Rightarrow> partitionState) \<Rightarrow> ('k, 'v) coord_op" where
  "updPart pk f c = c\<lparr>c_partitions := AList.map_entry pk f (c_partitions c)\<rparr>"

definition updItem :: "addr \<Rightarrow> ('k qitem \<Rightarrow> 'k qitem) \<Rightarrow> ('k, 'v) coord_op" where
  "updItem a f c = c\<lparr>c_heap := (c_heap c)(a := f (c_heap c a))\<rparr>"

definition tally :: "(counters \<Rightarrow> counters) \<Rightarrow> ('k, 'v) coord_op" where
  "tally f c = c\<lparr>c_counters := f (c_counters c)\<rparr>"

definition reply :: "chan \<Rightarrow> rt_error option \<Rightarrow> ('k, 'v) coord_op" where
  "reply ch e c = c\<lparr>o_replies := o_replies c @ [(ch, e)]\<rparr>"

definition emit ::
  "'k bindingConfig \<Rightarrow> EventKind \<Rightarrow> string \<Rightarrow> nat \<Rightarrow> nat \<Rightarrow> FlushReason \<Rightarrow> string \<Rightarrow> ('k, 'v) coord_op" where
  "emit cfg kind part bid n reason errClass c =
     (if \<not> cf_hooks cfg then c
      else c\<lparr>o_events := o_events c @ [\<lparr>ev_Kind = kind, ev_Operation = cf_opID cfg,
               ev_Partition = part, ev_ScopeID = [], ev_BatchID = bid, ev_Count = n, ev_FlushReason = reason,
               ev_ErrorClass = errClass\<rparr>]\<rparr>)"

section \<open>Queue handling (coordinator_handlers.go)\<close>

definition activePartitionsGauge :: "('k, 'v) coord_op" where
  "activePartitionsGauge c =
     tally (\<lambda>n. n\<lparr>n_activePartitions := int (length (c_partitions c))\<rparr>) c"

definition maybeRetire :: "string \<Rightarrow> ('k, 'v) coord_op" where
  "maybeRetire pk c =
     (case partOf c pk of
        None \<Rightarrow> c
      | Some p \<Rightarrow>
          if p_live p = 0 \<and> p_active p = []
          then activePartitionsGauge (c\<lparr>c_partitions := AList.delete pk (c_partitions c)\<rparr>)
          else c)"

definition bucketRemove :: "addr \<Rightarrow> u64 \<Rightarrow> (u64, addr list) gomap \<Rightarrow> (u64, addr list) gomap" where
  "bucketRemove a h m =
     (let bucket = remove1 a (goget m h)
      in if bucket = [] then AList.delete h m else AList.update h bucket m)"

definition removeActive :: "string \<Rightarrow> addr \<Rightarrow> ('k, 'v) coord_op" where
  "removeActive pk a c =
     updPart pk (\<lambda>p. p\<lparr>p_active := bucketRemove a (q_hash (c_heap c a)) (p_active p)\<rparr>) c"

definition removePendingItem :: "string \<Rightarrow> addr \<Rightarrow> ('k, 'v) coord_op" where
  "removePendingItem pk a c =
     (let it = c_heap c a;
          c = updPart pk (\<lambda>p. p\<lparr>p_pending := remove1 a (p_pending p)\<rparr>) c;
          c = removeActive pk a c;
          c = updPart pk (\<lambda>p. p\<lparr>p_bytes := i64 (p_bytes p - q_bytes it)\<rparr>) c;
          c = updPart pk (\<lambda>p. p\<lparr>p_weight := i64 (p_weight p - q_weight it)\<rparr>) c;
          c = updPart pk (\<lambda>p. p\<lparr>p_live := p_live p - 1\<rparr>) c;
          c = tally (\<lambda>n. n\<lparr>n_queuedItems := n_queuedItems n - 1\<rparr>) c
      in maybeRetire pk c)"

definition nextSeq :: "('k, 'v) coordinator \<Rightarrow> int \<times> ('k, 'v) coordinator" where
  "nextSeq c = (c_submitSeq c + 1, c\<lparr>c_submitSeq := c_submitSeq c + 1\<rparr>)"

text \<open>
  Engine.nextRequestID: the loop around the atomic counter that skips zero, the invalid
  identifier, when the 64-bit counter wraps.
\<close>

function nextRequestIDLoop :: "u64 \<Rightarrow> u64" where
  "nextRequestIDLoop s = (let i = s + 1 in if i \<noteq> 0 then i else nextRequestIDLoop i)"
  by pat_completeness auto
termination
proof (relation "measure (\<lambda>s. if s = - 1 then 1 else 0)")
  fix s i :: u64
  assume i: "i = s + 1" "\<not> i \<noteq> 0"
  then have "s = - 1" by (simp add: eq_neg_iff_add_eq_0)
  with i show "(i, s) \<in> measure (\<lambda>s. if s = - 1 then 1 else 0)" by simp
qed simp

declare nextRequestIDLoop.simps [simp del]

definition nextRequestID :: "('k, 'v) coordinator \<Rightarrow> u64 \<times> ('k, 'v) coordinator" where
  "nextRequestID c =
     (let i = nextRequestIDLoop (e_requestSeq c) in (i, c\<lparr>e_requestSeq := i\<rparr>))"

definition clockNow :: "clock \<Rightarrow> ('k, 'v) coordinator \<Rightarrow> gotime \<times> ('k, 'v) coordinator" where
  "clockNow clk c = (clk (e_reads c), c\<lparr>e_reads := Suc (e_reads c)\<rparr>)"

definition deliver ::
  "waiter \<Rightarrow> 'v res \<Rightarrow> ('k, 'v) coordinator \<Rightarrow> waiter \<times> ('k, 'v) coordinator" where
  "deliver w r c =
     (if \<not> w_active w then (w, c)
      else (w\<lparr>w_active := False\<rparr>,
            tally (\<lambda>n. n\<lparr>n_queuedWaiters := n_queuedWaiters n - 1\<rparr>)
              (c\<lparr>o_deliveries := o_deliveries c @ [(w_ch w, r)]\<rparr>)))"

fun deliverLoop ::
  "waiter list \<Rightarrow> 'v res \<Rightarrow> ('k, 'v) coordinator \<Rightarrow> waiter list \<times> ('k, 'v) coordinator" where
  "deliverLoop [] r c = ([], c)"
| "deliverLoop (w # ws) r c =
     (let (w', c') = deliver w r c; (ws', c'') = deliverLoop ws r c' in (w' # ws', c''))"

definition deliverItem :: "addr \<Rightarrow> 'v res \<Rightarrow> ('k, 'v) coord_op" where
  "deliverItem a r c =
     (let (ws, c') = deliverLoop (q_waiters (c_heap c a)) r c
      in updItem a (\<lambda>it. it\<lparr>q_waiters := ws\<rparr>) c')"

definition overLimits ::
  "'k bindingConfig \<Rightarrow> partitionState \<Rightarrow> 'k submitReq \<Rightarrow> string option" where
  "overLimits cfg p req =
     (let l = cf_limits cfg in
      if MaxItems l > 0 \<and> int (length (p_pending p)) + 1 > MaxItems l then Some ''items''
      else if MaxWaiters l > 0 \<and> p_waiters p + 1 > MaxWaiters l then Some ''waiters''
      else if MaxBytes l > 0 \<and> i64 (p_bytes p + s_bytes req) > MaxBytes l then Some ''bytes''
      else if MaxWeight l > 0 \<and> i64 (p_weight p + s_weight req) > MaxWeight l then Some ''weight''
      else None)"

definition overflow ::
  "'k bindingConfig \<Rightarrow> 'k submitReq \<Rightarrow> string \<Rightarrow> bool \<Rightarrow> ('k, 'v) coord_op" where
  "overflow cfg req category isPart c =
     (case cf_overflow cfg of
        OverflowFallback \<Rightarrow> reply (s_reply req) (Some errFallbackSentinel) c
      | OverflowBlock \<Rightarrow> c\<lparr>c_blocked := c_blocked c @ [req]\<rparr>
      | OverflowReject \<Rightarrow>
          (let c = tally (\<lambda>n. n\<lparr>n_queueRejections := Suc (n_queueRejections n)\<rparr>) c;
               c = emit cfg EventRequestRejected (encoded (s_part req)) 0 0 FlushManual category c
           in if isPart
              then reply (s_reply req)
                (Some (PartitionLimitError (cf_opID cfg) (MaxPartitions (cf_limits cfg)))) c
              else reply (s_reply req) (Some (QueueFullError (cf_opID cfg) category)) c))"

definition findJoin ::
  "'k bindingConfig \<Rightarrow> ('k, 'v) coordinator \<Rightarrow> partitionState \<Rightarrow> 'k submitReq \<Rightarrow> addr option" where
  "findJoin cfg c p req =
     (if cf_dedupEnabled cfg
      then List.find (\<lambda>a. Equal (cf_keys cfg) (q_key (c_heap c a)) (s_key req))
             (goget (p_active p) (s_hash req))
      else None)"

definition joinItem :: "'k bindingConfig \<Rightarrow> addr \<Rightarrow> 'k submitReq \<Rightarrow> ('k, 'v) coord_op" where
  "joinItem cfg a req c =
     (let pk = encoded (s_part req);
          c = updItem a (\<lambda>it. it\<lparr>q_waiters := q_waiters it @ [s_waiter req],
                                q_activeWaiters := q_activeWaiters it + 1\<rparr>) c;
          c = updPart pk (\<lambda>p. p\<lparr>p_waiters := p_waiters p + 1\<rparr>) c;
          c = tally (\<lambda>n. n\<lparr>n_queuedWaiters := n_queuedWaiters n + 1,
                           n_inFlightJoins := Suc (n_inFlightJoins n),
                           n_totalCallsSaved := Suc (n_totalCallsSaved n),
                           n_totalRequests := Suc (n_totalRequests n)\<rparr>) c;
          c = reply (s_reply req) None c
      in emit cfg EventRequestJoinedInFlight pk 0 0 FlushManual '''' c)"

definition enqueueItem :: "'k bindingConfig \<Rightarrow> clock \<Rightarrow> 'k submitReq \<Rightarrow> ('k, 'v) coord_op" where
  "enqueueItem cfg clk req c =
     (let pk = encoded (s_part req);
          (i, c) = nextRequestID c;
          (now, c) = clockNow clk c;
          (sq, c) = nextSeq c;
          a = c_next c;
          it = \<lparr>q_id = i, q_seq = sq, q_key = s_key req, q_hash = s_hash req,
                q_weight = s_weight req, q_bytes = s_bytes req, q_enqueue = now,
                q_waiters = [s_waiter req], q_activeWaiters = 1, q_dispatched = False,
                q_batchID = 0\<rparr>;
          c = c\<lparr>c_heap := (c_heap c)(a := it), c_next := Suc a\<rparr>;
          c = updPart pk (\<lambda>p. p\<lparr>
                p_active := AList.update (s_hash req)
                  (goget (p_active p) (s_hash req) @ [a]) (p_active p),
                p_pending := p_pending p @ [a],
                p_bytes := i64 (p_bytes p + q_bytes it),
                p_weight := i64 (p_weight p + q_weight it),
                p_waiters := p_waiters p + 1,
                p_live := p_live p + 1\<rparr>) c;
          c = tally (\<lambda>n. n\<lparr>n_queuedItems := n_queuedItems n + 1,
                           n_queuedWaiters := n_queuedWaiters n + 1,
                           n_totalRequests := Suc (n_totalRequests n)\<rparr>) c;
          c = reply (s_reply req) None c
      in emit cfg EventRequestSubmitted pk 0 0 FlushManual '''' c)"

definition submitInto ::
  "'k bindingConfig \<Rightarrow> clock \<Rightarrow> 'k submitReq \<Rightarrow> partitionState \<Rightarrow> ('k, 'v) coord_op" where
  "submitInto cfg clk req p c =
     (case findJoin cfg c p req of
        Some a \<Rightarrow> joinItem cfg a req c
      | None \<Rightarrow>
          (case overLimits cfg p req of
             Some category \<Rightarrow> overflow cfg req category False c
           | None \<Rightarrow> enqueueItem cfg clk req c))"

definition newPartitionState :: "Partition \<Rightarrow> partitionState" where
  "newPartitionState part = \<lparr>p_part = part, p_pending = [], p_active = [], p_bytes = 0,
     p_weight = 0, p_waiters = 0, p_live = 0\<rparr>"

definition handleSubmit :: "'k bindingConfig \<Rightarrow> clock \<Rightarrow> 'k submitReq \<Rightarrow> ('k, 'v) coord_op" where
  "handleSubmit cfg clk req c =
     (if c_closing c
      then reply (s_reply req) (Some ErrEngineClosing)
             (tally (\<lambda>n. n\<lparr>n_queueRejections := Suc (n_queueRejections n)\<rparr>) c)
      else
        (let pk = encoded (s_part req); l = cf_limits cfg in
         case partOf c pk of
           Some p \<Rightarrow> submitInto cfg clk req p c
         | None \<Rightarrow>
             if MaxPartitions l > 0 \<and> int (length (c_partitions c)) \<ge> MaxPartitions l
             then overflow cfg req ''partitions'' True c
             else
               (let p = newPartitionState (s_part req);
                    c = c\<lparr>c_partitions := AList.update pk p (c_partitions c)\<rparr>
                in submitInto cfg clk req p (activePartitionsGauge c))))"

fun submitAll :: "'k bindingConfig \<Rightarrow> clock \<Rightarrow> 'k submitReq list \<Rightarrow> ('k, 'v) coord_op" where
  "submitAll cfg clk [] c = c"
| "submitAll cfg clk (r # rs) c = submitAll cfg clk rs (handleSubmit cfg clk r c)"

definition retryBlocked :: "'k bindingConfig \<Rightarrow> clock \<Rightarrow> ('k, 'v) coord_op" where
  "retryBlocked cfg clk c =
     (if c_blocked c = [] then c
      else submitAll cfg clk (c_blocked c) (c\<lparr>c_blocked := []\<rparr>))"

fun removeBlocked :: "u64 \<Rightarrow> 'k submitReq list \<Rightarrow> 'k submitReq list" where
  "removeBlocked i [] = []"
| "removeBlocked i (r # rs) = (if w_id (s_waiter r) = i then rs else r # removeBlocked i rs)"

text \<open>The search of handleCancel: the first item of the index with an active waiter of that id.\<close>

definition waiterMatches :: "u64 \<Rightarrow> waiter \<Rightarrow> bool" where
  "waiterMatches i w \<longleftrightarrow> w_id w = i \<and> w_active w"

definition findWaiter :: "('k, 'v) coordinator \<Rightarrow> partitionState \<Rightarrow> u64 \<Rightarrow> addr option" where
  "findWaiter c p i =
     List.find (\<lambda>a. \<exists>w\<in>set (q_waiters (c_heap c a)). waiterMatches i w)
       (concat (map snd (p_active p)))"

fun deactivate :: "u64 \<Rightarrow> waiter list \<Rightarrow> waiter list" where
  "deactivate i [] = []"
| "deactivate i (w # ws) =
     (if waiterMatches i w then w\<lparr>w_active := False\<rparr> # ws else w # deactivate i ws)"

definition cancelBatchContext :: "nat \<Rightarrow> ('k, 'v) coord_op" where
  "cancelBatchContext b c = c\<lparr>o_cancels := o_cancels c @ [b]\<rparr>"

definition cancelWaiter :: "'k bindingConfig \<Rightarrow> string \<Rightarrow> addr \<Rightarrow> u64 \<Rightarrow> ('k, 'v) coord_op" where
  "cancelWaiter cfg pk a i c =
     (let c = updItem a (\<lambda>it. it\<lparr>q_waiters := deactivate i (q_waiters it),
                                q_activeWaiters := q_activeWaiters it - 1\<rparr>) c;
          c = updPart pk (\<lambda>p. p\<lparr>p_waiters := p_waiters p - 1\<rparr>) c;
          c = tally (\<lambda>n. n\<lparr>n_queuedWaiters := n_queuedWaiters n - 1,
                           n_totalCancellations := Suc (n_totalCancellations n)\<rparr>) c;
          c = emit cfg EventRequestCanceled pk 0 0 FlushManual '''' c;
          it = c_heap c a
      in if q_activeWaiters it = 0 then
           (if \<not> q_dispatched it then removePendingItem pk a c
            else
              (case map_of (c_inflight c) (q_batchID it) of
                 None \<Rightarrow> c
               | Some b \<Rightarrow>
                   (let b = b\<lparr>b_activeWaiters := b_activeWaiters b - 1\<rparr>;
                        c = c\<lparr>c_inflight := AList.update (q_batchID it) b (c_inflight c)\<rparr>
                    in if b_activeWaiters b = 0 then cancelBatchContext (b_id b) c else c)))
         else c)"

definition handleCancel :: "'k bindingConfig \<Rightarrow> cancelReq \<Rightarrow> ('k, 'v) coord_op" where
  "handleCancel cfg cr c =
     (if x_blocked cr then c\<lparr>c_blocked := removeBlocked (x_waiterID cr) (c_blocked c)\<rparr>
      else
        (case partOf c (x_part cr) of
           None \<Rightarrow> c
         | Some p \<Rightarrow>
             (case findWaiter c p (x_waiterID cr) of
                None \<Rightarrow> c
              | Some a \<Rightarrow> cancelWaiter cfg (x_part cr) a (x_waiterID cr) c)))"

end
