(* ===== verification/Coordinator_Dispatch.thy ===== *)
theory Coordinator_Dispatch
  imports Coordinator
begin

text \<open>
  Scheduling, dispatch, completion and control of the coordinator
  (runtime/coordinator_dispatch.go), and one iteration of its event loop
  (coordinator.run in runtime/coordinator.go). The scheduling loop of one partition
  terminates because every round takes at least the first pending item off the queue.
\<close>

section \<open>Batch selection\<close>

definition itemTooLarge :: "'k bindingConfig \<Rightarrow> 'k qitem \<Rightarrow> bool" where
  "itemTooLarge cfg it \<longleftrightarrow>
     (cf_maxBatchWeight cfg > 0 \<and> q_weight it > cf_maxBatchWeight cfg) \<or>
     (cf_maxBatchBytes cfg > 0 \<and> q_bytes it > cf_maxBatchBytes cfg)"

definition fits ::
  "'k bindingConfig \<Rightarrow> dynamicSettings option \<Rightarrow> int \<Rightarrow> int \<Rightarrow> int \<Rightarrow> 'k qitem \<Rightarrow> bool" where
  "fits cfg dyn cnt weight bytes it \<longleftrightarrow>
     (let mbs = effectiveMaxBatchSize (cf_sched cfg) dyn in
      if mbs > 0 \<and> cnt + 1 > mbs then False
      else if cf_maxBatchWeight cfg > 0 \<and> i64 (weight + q_weight it) > cf_maxBatchWeight cfg then False
      else if cf_maxBatchBytes cfg > 0 \<and> i64 (bytes + q_bytes it) > cf_maxBatchBytes cfg then False
      else True)"

definition clampWeight :: "int \<Rightarrow> int" where
  "clampWeight w = (if w < 1 then 1 else if w > 2 ^ 63 - 1 then 2 ^ 63 - 1 else w)"

definition errRes :: "rt_error \<Rightarrow> 'v res" where
  "errRes e = \<lparr>res_value = None, res_err = Some e, res_found = False\<rparr>"

definition decLive :: "string \<Rightarrow> ('k, 'v) coord_op" where
  "decLive pk = updPart pk (\<lambda>p. p\<lparr>p_live := p_live p - 1\<rparr>)"

definition decQueued :: "('k, 'v) coord_op" where
  "decQueued = tally (\<lambda>n. n\<lparr>n_queuedItems := n_queuedItems n - 1\<rparr>)"

definition failItem :: "string \<Rightarrow> addr \<Rightarrow> rt_error \<Rightarrow> ('k, 'v) coord_op" where
  "failItem pk a e c = decLive pk (removeActive pk a (deliverItem a (errRes e) c))"

record 'k selection =
  sl_selected :: "addr list"
  sl_items :: "'k BatchItem list"
  sl_count :: int
  sl_weight :: int
  sl_bytes :: int
  sl_minSeq :: int
  sl_remaining :: "addr list"

definition noSelection :: "'k selection" where
  "noSelection = \<lparr>sl_selected = [], sl_items = [], sl_count = 0, sl_weight = 0, sl_bytes = 0,
     sl_minSeq = 2 ^ 64 - 1, sl_remaining = []\<rparr>"

definition batchItemOf :: "'k qitem \<Rightarrow> 'k BatchItem" where
  "batchItemOf it =
     (let bi = WithWeight (clampWeight (q_weight it)) (NewBatchItem (q_id it) (q_key it));
          (t, ok) = item_earliestDeadline it
      in if ok then WithDeadline t bi else bi)"

definition selectItem :: "addr \<Rightarrow> 'k qitem \<Rightarrow> 'k selection \<Rightarrow> 'k selection" where
  "selectItem a it s = s\<lparr>
     sl_selected := sl_selected s @ [a],
     sl_items := sl_items s @ [batchItemOf it],
     sl_count := sl_count s + 1,
     sl_weight := i64 (sl_weight s + q_weight it),
     sl_bytes := i64 (sl_bytes s + q_bytes it),
     sl_minSeq := (if q_seq it < sl_minSeq s then q_seq it else sl_minSeq s)\<rparr>"

fun selectLoop ::
  "'k bindingConfig \<Rightarrow> string \<Rightarrow> addr list \<Rightarrow> 'k selection \<Rightarrow> ('k, 'v) coordinator \<Rightarrow>
   'k selection \<times> ('k, 'v) coordinator" where
  "selectLoop cfg pk [] s c = (s, c)"
| "selectLoop cfg pk (a # as) s c =
     (let it = c_heap c a in
      if q_activeWaiters it = 0
        then selectLoop cfg pk as s (decQueued (decLive pk (removeActive pk a c)))
      else if sl_selected s = [] \<and> itemTooLarge cfg it
        then selectLoop cfg pk as s (decQueued (failItem pk a ErrItemTooLarge c))
      else if sl_selected s \<noteq> [] \<and>
          \<not> fits cfg (c_dyn c) (sl_count s) (sl_weight s) (sl_bytes s) it
        then selectLoop cfg pk as (s\<lparr>sl_remaining := sl_remaining s @ [a]\<rparr>) c
      else selectLoop cfg pk as (selectItem a it s) c)"

section \<open>Dispatch\<close>

fun batchDeadlineLoop :: "'k qitem list \<Rightarrow> gotime \<Rightarrow> bool \<Rightarrow> bool \<Rightarrow> gotime option" where
  "batchDeadlineLoop [] latest allDeadlined any =
     (if any \<and> allDeadlined then Some latest else None)"
| "batchDeadlineLoop (it # its) latest allDeadlined any =
     (let (t, ok) = item_latestDeadline it in
      if \<not> ok then batchDeadlineLoop its latest False any
      else batchDeadlineLoop its (if t > latest then t else latest) allDeadlined True)"

definition batchContext :: "'k qitem list \<Rightarrow> gotime option" where
  "batchContext its = batchDeadlineLoop its 0 True False"

definition recordBatch :: "nat \<Rightarrow> FlushReason \<Rightarrow> counters \<Rightarrow> counters" where
  "recordBatch sz reason n = n\<lparr>
     n_batches := Suc (n_batches n),
     n_totalBatchItems := n_totalBatchItems n + sz,
     n_maxBatchSize := (if int sz \<le> n_maxBatchSize n then n_maxBatchSize n else int sz),
     n_flushReasons := (n_flushReasons n)(reason := Suc (n_flushReasons n reason))\<rparr>"

definition nextBatchID :: "('k, 'v) coordinator \<Rightarrow> nat \<times> ('k, 'v) coordinator" where
  "nextBatchID c = (Suc (c_batchSeq c), c\<lparr>c_batchSeq := Suc (c_batchSeq c)\<rparr>)"

fun markDispatched :: "nat \<Rightarrow> addr list \<Rightarrow> ('k, 'v) coord_op" where
  "markDispatched bid [] c = c"
| "markDispatched bid (a # as) c =
     markDispatched bid as (updItem a (\<lambda>it. it\<lparr>q_dispatched := True, q_batchID := bid\<rparr>) c)"

fun failRequest :: "'k bindingConfig \<Rightarrow> string \<Rightarrow> request_error \<Rightarrow> addr list \<Rightarrow> ('k, 'v) coord_op" where
  "failRequest cfg pk e [] c = c"
| "failRequest cfg pk e (a # as) c =
     failRequest cfg pk e as
       (decQueued (failItem pk a (ContractError (cf_opID cfg) (RequestReason e)) c))"

definition startWorker :: "'k workerCall \<Rightarrow> ('k, 'v) coord_op" where
  "startWorker wk c = c\<lparr>o_workers := o_workers c @ [wk]\<rparr>"

text \<open>
  The tail of dispatchBatch once a request has been built, in the order of the code: queue
  accounting, the in-flight record, counters and events, the worker.
\<close>

definition takeSelected :: "string \<Rightarrow> 'k selection \<Rightarrow> ('k, 'v) coord_op" where
  "takeSelected pk s c =
     (let c = updPart pk (\<lambda>p. p\<lparr>p_bytes := i64 (p_bytes p - sl_bytes s),
                               p_weight := i64 (p_weight p - sl_weight s)\<rparr>) c
      in tally (\<lambda>k. k\<lparr>n_queuedItems := n_queuedItems k - int (length (sl_selected s))\<rparr>) c)"

definition registerBatch :: "string \<Rightarrow> 'k selection \<Rightarrow> nat \<Rightarrow> ('k, 'v) coord_op" where
  "registerBatch pk s bid c =
     (let w = (\<Sum>a\<leftarrow>sl_selected s. q_activeWaiters (c_heap c a));
          c = markDispatched bid (sl_selected s) c
      in c\<lparr>c_inflight := AList.update bid \<lparr>b_id = bid, b_items = sl_selected s,
             b_activeWaiters = w, b_partition = pk, b_minSeq = sl_minSeq s\<rparr> (c_inflight c),
           c_activeProvider := c_activeProvider c + 1\<rparr>)"

definition announceBatch ::
  "'k bindingConfig \<Rightarrow> string \<Rightarrow> FlushReason \<Rightarrow> nat \<Rightarrow> nat \<Rightarrow> ('k, 'v) coord_op" where
  "announceBatch cfg pk reason bid n c =
     (let c = tally (\<lambda>k. k\<lparr>n_activeProviderCalls := c_activeProvider c,
                           n_totalProviderCalls := Suc (n_totalProviderCalls k),
                           n_totalBackendItems := n_totalBackendItems k + n\<rparr>) c;
          c = tally (recordBatch n reason) c;
          c = emit cfg EventBatchSelected pk bid n reason '''' c
      in emit cfg EventBatchDispatched pk bid n reason '''' c)"

definition launchBatch ::
  "'k bindingConfig \<Rightarrow> string \<Rightarrow> FlushReason \<Rightarrow> 'k selection \<Rightarrow> 'k BatchRequest \<Rightarrow> ('k, 'v) coord_op" where
  "launchBatch cfg pk reason s req c =
     (let c = takeSelected pk s c;
          (bid, c) = nextBatchID c;
          dl = batchContext (map (c_heap c) (sl_selected s));
          c = registerBatch pk s bid c;
          c = announceBatch cfg pk reason bid (length (sl_selected s)) c
      in startWorker \<lparr>k_batchID = bid, k_deadline = dl, k_opID = cf_opID cfg, k_part = pk,
           k_req = req\<rparr> c)"

fun dispatchSelected ::
  "'k bindingConfig \<Rightarrow> string \<Rightarrow> FlushReason \<Rightarrow> 'k selection \<times> ('k, 'v) coordinator \<Rightarrow> ('k, 'v) coordinator" where
  "dispatchSelected cfg pk reason (s, c) =
     (let c = updPart pk (\<lambda>p. p\<lparr>p_pending := sl_remaining s\<rparr>) c
      in if sl_selected s = [] then c
         else
           (case NewBatchRequest (sl_items s) of
              Inl e \<Rightarrow> failRequest cfg pk e (sl_selected s) c
            | Inr req \<Rightarrow> launchBatch cfg pk reason s req c))"

definition dispatchBatch :: "'k bindingConfig \<Rightarrow> string \<Rightarrow> FlushReason \<Rightarrow> ('k, 'v) coord_op" where
  "dispatchBatch cfg pk reason c =
     dispatchSelected cfg pk reason (selectLoop cfg pk (pendingOf c pk) noSelection c)"

section \<open>Scheduling\<close>

fun partEarliestLoop :: "'k qitem list \<Rightarrow> gotime \<Rightarrow> bool \<Rightarrow> gotime \<times> bool" where
  "partEarliestLoop [] best found = (best, found)"
| "partEarliestLoop (it # its) best found =
     (let (t, ok) = item_earliestDeadline it in
      if ok \<and> (\<not> found \<or> t < best) then partEarliestLoop its t True
      else partEarliestLoop its best found)"

definition earliestDeadline :: "('k, 'v) coordinator \<Rightarrow> partitionState \<Rightarrow> gotime \<times> bool" where
  "earliestDeadline c p = partEarliestLoop (map (c_heap c) (p_pending p)) 0 False"

definition shouldDispatch ::
  "'k bindingConfig \<Rightarrow> ('k, 'v) coordinator \<Rightarrow> partitionState \<Rightarrow> bool \<Rightarrow> gotime \<Rightarrow> FlushReason option" where
  "shouldDispatch cfg c p force now =
     (case p_pending p of
        [] \<Rightarrow> None
      | a # _ \<Rightarrow>
          if force then Some FlushManual
          else if int (length (p_pending p)) \<ge> effectiveMaxBatchSize (cf_sched cfg) (c_dyn c)
            then Some FlushSize
          else if cf_maxBatchWeight cfg > 0 \<and> p_weight p \<ge> cf_maxBatchWeight cfg then Some FlushWeight
          else if cf_maxBatchBytes cfg > 0 \<and> p_bytes p \<ge> cf_maxBatchBytes cfg then Some FlushBytes
          else
            (let maxWait = effectiveMaxWait (cf_sched cfg) (c_dyn c);
                 waited = maxWait > 0 \<and> \<not> now < q_enqueue (c_heap c a) + maxWait
             in case cf_flushMode cfg of
                  flushImmediate \<Rightarrow> Some FlushWait
                | flushManual \<Rightarrow> None
                | flushFixedWindow \<Rightarrow> (if waited then Some FlushWait else None)
                | flushDeadlineAware \<Rightarrow>
                    (if waited then Some FlushWait
                     else
                       (let (t, ok) = earliestDeadline c p in
                        if ok \<and> \<not> now < t - cf_deadlineMargin cfg then Some FlushDeadline
                        else None))))"

lemma pendingOf_updPart:
  "pendingOf (updPart pk f c) k =
     (if k = pk then (case partOf c pk of None \<Rightarrow> [] | Some p \<Rightarrow> p_pending (f p)) else pendingOf c k)"
  by (simp add: pendingOf_def partOf_def updPart_def split: option.split)

lemma partOf_updPart [simp]:
  "partOf (updPart pk f c) k = (if k = pk then map_option f (partOf c pk) else partOf c k)"
  by (simp add: partOf_def updPart_def)

lemma partOf_tally [simp]: "partOf (tally f c) k = partOf c k"
  by (simp add: partOf_def tally_def)

lemma pendingOf_removePendingItem:
  assumes "a \<in> set (pendingOf c pk)"
  shows "length (pendingOf (removePendingItem pk a c) pk) < length (pendingOf c pk)"
proof -
  obtain p where p: "partOf c pk = Some p" and a: "a \<in> set (p_pending p)"
    using assms by (cases "partOf c pk") (auto simp: pendingOf_def)
  from a have "length (remove1 a (p_pending p)) < length (p_pending p)"
    by (metis One_nat_def diff_less length_pos_if_in_set length_remove1 zero_less_one)
  with p a show ?thesis
    by (auto simp: removePendingItem_def removeActive_def maybeRetire_def activePartitionsGauge_def
      Let_def pendingOf_def partOf_def updPart_def tally_def)
qed

function prune :: "string \<Rightarrow> ('k, 'v) coord_op" where
  "prune pk c =
     (case pendingOf c pk of
        [] \<Rightarrow> c
      | a # _ \<Rightarrow>
          if q_activeWaiters (c_heap c a) = 0 then prune pk (removePendingItem pk a c) else c)"
  by pat_completeness auto
termination
proof (relation "measure (\<lambda>(pk, c). length (pendingOf c pk))")
  fix pk and c :: "('k, 'v) coordinator" and a as
  assume "pendingOf c pk = a # as"
  then show "((pk, removePendingItem pk a c), pk, c) \<in> measure (\<lambda>(pk, c). length (pendingOf c pk))"
    using pendingOf_removePendingItem [of a c pk] by simp
qed simp

declare prune.simps [simp del]

subsection \<open>Closed forms and frames of the small operations\<close>

lemma waiter_inactive [simp]: "\<not> w_active w \<Longrightarrow> w\<lparr>w_active := False\<rparr> = w"
  by (cases w) simp

lemma deliverLoop_eq:
  "deliverLoop ws r c =
     (map (\<lambda>w. w\<lparr>w_active := False\<rparr>) ws,
      c\<lparr>o_deliveries := o_deliveries c @ map (\<lambda>w. (w_ch w, r)) (filter w_active ws),
        c_counters := (c_counters c)\<lparr>n_queuedWaiters :=
          n_queuedWaiters (c_counters c) - int (length (filter w_active ws))\<rparr>\<rparr>)"
  by (induction ws r c rule: deliverLoop.induct) (auto simp: deliver_def tally_def)

lemma deliverItem_eq:
  "deliverItem a r c =
     c\<lparr>c_heap := (c_heap c)(a := (c_heap c a)\<lparr>q_waiters :=
          map (\<lambda>w. w\<lparr>w_active := False\<rparr>) (q_waiters (c_heap c a))\<rparr>),
       o_deliveries := o_deliveries c @
          map (\<lambda>w. (w_ch w, r)) (filter w_active (q_waiters (c_heap c a))),
       c_counters := (c_counters c)\<lparr>n_queuedWaiters := n_queuedWaiters (c_counters c) -
          int (length (filter w_active (q_waiters (c_heap c a))))\<rparr>\<rparr>"
  by (simp add: deliverItem_def deliverLoop_eq updItem_def)

lemmas small_ops =
  updPart_def updItem_def tally_def reply_def emit_def decLive_def decQueued_def
  removeActive_def failItem_def deliverItem_eq

text \<open>What dispatch leaves alone while it selects: queues, in-flight table, settings.\<close>

lemma selectLoop_step_frame:
  "pendingOf (removeActive pk a c) k = pendingOf c k"
  "pendingOf (decLive pk c) k = pendingOf c k"
  "pendingOf (decQueued c) k = pendingOf c k"
  "pendingOf (deliverItem a r c) k = pendingOf c k"
  "pendingOf (failItem pk a e c) k = pendingOf c k"
  by (simp_all add: small_ops pendingOf_def partOf_def split: option.split)

lemma selectLoop_frame:
  "pendingOf (snd (selectLoop cfg pk as s c)) k = pendingOf c k"
  "c_dyn (snd (selectLoop cfg pk as s c)) = c_dyn c"
  "c_inflight (snd (selectLoop cfg pk as s c)) = c_inflight c"
  "c_activeProvider (snd (selectLoop cfg pk as s c)) = c_activeProvider c"
  "c_batchSeq (snd (selectLoop cfg pk as s c)) = c_batchSeq c"
  "o_workers (snd (selectLoop cfg pk as s c)) = o_workers c"
  "map fst (c_partitions (snd (selectLoop cfg pk as s c))) = map fst (c_partitions c)"
  subgoal by (induction as arbitrary: s c) (simp_all add: selectLoop_step_frame Let_def)
  subgoal by (induction as arbitrary: s c) (simp_all add: small_ops Let_def)
  subgoal by (induction as arbitrary: s c) (simp_all add: small_ops Let_def)
  subgoal by (induction as arbitrary: s c) (simp_all add: small_ops Let_def)
  subgoal by (induction as arbitrary: s c) (simp_all add: small_ops Let_def)
  subgoal by (induction as arbitrary: s c) (simp_all add: small_ops Let_def)
  subgoal by (induction as arbitrary: s c) (simp_all add: small_ops Let_def)
  done

lemma selectLoop_remaining:
  "length (sl_remaining (fst (selectLoop cfg pk as s c))) \<le> length (sl_remaining s) + length as"
proof (induction as arbitrary: s c)
  case (Cons a as)
  show ?case
    using Cons [of s] Cons [of "selectItem a (c_heap c a) s" c]
      Cons [of "s\<lparr>sl_remaining := sl_remaining s @ [a]\<rparr>" c]
    by (simp add: Let_def selectItem_def le_SucI)
qed simp

lemma selectLoop_progress:
  "as \<noteq> [] \<Longrightarrow> sl_selected s = [] \<Longrightarrow>
     length (sl_remaining (fst (selectLoop cfg pk as s c))) < length (sl_remaining s) + length as"
proof (cases as)
  case (Cons a bs)
  assume "sl_selected s = []"
  with Cons show ?thesis
    using selectLoop_remaining [of cfg pk bs "selectItem a (c_heap c a) s" c]
    by (simp add: Let_def selectItem_def less_Suc_eq_le selectLoop_remaining)
qed simp

lemma heap_markDispatched:
  "markDispatched bid sel c = c\<lparr>c_heap := (\<lambda>a. if a \<in> set sel
      then (c_heap c a)\<lparr>q_dispatched := True, q_batchID := bid\<rparr> else c_heap c a)\<rparr>"
proof (induction bid sel c rule: markDispatched.induct)
  case (2 bid a as c)
  then show ?case
    by (auto simp: updItem_def fun_eq_iff intro!: coordinator.equality)
qed simp

lemma pendingOf_launch_steps [simp]:
  "pendingOf (takeSelected pk s c) k = pendingOf c k"
  "pendingOf (snd (nextBatchID c)) k = pendingOf c k"
  "pendingOf (registerBatch pk s bid c) k = pendingOf c k"
  "pendingOf (announceBatch cfg pk reason bid n c) k = pendingOf c k"
  "pendingOf (startWorker wk c) k = pendingOf c k"
  by (simp_all add: takeSelected_def nextBatchID_def registerBatch_def announceBatch_def
      startWorker_def heap_markDispatched Let_def small_ops pendingOf_def partOf_def split: option.split)

lemma pendingOf_launchBatch [simp]:
  "pendingOf (launchBatch cfg pk reason s req c) k = pendingOf c k"
  by (simp add: launchBatch_def Let_def split_beta)

lemma pendingOf_failRequest [simp]: "pendingOf (failRequest cfg pk e as c) k = pendingOf c k"
  by (induction cfg pk e as c rule: failRequest.induct)
    (auto simp: small_ops pendingOf_def partOf_def split: option.split)

lemma dispatchBatch_progress:
  assumes "pendingOf c pk \<noteq> []"
  shows "length (pendingOf (dispatchBatch cfg pk reason c) pk) < length (pendingOf c pk)"
proof -
  obtain s c1 where sel: "selectLoop cfg pk (pendingOf c pk) noSelection c = (s, c1)"
    by fastforce
  have "length (sl_remaining s) < length (pendingOf c pk)"
    using selectLoop_progress [OF assms, of noSelection cfg pk c] sel by (simp add: noSelection_def)
  moreover have "length (pendingOf (updPart pk (\<lambda>p. p\<lparr>p_pending := sl_remaining s\<rparr>) c1) pk) \<le>
      length (sl_remaining s)"
    by (simp add: pendingOf_updPart split: option.split)
  ultimately show ?thesis
    using sel by (auto simp: dispatchBatch_def Let_def split: sum.split)
qed

lemma prune_le: "length (pendingOf (prune pk c) pk) \<le> length (pendingOf c pk)"
proof (induction pk c rule: prune.induct)
  case (1 pk c)
  show ?case
  proof (cases "pendingOf c pk")
    case Nil
    then show ?thesis by (subst prune.simps) simp
  next
    case (Cons a as)
    then show ?thesis
      using 1 pendingOf_removePendingItem [of a c pk] by (subst prune.simps) auto
  qed
qed

text \<open>The inner loop of schedule over one partition.\<close>

function drainPartition ::
  "'k bindingConfig \<Rightarrow> string \<Rightarrow> bool \<Rightarrow> gotime \<Rightarrow> ('k, 'v) coord_op" where
  "drainPartition cfg pk force now c =
     (if pendingOf c pk = [] \<or>
         \<not> c_activeProvider c < effectiveMaxConcurrency (cf_sched cfg) (c_dyn c) then c
      else
        (let c1 = prune pk c in
         case partOf c1 pk of
           None \<Rightarrow> c1
         | Some p \<Rightarrow>
             if p_pending p = [] then c1
             else
               (case shouldDispatch cfg c1 p force now of
                  None \<Rightarrow> c1
                | Some reason \<Rightarrow> drainPartition cfg pk force now (dispatchBatch cfg pk reason c1))))"
  by pat_completeness auto
termination
proof (relation "measure (\<lambda>(cfg, pk, force, now, c). length (pendingOf c pk))")
  fix cfg :: "'k bindingConfig" and pk force now and c c1 :: "('k, 'v) coordinator" and p reason
  assume c1: "c1 = prune pk c" "partOf c1 pk = Some p" "p_pending p \<noteq> []"
  then have "length (pendingOf (dispatchBatch cfg pk reason c1) pk) < length (pendingOf c1 pk)"
    by (intro dispatchBatch_progress) (simp add: pendingOf_def)
  also have "\<dots> \<le> length (pendingOf c pk)"
    using c1 prune_le by simp
  finally show "((cfg, pk, force, now, dispatchBatch cfg pk reason c1), cfg, pk, force, now, c) \<in>
      measure (\<lambda>(cfg, pk, force, now, c). length (pendingOf c pk))"
    by simp
qed simp

declare drainPartition.simps [simp del]

definition partitionKeys :: "('k, 'v) coordinator \<Rightarrow> string list" where
  "partitionKeys c = sort (map fst (c_partitions c))"

fun considerTime :: "gotime option \<Rightarrow> gotime \<Rightarrow> gotime option" where
  "considerTime None t = Some t"
| "considerTime (Some next) t = (if t < next then Some t else Some next)"

definition timerOf ::
  "'k bindingConfig \<Rightarrow> ('k, 'v) coordinator \<Rightarrow> partitionState \<Rightarrow> gotime option \<Rightarrow> gotime option" where
  "timerOf cfg c p next =
     (case p_pending p of
        [] \<Rightarrow> next
      | a # _ \<Rightarrow>
          (let maxWait = effectiveMaxWait (cf_sched cfg) (c_dyn c);
               window = (if maxWait > 0 then considerTime next (q_enqueue (c_heap c a) + maxWait)
                         else next)
           in case cf_flushMode cfg of
                flushFixedWindow \<Rightarrow> window
              | flushDeadlineAware \<Rightarrow>
                  (let (t, ok) = earliestDeadline c p
                   in if ok then considerTime window (t - cf_deadlineMargin cfg) else window)
              | _ \<Rightarrow> next))"

definition nextFlush :: "'k bindingConfig \<Rightarrow> ('k, 'v) coordinator \<Rightarrow> gotime option" where
  "nextFlush cfg c = fold (timerOf cfg c) (map snd (c_partitions c)) None"

definition computeNextTimer :: "'k bindingConfig \<Rightarrow> gotime \<Rightarrow> ('k, 'v) coord_op" where
  "computeNextTimer cfg now c =
     (case nextFlush cfg c of
        None \<Rightarrow> c\<lparr>c_timer := None, c_timerActive := False\<rparr>
      | Some next \<Rightarrow>
          c\<lparr>c_timer := Some (if next - now < 0 then 0 else next - now), c_timerActive := True\<rparr>)"

fun schedulePartitions ::
  "'k bindingConfig \<Rightarrow> bool \<Rightarrow> gotime \<Rightarrow> string list \<Rightarrow> ('k, 'v) coord_op" where
  "schedulePartitions cfg force now [] c = c"
| "schedulePartitions cfg force now (pk # pks) c =
     schedulePartitions cfg force now pks
       (if partOf c pk = None then c else maybeRetire pk (drainPartition cfg pk force now c))"

definition schedule :: "'k bindingConfig \<Rightarrow> clock \<Rightarrow> bool \<Rightarrow> ('k, 'v) coord_op" where
  "schedule cfg clk force c =
     (let (now, c) = clockNow clk c
      in computeNextTimer cfg now (schedulePartitions cfg force now (partitionKeys c) c))"

end
