(* ===== verification/Coordinator_Loop.thy ===== *)
theory Coordinator_Loop
  imports Coordinator_Dispatch
begin

text \<open>
  Completion of batches, barriers for flush, drain and close, abrupt shutdown, and one
  iteration of the coordinator's event loop (the rest of runtime/coordinator_dispatch.go and
  coordinator.run). A select of the Go loop is an \<open>event\<close>; the order in which events arrive is
  chosen by the environment. The adaptive settings pointer is read several times per
  iteration and the model gives all reads of one iteration the same value. The error of a
  caller's context is asked through the parameter \<open>ctxErr\<close>.
\<close>

section \<open>Provider calls\<close>

datatype PanicPolicy = PanicPolicyRecover | PanicPolicyRepanic

datatype panicValue = PanicErr string | PanicString string | PanicOther string

fun sanitizePanic :: "panicValue \<Rightarrow> string" where
  "sanitizePanic (PanicErr msg) = msg"
| "sanitizePanic (PanicString s) = s"
| "sanitizePanic (PanicOther typeName) = typeName"

datatype 'v providerResult =
    Returned "('v, rt_error) BatchResponse" "rt_error option"
  | Panicked panicValue

text \<open>
  callProvider with the completion message startWorker builds from it; \<open>None\<close> is a panic
  that is raised again and ends the process.
\<close>

fun callProvider :: "PanicPolicy \<Rightarrow> nat \<Rightarrow> 'v providerResult \<Rightarrow> 'v completeReq option" where
  "callProvider policy bid (Returned resp err) =
     Some \<lparr>d_batchID = bid, d_response = resp, d_globalErr = err, d_panicked = False,
       d_panicVal = ''''\<rparr>"
| "callProvider PanicPolicyRepanic bid (Panicked r) = None"
| "callProvider PanicPolicyRecover bid (Panicked r) =
     Some \<lparr>d_batchID = bid, d_response = \<lparr>resp_outcomes = []\<rparr>, d_globalErr = None,
       d_panicked = True, d_panicVal = sanitizePanic r\<rparr>"

section \<open>Completion\<close>

text \<open>
  The loop body that failBatch and distribute share: answer the waiters of one item and take
  it out of the index of its partition, when that partition still exists.
\<close>

definition resolveItem :: "string \<Rightarrow> addr \<Rightarrow> 'v res \<Rightarrow> ('k, 'v) coord_op" where
  "resolveItem pk a r c = decLive pk (removeActive pk a (deliverItem a r c))"

fun failItems :: "string \<Rightarrow> rt_error \<Rightarrow> addr list \<Rightarrow> ('k, 'v) coord_op" where
  "failItems pk e [] c = c"
| "failItems pk e (a # as) c = failItems pk e as (resolveItem pk a (errRes e) c)"

definition failBatch :: "batchInflight \<Rightarrow> rt_error \<Rightarrow> ('k, 'v) coord_op" where
  "failBatch b e c = maybeRetire (b_partition b) (failItems (b_partition b) e (b_items b) c)"

definition byIDMap :: "('v, rt_error) Outcome list \<Rightarrow> (u64, ('v, rt_error) Outcome) gomap" where
  "byIDMap os = fold (\<lambda>x. AList.update (out_RequestID x) x) os []"

definition zeroOutcome :: "('v, rt_error) Outcome" where
  "zeroOutcome = \<lparr>out_RequestID = 0, out_Value = None, out_Err = None, out_Found = False\<rparr>"

definition outcomeFor :: "(u64, ('v, rt_error) Outcome) gomap \<Rightarrow> u64 \<Rightarrow> ('v, rt_error) Outcome" where
  "outcomeFor m i = (case map_of m i of None \<Rightarrow> zeroOutcome | Some x \<Rightarrow> x)"

definition outcomeRes :: "('v, rt_error) Outcome \<Rightarrow> 'v res" where
  "outcomeRes x =
     (if IsSuccess x then \<lparr>res_value = out_Value x, res_err = None, res_found = True\<rparr>
      else if IsFailure x then \<lparr>res_value = None, res_err = out_Err x, res_found = False\<rparr>
      else \<lparr>res_value = None, res_err = None, res_found = False\<rparr>)"

definition countItemError :: "('v, rt_error) Outcome \<Rightarrow> ('k, 'v) coord_op" where
  "countItemError x c =
     (if \<not> IsSuccess x \<and> IsFailure x
      then tally (\<lambda>n. n\<lparr>n_itemErrors := Suc (n_itemErrors n)\<rparr>) c else c)"

fun distributeItems ::
  "string \<Rightarrow> (u64, ('v, rt_error) Outcome) gomap \<Rightarrow> addr list \<Rightarrow> ('k, 'v) coord_op" where
  "distributeItems pk m [] c = c"
| "distributeItems pk m (a # as) c =
     (let x = outcomeFor m (q_id (c_heap c a))
      in distributeItems pk m as (resolveItem pk a (outcomeRes x) (countItemError x c)))"

definition distribute ::
  "'k bindingConfig \<Rightarrow> batchInflight \<Rightarrow> ('v, rt_error) BatchResponse \<Rightarrow> ('k, 'v) coord_op" where
  "distribute cfg b resp c =
     (case ValidateAgainst resp (map (\<lambda>a. q_id (c_heap c a)) (b_items b)) of
        Some e \<Rightarrow>
          (let c = failBatch b (ContractError (cf_opID cfg) (ResponseReason e)) c;
               c = tally (\<lambda>n. n\<lparr>n_providerErrors := Suc (n_providerErrors n)\<rparr>) c;
               c = tally (\<lambda>n. n\<lparr>n_totalContractViolations := Suc (n_totalContractViolations n)\<rparr>) c
           in emit cfg EventContractViolation (b_partition b) (b_id b) (length (b_items b))
                FlushManual ''contract'' c)
      | None \<Rightarrow>
          (let c = distributeItems (b_partition b) (byIDMap (BatchResponse_Outcomes resp))
                     (b_items b) c;
               c = maybeRetire (b_partition b) c
           in emit cfg EventBatchCompleted (b_partition b) (b_id b) (length (b_items b))
                FlushManual '''' c))"

definition settleBatch ::
  "'k bindingConfig \<Rightarrow> batchInflight \<Rightarrow> 'v completeReq \<Rightarrow> ('k, 'v) coord_op" where
  "settleBatch cfg b done c =
     (if d_panicked done then
        (let c = failBatch b (ProviderPanicError (cf_opID cfg) (d_panicVal done)) c;
             c = tally (\<lambda>n. n\<lparr>n_providerErrors := Suc (n_providerErrors n)\<rparr>) c
         in emit cfg EventBatchFailed (b_partition b) (b_id b) (length (b_items b))
              FlushManual ''panic'' c)
      else
        (case d_globalErr done of
           Some e \<Rightarrow>
             (let c = failBatch b e c;
                  c = tally (\<lambda>n. n\<lparr>n_providerErrors := Suc (n_providerErrors n)\<rparr>) c
              in emit cfg EventBatchFailed (b_partition b) (b_id b) (length (b_items b))
                   FlushManual ''provider'' c)
         | None \<Rightarrow> distribute cfg b (d_response done) c))"

definition releaseBatch :: "batchInflight \<Rightarrow> nat \<Rightarrow> ('k, 'v) coord_op" where
  "releaseBatch b bid c =
     (let c = c\<lparr>c_inflight := AList.delete bid (c_inflight c)\<rparr>;
          c = c\<lparr>c_activeProvider := c_activeProvider c - 1\<rparr>;
          c = tally (\<lambda>n. n\<lparr>n_activeProviderCalls := c_activeProvider c\<rparr>) c
      in cancelBatchContext (b_id b) c)"

definition handleComplete ::
  "'k bindingConfig \<Rightarrow> clock \<Rightarrow> 'v completeReq \<Rightarrow> ('k, 'v) coord_op" where
  "handleComplete cfg clk done c =
     (case map_of (c_inflight c) (d_batchID done) of
        None \<Rightarrow> c
      | Some b \<Rightarrow>
          retryBlocked cfg clk (settleBatch cfg b done (releaseBatch b (d_batchID done) c)))"

section \<open>Barriers\<close>

definition anyPending :: "('k, 'v) coordinator \<Rightarrow> int \<Rightarrow> bool" where
  "anyPending c sq \<longleftrightarrow>
     list_ex (\<lambda>(pk, p). list_ex (\<lambda>a. q_seq (c_heap c a) \<le> sq) (p_pending p)) (c_partitions c)"

definition anyInflight :: "('k, 'v) coordinator \<Rightarrow> int \<Rightarrow> bool" where
  "anyInflight c sq \<longleftrightarrow> list_ex (\<lambda>(bid, b). b_minSeq b \<le> sq) (c_inflight c)"

definition barrierSatisfied :: "('k, 'v) coordinator \<Rightarrow> barrier \<Rightarrow> bool" where
  "barrierSatisfied c b \<longleftrightarrow>
     (if anyPending c (br_seq b) then False
      else if br_dispatchOnly b then True
      else \<not> anyInflight c (br_seq b))"

definition barrierTimeout :: "controlKind \<Rightarrow> rt_error \<Rightarrow> rt_error" where
  "barrierTimeout kind cause =
     (if kind = controlFlush then ErrFlushTimeout cause else ErrDrainTimeout cause)"

type_synonym contexts = "nat \<Rightarrow> rt_error option"

definition ctxErrOf :: "contexts \<Rightarrow> barrier \<Rightarrow> rt_error option" where
  "ctxErrOf ctxErr b = (case br_ctx b of None \<Rightarrow> None | Some x \<Rightarrow> ctxErr x)"

fun barrierLoop ::
  "contexts \<Rightarrow> barrier list \<Rightarrow> ('k, 'v) coordinator \<Rightarrow> barrier list \<times> ('k, 'v) coordinator" where
  "barrierLoop ctxErr [] c = ([], c)"
| "barrierLoop ctxErr (b # bs) c =
     (case ctxErrOf ctxErr b of
        Some e \<Rightarrow> barrierLoop ctxErr bs (reply (br_reply b) (Some (barrierTimeout (br_kind b) e)) c)
      | None \<Rightarrow>
          if barrierSatisfied c b then barrierLoop ctxErr bs (reply (br_reply b) None c)
          else (let (kept, c) = barrierLoop ctxErr bs c in (b # kept, c)))"

definition tryCompleteBarriers :: "contexts \<Rightarrow> ('k, 'v) coord_op" where
  "tryCompleteBarriers ctxErr c =
     (let (kept, c) = barrierLoop ctxErr (c_barriers c) c in c\<lparr>c_barriers := kept\<rparr>)"

definition failBarriers :: "rt_error option \<Rightarrow> ('k, 'v) coord_op" where
  "failBarriers e c =
     (fold (\<lambda>b. reply (br_reply b) e) (c_barriers c) c)\<lparr>c_barriers := []\<rparr>"

definition handleControl :: "'k bindingConfig \<Rightarrow> clock \<Rightarrow> controlReq \<Rightarrow> ('k, 'v) coord_op" where
  "handleControl cfg clk ctrl c =
     (let c = (if t_kind ctrl = controlClose then c\<lparr>c_closing := True\<rparr> else c);
          c = schedule cfg clk True c
      in c\<lparr>c_barriers := c_barriers c @ [\<lparr>br_kind = t_kind ctrl, br_seq = c_submitSeq c,
             br_reply = t_reply ctrl, br_ctx = t_ctx ctrl,
             br_dispatchOnly = (t_kind ctrl = controlFlush)\<rparr>]\<rparr>)"

section \<open>Abrupt shutdown and the event loop\<close>

fun deliverItems :: "addr list \<Rightarrow> 'v res \<Rightarrow> ('k, 'v) coord_op" where
  "deliverItems [] r c = c"
| "deliverItems (a # as) r c = deliverItems as r (deliverItem a r c)"

definition indexedItems :: "('k, 'v) coordinator \<Rightarrow> addr list" where
  "indexedItems c = concat (map (\<lambda>(pk, p). concat (map snd (p_active p))) (c_partitions c))"

definition handleEngineCancel :: "('k, 'v) coord_op" where
  "handleEngineCancel c =
     (let c = c\<lparr>c_closing := True\<rparr>;
          c = deliverItems (indexedItems c) (errRes ErrEngineClosed) c;
          c = fold (\<lambda>(bid, b). cancelBatchContext (b_id b)) (c_inflight c) c
      in failBarriers (Some ErrEngineClosed) c)"

definition drained :: "('k, 'v) coordinator \<Rightarrow> bool" where
  "drained c \<longleftrightarrow>
     (if c_inflight c \<noteq> [] \<or> c_activeProvider c > 0 then False
      else list_all (\<lambda>(pk, p). \<not> p_live p > 0) (c_partitions c))"

datatype ('k, 'v) event =
    EvSubmit "'k submitReq"
  | EvCancel cancelReq
  | EvComplete "'v completeReq"
  | EvControl controlReq
  | EvTimer
  | EvEngineDone

fun handleEvent :: "'k bindingConfig \<Rightarrow> clock \<Rightarrow> ('k, 'v) event \<Rightarrow> ('k, 'v) coord_op" where
  "handleEvent cfg clk (EvSubmit req) c = handleSubmit cfg clk req c"
| "handleEvent cfg clk (EvCancel cr) c = handleCancel cfg cr c"
| "handleEvent cfg clk (EvComplete done) c = handleComplete cfg clk done c"
| "handleEvent cfg clk (EvControl ctrl) c = handleControl cfg clk ctrl c"
| "handleEvent cfg clk EvTimer c = schedule cfg clk False (c\<lparr>c_timerActive := False\<rparr>)"
| "handleEvent cfg clk EvEngineDone c = handleEngineCancel c"

fun isEngineDone :: "('k, 'v) event \<Rightarrow> bool" where
  "isEngineDone EvEngineDone = True"
| "isEngineDone (EvSubmit req) = False"
| "isEngineDone (EvCancel cr) = False"
| "isEngineDone (EvComplete d) = False"
| "isEngineDone (EvControl ctrl) = False"
| "isEngineDone EvTimer = False"

definition finishIteration :: "'k bindingConfig \<Rightarrow> clock \<Rightarrow> contexts \<Rightarrow> ('k, 'v) coord_op" where
  "finishIteration cfg clk ctxErr c =
     (let c = tryCompleteBarriers ctxErr (schedule cfg clk False c)
      in if c_closing c \<and> drained c then (failBarriers None c)\<lparr>c_done := True\<rparr> else c)"

definition iteration ::
  "'k bindingConfig \<Rightarrow> clock \<Rightarrow> contexts \<Rightarrow> ('k, 'v) event \<Rightarrow> ('k, 'v) coord_op" where
  "iteration cfg clk ctxErr ev c =
     (let c = handleEvent cfg clk ev c
      in if isEngineDone ev \<and> drained c then c\<lparr>c_done := True\<rparr>
         else finishIteration cfg clk ctxErr c)"

text \<open>The coordinator Bind creates, and the states its loop can be in.\<close>

definition zeroCounters :: counters where
  "zeroCounters = \<lparr>n_activePartitions = 0, n_queuedItems = 0, n_queuedWaiters = 0,
     n_activeProviderCalls = 0, n_batches = 0, n_totalBatchItems = 0, n_maxBatchSize = 0,
     n_inFlightJoins = 0, n_memoHits = 0, n_fallbacks = 0, n_providerErrors = 0, n_itemErrors = 0, n_queueRejections = 0,
     n_flushReasons = (\<lambda>_. 0), n_totalRequests = 0, n_totalProviderCalls = 0,
     n_totalBackendItems = 0, n_totalCallsSaved = 0, n_totalFallbacks = 0, n_totalCancellations = 0,
     n_totalContractViolations = 0\<rparr>"

definition newCoordinator :: "(addr \<Rightarrow> 'k qitem) \<Rightarrow> u64 \<Rightarrow> ('k, 'v) coordinator" where
  "newCoordinator memory requestSeq = \<lparr>c_heap = memory, c_next = 0, c_partitions = [],
     c_inflight = [], c_blocked = [], c_timer = None, c_timerActive = False,
     c_activeProvider = 0, c_batchSeq = 0, c_submitSeq = 0, c_closing = False, c_done = False,
     c_counters = zeroCounters, c_barriers = [], c_dyn = None, e_requestSeq = requestSeq,
     e_reads = 0, o_deliveries = [], o_replies = [], o_workers = [], o_cancels = [],
     o_events = []\<rparr>"

section \<open>A run\<close>

text \<open>
  Two callers ask for the same key; the first is dispatched at once, the second joins it while
  the provider runs, the provider answers, and the coordinator is closed.
\<close>

definition demoCfg :: "nat bindingConfig" where
  "demoCfg = \<lparr>cf_opID = ''op'',
     cf_limits = \<lparr>MaxItems = 8, MaxWaiters = 8, MaxBytes = 0, MaxWeight = 0, MaxPartitions = 4\<rparr>,
     cf_overflow = OverflowReject, cf_flushMode = flushImmediate,
     cf_sched = \<lparr>sc_maxWait = 0, sc_maxBatchSize = 4, sc_maxConcurrency = 1\<rparr>,
     cf_maxBatchWeight = 0, cf_maxBatchBytes = 0, cf_deadlineMargin = 0, cf_dedupEnabled = True,
     cf_keys = comparableStrategy of_nat 8, cf_hooks = False\<rparr>"

definition demoClock :: clock where "demoClock n = 1000 + int n"

definition demoContexts :: contexts where "demoContexts n = None"

definition demoItem :: "nat qitem" where
  "demoItem = \<lparr>q_id = 0, q_seq = 0, q_key = 0, q_hash = 0, q_weight = 0, q_bytes = 0, q_enqueue = 0,
     q_waiters = [], q_activeWaiters = 0, q_dispatched = False, q_batchID = 0\<rparr>"

definition demoReq :: "nat \<Rightarrow> nat \<Rightarrow> nat submitReq" where
  "demoReq k ch = \<lparr>s_part = \<lparr>encoded = ''p'', phash = 5\<rparr>, s_key = k, s_hash = of_nat k, s_weight = 1,
     s_bytes = 0, s_waiter = \<lparr>w_id = of_nat ch, w_ch = ch, w_active = True, w_deadline = 0,
     w_hasDeadline = False\<rparr>, s_reply = 100 + ch\<rparr>"

definition demoDone :: "nat completeReq" where
  "demoDone = \<lparr>d_batchID = 1, d_response = \<lparr>resp_outcomes = [Success 1 42]\<rparr>, d_globalErr = None,
     d_panicked = False, d_panicVal = ''''\<rparr>"

definition demoClose :: controlReq where
  "demoClose = \<lparr>t_kind = controlClose, t_reply = 200, t_ctx = None\<rparr>"

definition demoBarrier :: barrier where
  "demoBarrier = \<lparr>br_kind = controlDrain, br_seq = 1, br_reply = 200, br_ctx = None,
     br_dispatchOnly = False\<rparr>"

definition demo0 :: "(nat, nat) coordinator" where "demo0 = newCoordinator (\<lambda>_. demoItem) 0"

definition demoEvents :: "(nat, nat) event list" where
  "demoEvents = [EvSubmit (demoReq 7 11), EvSubmit (demoReq 7 12), EvComplete demoDone,
     EvControl demoClose]"

definition demoQueued :: "(nat, nat) coordinator" where
  "demoQueued = handleSubmit demoCfg demoClock (demoReq 7 11) demo0"

definition demoWindowCfg :: "nat bindingConfig" where
  "demoWindowCfg = demoCfg\<lparr>cf_flushMode := flushFixedWindow,
     cf_sched := \<lparr>sc_maxWait = 50, sc_maxBatchSize = 4, sc_maxConcurrency = 1\<rparr>\<rparr>"

end
