(* ===== verification/Coordinator_Frame.thy ===== *)
theory Coordinator_Frame
  imports Coordinator_Loop
begin

text \<open>
  Frames: what dispatch and completion leave alone. \<open>quiet\<close> relates two states that agree on
  admission, barriers, replies and shutdown; \<open>idle\<close> ones that agree on the provider calls
  started and on the settings they were started under.
\<close>

definition quiet :: "('k, 'v) coordinator \<Rightarrow> ('k, 'v) coordinator \<Rightarrow> bool" where
  "quiet c d \<longleftrightarrow> c_blocked d = c_blocked c \<and> c_closing d = c_closing c \<and> c_done d = c_done c \<and>
     c_dyn d = c_dyn c \<and> c_barriers d = c_barriers c \<and> c_submitSeq d = c_submitSeq c \<and>
     e_requestSeq d = e_requestSeq c \<and> o_replies d = o_replies c \<and> c_next d = c_next c"

definition idle :: "('k, 'v) coordinator \<Rightarrow> ('k, 'v) coordinator \<Rightarrow> bool" where
  "idle c d \<longleftrightarrow> c_activeProvider d = c_activeProvider c \<and> c_dyn d = c_dyn c \<and>
     o_workers d = o_workers c \<and> c_batchSeq d = c_batchSeq c"

lemma quiet_refl [simp]: "quiet c c" and idle_refl [simp]: "idle c c"
  by (simp_all add: quiet_def idle_def)

lemma quiet_trans [trans]: "quiet c d \<Longrightarrow> quiet d e \<Longrightarrow> quiet c e"
  by (simp add: quiet_def)

lemma idle_trans [trans]: "idle c d \<Longrightarrow> idle d e \<Longrightarrow> idle c e"
  by (simp add: idle_def)

lemma quiet_basic [simp]:
  "quiet c (tally f c)" "quiet c (updPart pk g c)" "quiet c (updItem a h c)"
  "quiet c (emit cfg k pk i n r s c)" "quiet c (cancelBatchContext i c)"
  "quiet c (removeActive pk a c)" "quiet c (decLive pk c)" "quiet c (decQueued c)"
  "quiet c (deliverItem a r' c)" "quiet c (c\<lparr>c_inflight := m\<rparr>)" "quiet c (c\<lparr>c_partitions := ps\<rparr>)"
  by (simp_all add: quiet_def tally_def updPart_def updItem_def emit_def cancelBatchContext_def
      removeActive_def decLive_def decQueued_def deliverItem_eq)

lemma idle_basic [simp]:
  "idle c (tally f c)" "idle c (updPart pk g c)" "idle c (updItem a h c)"
  "idle c (emit cfg k pk i n r s c)" "idle c (cancelBatchContext i c)"
  "idle c (removeActive pk a c)" "idle c (decLive pk c)" "idle c (decQueued c)"
  "idle c (deliverItem a r' c)" "idle c (c\<lparr>c_inflight := m\<rparr>)" "idle c (c\<lparr>c_partitions := ps\<rparr>)"
  by (simp_all add: idle_def tally_def updPart_def updItem_def emit_def cancelBatchContext_def
      removeActive_def decLive_def decQueued_def deliverItem_eq)

lemmas quiet_basic_step = quiet_basic [THEN [2] quiet_trans]
lemmas idle_basic_step = idle_basic [THEN [2] idle_trans]

lemma quiet_small [simp]:
  "quiet c (maybeRetire pk c)" "quiet c (failItem pk a e c)" "quiet c (resolveItem pk a r' c)"
  "quiet c (countItemError x c)" "quiet c (removePendingItem pk a c)"
proof -
  show retire: "quiet c (maybeRetire pk c)" for c :: "('a, 'b) coordinator"
    by (auto simp: maybeRetire_def activePartitionsGauge_def intro!: quiet_basic_step split: option.split)
  show "quiet c (failItem pk a e c)" "quiet c (resolveItem pk a r' c)" "quiet c (countItemError x c)"
    by (auto simp: failItem_def resolveItem_def countItemError_def intro!: quiet_basic_step)
  show "quiet c (removePendingItem pk a c)"
    unfolding removePendingItem_def Let_def
    by (intro retire [THEN [2] quiet_trans] quiet_basic_step quiet_refl)
qed

lemma idle_small [simp]:
  "idle c (maybeRetire pk c)" "idle c (failItem pk a e c)" "idle c (resolveItem pk a r' c)"
  "idle c (countItemError x c)" "idle c (removePendingItem pk a c)"
proof -
  show retire: "idle c (maybeRetire pk c)" for c :: "('a, 'b) coordinator"
    by (auto simp: maybeRetire_def activePartitionsGauge_def intro!: idle_basic_step split: option.split)
  show "idle c (failItem pk a e c)" "idle c (resolveItem pk a r' c)" "idle c (countItemError x c)"
    by (auto simp: failItem_def resolveItem_def countItemError_def intro!: idle_basic_step)
  show "idle c (removePendingItem pk a c)"
    unfolding removePendingItem_def Let_def
    by (intro retire [THEN [2] idle_trans] idle_basic_step idle_refl)
qed

lemmas quiet_step = quiet_basic_step quiet_small [THEN [2] quiet_trans]
lemmas idle_step = idle_basic_step idle_small [THEN [2] idle_trans]

lemma quiet_prune: "quiet c (prune pk c)" and idle_prune: "idle c (prune pk c)"
proof (induction pk c rule: prune.induct)
  case (1 pk c)
  { case 1
    show ?case
      using "1.IH"(1) quiet_trans [OF quiet_small(5)]
      by (subst prune.simps) (auto split: list.split)
  next
    case 2
    show ?case
      using "1.IH"(2) idle_trans [OF idle_small(5)]
      by (subst prune.simps) (auto split: list.split)
  }
qed

lemma quiet_selectLoop: "quiet c (snd (selectLoop cfg pk as s c))"
proof (induction as arbitrary: s c)
  case (Cons a as)
  have "quiet c (decQueued (decLive pk (removeActive pk a c)))"
      "quiet c (decQueued (failItem pk a ErrItemTooLarge c))"
    by (intro quiet_step quiet_refl)+
  then show ?case
    using quiet_trans [OF _ Cons] quiet_trans [OF quiet_refl Cons] by (simp add: Let_def)
qed simp

lemma quiet_failRequest: "quiet c (failRequest cfg pk e as c)"
  and idle_failRequest: "idle c (failRequest cfg pk e as c)"
proof (induction as arbitrary: c)
  case (Cons a as)
  { case 1
    show ?case by (simp, rule quiet_trans [OF _ Cons(1)], intro quiet_step quiet_refl)
  next
    case 2
    show ?case by (simp, rule idle_trans [OF _ Cons(2)], intro idle_step idle_refl)
  }
qed simp_all

lemma quiet_launchBatch: "quiet c (launchBatch cfg pk reason s req c)"
proof -
  have "quiet c (registerBatch pk s bid c)" "quiet c (snd (nextBatchID c))" "quiet c (startWorker wk c)"
      "quiet c (takeSelected pk s c)" "quiet c (announceBatch cfg pk reason bid n c)"
    for bid wk n and c :: "('a, 'b) coordinator"
    by (simp_all add: quiet_def registerBatch_def heap_markDispatched nextBatchID_def startWorker_def
        Let_def takeSelected_def announceBatch_def tally_def emit_def updPart_def)
  note step = this [THEN [2] quiet_trans]
  show ?thesis
    unfolding launchBatch_def Let_def split_beta by (intro step quiet_refl)
qed

lemma quiet_dispatchBatch: "quiet c (dispatchBatch cfg pk reason c)"
proof -
  obtain s c1 where sel: "selectLoop cfg pk (pendingOf c pk) noSelection c = (s, c1)"
    by fastforce
  have "quiet c (updPart pk (\<lambda>p. p\<lparr>p_pending := sl_remaining s\<rparr>) c1)"
    using quiet_selectLoop [of c cfg pk "pendingOf c pk" noSelection] sel
    by (intro quiet_step) simp
  then show ?thesis
    using sel by (auto simp: dispatchBatch_def Let_def split: sum.split
        intro!: quiet_trans [OF _ quiet_failRequest] quiet_trans [OF _ quiet_launchBatch])
qed

lemma quiet_drainPartition: "quiet c (drainPartition cfg pk force now c)"
proof (induction cfg pk force now c rule: drainPartition.induct)
  case (1 cfg pk force now c)
  then show ?case
    by (subst drainPartition.simps)
      (auto simp: Let_def quiet_prune split: option.splits
        intro: quiet_trans [OF quiet_prune quiet_trans [OF quiet_dispatchBatch]])
qed

lemma quiet_schedulePartitions: "quiet c (schedulePartitions cfg force now pks c)"
proof (induction pks arbitrary: c)
  case (Cons pk pks)
  have "quiet c (maybeRetire pk (drainPartition cfg pk force now c))"
    by (intro quiet_step quiet_drainPartition)
  from quiet_trans [OF this Cons] Cons show ?case by simp
qed simp

lemma quiet_schedule: "quiet c (schedule cfg clk force c)"
  using quiet_schedulePartitions [of "c\<lparr>e_reads := Suc (e_reads c)\<rparr>" cfg force "clk (e_reads c)"
    "partitionKeys (c\<lparr>e_reads := Suc (e_reads c)\<rparr>)"]
  by (simp add: schedule_def clockNow_def computeNextTimer_def quiet_def split: option.split)

lemma quiet_failItems: "quiet c (failItems pk e as c)"
  and idle_failItems: "idle c (failItems pk e as c)"
proof (induction as arbitrary: c)
  case (Cons a as)
  { case 1
    show ?case by (simp, rule quiet_trans [OF _ Cons(1)], intro quiet_step quiet_refl)
  next
    case 2
    show ?case by (simp, rule idle_trans [OF _ Cons(2)], intro idle_step idle_refl)
  }
qed simp_all

lemma quiet_distributeItems: "quiet c (distributeItems pk m as c)"
  and idle_distributeItems: "idle c (distributeItems pk m as c)"
proof (induction as arbitrary: c)
  case (Cons a as)
  { case 1
    show ?case by (simp add: Let_def, rule quiet_trans [OF _ Cons(1)], intro quiet_step quiet_refl)
  next
    case 2
    show ?case by (simp add: Let_def, rule idle_trans [OF _ Cons(2)], intro idle_step idle_refl)
  }
qed simp_all

lemma quiet_settleBatch: "quiet c (settleBatch cfg b d c)"
  unfolding settleBatch_def distribute_def failBatch_def Let_def
  by (simp split: option.split)
    (intro conjI impI allI quiet_step quiet_failItems quiet_distributeItems)

lemma idle_settleBatch: "idle c (settleBatch cfg b d c)"
  unfolding settleBatch_def distribute_def failBatch_def Let_def
  by (simp split: option.split)
    (intro conjI impI allI idle_step idle_failItems idle_distributeItems)

lemma quiet_releaseBatch: "quiet c (releaseBatch b i c)"
  by (simp add: releaseBatch_def quiet_def tally_def cancelBatchContext_def Let_def)

lemma quiet_cancelWaiter: "quiet c (cancelWaiter cfg pk a i c)"
  and idle_cancelWaiter: "idle c (cancelWaiter cfg pk a i c)"
  unfolding cancelWaiter_def Let_def
  by (auto split: option.split intro!: quiet_step idle_step)

lemma quiet_deliverItems: "quiet c (deliverItems as r c)"
  and idle_deliverItems: "idle c (deliverItems as r c)"
proof (induction as arbitrary: c)
  case (Cons a as)
  { case 1
    show ?case by (simp, rule quiet_trans [OF _ Cons(1)], intro quiet_step quiet_refl)
  next
    case 2
    show ?case by (simp, rule idle_trans [OF _ Cons(2)], intro idle_step idle_refl)
  }
qed simp_all

section \<open>Replies and cancelled contexts are all that barriers and shutdown change\<close>

lemma fold_reply_frame: "\<exists>rs. fold (\<lambda>b. reply (br_reply b) e) bs c = c\<lparr>o_replies := rs\<rparr>"
proof (induction bs arbitrary: c)
  case Nil
  show ?case by (auto intro!: exI [of _ "o_replies c"])
next
  case (Cons b bs)
  show ?case using Cons [of "reply (br_reply b) e c"] by (auto simp: reply_def)
qed

lemma fold_cancel_frame:
  "\<exists>cs. fold (\<lambda>(bid, b). cancelBatchContext (b_id b)) m c = c\<lparr>o_cancels := cs\<rparr>"
proof (induction m arbitrary: c)
  case Nil
  show ?case by (auto intro!: exI [of _ "o_cancels c"])
next
  case (Cons e m)
  show ?case
    using Cons [of "cancelBatchContext (b_id (snd e)) c"]
    by (auto simp: cancelBatchContext_def split_beta)
qed

lemma barrierLoop_frame:
  assumes "barrierLoop ctxErr bs c = (kept, d)"
  shows "\<exists>rs. d = c\<lparr>o_replies := rs\<rparr>"
  using assms
proof (induction ctxErr bs c arbitrary: kept d rule: barrierLoop.induct)
  case (1 ctxErr c)
  then show ?case by (auto intro!: exI [of _ "o_replies c"])
next
  case (2 ctxErr b bs c)
  then show ?case
    by (fastforce simp: reply_def split: option.splits if_splits prod.splits)
qed

lemma failBarriers_frame: "\<exists>rs. failBarriers e c = c\<lparr>o_replies := rs, c_barriers := []\<rparr>"
  using fold_reply_frame [of e "c_barriers c" c] by (auto simp: failBarriers_def)

lemma tryCompleteBarriers_frame:
  "\<exists>rs bs. tryCompleteBarriers ctxErr c = c\<lparr>o_replies := rs, c_barriers := bs\<rparr>"
proof -
  obtain kept d where d: "barrierLoop ctxErr (c_barriers c) c = (kept, d)" by fastforce
  then show ?thesis
    using barrierLoop_frame [OF d] by (auto simp: tryCompleteBarriers_def)
qed

lemma handleEngineCancel_frame:
  "\<exists>rs cs. handleEngineCancel c =
     (deliverItems (indexedItems c) (errRes ErrEngineClosed) (c\<lparr>c_closing := True\<rparr>))
       \<lparr>o_cancels := cs, o_replies := rs, c_barriers := []\<rparr>"
proof -
  let ?d = "deliverItems (indexedItems c) (errRes ErrEngineClosed) (c\<lparr>c_closing := True\<rparr>)"
  have i: "indexedItems (c\<lparr>c_closing := True\<rparr>) = indexedItems c"
    by (simp add: indexedItems_def)
  obtain cs where cs: "fold (\<lambda>(bid, b). cancelBatchContext (b_id b)) (c_inflight ?d) ?d = ?d\<lparr>o_cancels := cs\<rparr>"
    using fold_cancel_frame by blast
  obtain rs where "failBarriers (Some ErrEngineClosed) (?d\<lparr>o_cancels := cs\<rparr>) =
      ?d\<lparr>o_cancels := cs, o_replies := rs, c_barriers := []\<rparr>"
    using failBarriers_frame by blast
  then show ?thesis
    unfolding handleEngineCancel_def Let_def i cs by blast
qed

lemma admission_frame [simp]:
  "c_done (joinItem cfg a req c) = c_done c" "c_done (enqueueItem cfg clk req c) = c_done c"
  "c_done (overflow cfg req category isPart c) = c_done c"
  "c_closing (joinItem cfg a req c) = c_closing c" "c_closing (enqueueItem cfg clk req c) = c_closing c"
  "c_closing (overflow cfg req category isPart c) = c_closing c"
  "c_blocked (joinItem cfg a req c) = c_blocked c" "c_blocked (enqueueItem cfg clk req c) = c_blocked c"
  by (simp_all add: joinItem_def enqueueItem_def overflow_def Let_def emit_def reply_def tally_def
      updPart_def updItem_def nextRequestID_def clockNow_def nextSeq_def split: OverflowPolicy.split)

lemma submit_frame [simp]:
  "c_done (handleSubmit cfg clk req c) = c_done c" "c_closing (handleSubmit cfg clk req c) = c_closing c"
proof -
  have "c_done (submitInto cfg clk req p c) = c_done c \<and> c_closing (submitInto cfg clk req p c) = c_closing c"
    for p and c :: "('a, 'b) coordinator"
    by (simp add: submitInto_def split: option.split)
  then show "c_done (handleSubmit cfg clk req c) = c_done c"
      "c_closing (handleSubmit cfg clk req c) = c_closing c"
    by (simp_all add: handleSubmit_def Let_def activePartitionsGauge_def reply_def tally_def
        split: option.split)
qed

lemma idle_handleSubmit: "idle c (handleSubmit cfg clk req c)"
proof -
  have "idle c (joinItem cfg a req c)" "idle c (enqueueItem cfg clk req c)"
      "idle c (overflow cfg req category isPart c)" for a category isPart and c :: "('a, 'b) coordinator"
    by (simp_all add: idle_def joinItem_def enqueueItem_def overflow_def Let_def emit_def reply_def
        tally_def updPart_def updItem_def nextRequestID_def clockNow_def nextSeq_def
        split: OverflowPolicy.split)
  then have into: "idle c (submitInto cfg clk req p c)" and over: "idle c (overflow cfg req category isPart c)"
    for p category isPart and c :: "('a, 'b) coordinator"
    by (simp_all add: submitInto_def split: option.split)
  have "idle c (activePartitionsGauge (c\<lparr>c_partitions := ps\<rparr>))" for ps
    unfolding activePartitionsGauge_def by (intro idle_step idle_refl)
  from idle_trans [OF this into] into over show ?thesis
    by (simp add: handleSubmit_def Let_def split: option.split) (simp add: idle_def reply_def tally_def)
qed

lemma idle_submitAll: "idle c (submitAll cfg clk rs c)"
  by (induction rs arbitrary: c) (auto intro: idle_trans idle_handleSubmit)

lemma idle_retryBlocked: "idle c (retryBlocked cfg clk c)"
  using idle_submitAll [of "c\<lparr>c_blocked := []\<rparr>" cfg clk "c_blocked c"]
  by (simp add: retryBlocked_def idle_def)

end
