(* ===== verification/Coordinator_Inv.thy ===== *)
theory Coordinator_Inv
  imports Coordinator_Frame "HOL-Library.Multiset"
begin

text \<open>
  The ownership invariant of the coordinator. Every address of a partition's hash index is
  owned exactly once, by the pending queue of that partition or by one in-flight batch of it;
  \<open>p_live\<close> counts the index, \<open>c_activeProvider\<close> the in-flight table, and an item that still has
  an active waiter is in some index. The invariant is stated over an explicit multiset \<open>pend\<close>
  of queued addresses and a set \<open>X\<close> of addresses in transit, so that it also holds inside
  the loops that move items between queue, batch and completion.
\<close>

section \<open>The index\<close>

definition index_ok :: "(addr \<Rightarrow> 'k qitem) \<Rightarrow> (u64, addr list) gomap \<Rightarrow> bool" where
  "index_ok hp m \<longleftrightarrow> distinct (map fst m) \<and>
     (\<forall>h as. map_of m h = Some as \<longrightarrow> as \<noteq> [] \<and> (\<forall>a\<in>set as. q_hash (hp a) = h))"

definition addrsOf :: "(u64, addr list) gomap \<Rightarrow> addr multiset" where
  "addrsOf m = mset (concat (map snd m))"

lemma addrsOf_Nil [simp]: "addrsOf [] = {#}"
  by (simp add: addrsOf_def)

lemma addrsOf_Cons [simp]: "addrsOf ((h, as) # m) = mset as + addrsOf m"
  by (simp add: addrsOf_def)

lemma addrsOf_delete:
  "distinct (map fst m) \<Longrightarrow> addrsOf m = mset (goget m h) + addrsOf (AList.delete h m)"
proof (induction m)
  case (Cons e m)
  show ?case
  proof (cases "fst e = h")
    case True
    then have "map_of m h = None" "h \<notin> fst ` set m"
      using Cons.prems by (auto simp: map_of_eq_None_iff)
    then show ?thesis
      using True by (cases e) (simp add: goget_def delete_id)
  next
    case False
    then show ?thesis
      using Cons by (cases e) (simp add: goget_def)
  qed
qed (simp add: goget_def)

lemma addrsOf_update:
  "distinct (map fst m) \<Longrightarrow>
     addrsOf (AList.update h as m) = mset as + addrsOf (AList.delete h m)"
proof (induction m)
  case (Cons e m)
  show ?case
  proof (cases "fst e = h")
    case True
    then have "h \<notin> fst ` set m"
      using Cons.prems by auto
    then show ?thesis
      using True by (cases e) (simp add: delete_id)
  next
    case False
    then show ?thesis
      using Cons by (cases e) simp
  qed
qed simp

lemma addrsOf_bucket: "map_of m h = Some as \<Longrightarrow> a \<in> set as \<Longrightarrow> a \<in># addrsOf m"
  by (drule map_of_SomeD) (force simp: addrsOf_def)

lemma index_member:
  assumes "index_ok hp m"
  shows "a \<in># addrsOf m \<longleftrightarrow> a \<in> set (goget m (q_hash (hp a)))"
proof
  assume "a \<in># addrsOf m"
  then obtain h as where "(h, as) \<in> set m" "a \<in> set as"
    by (auto simp: addrsOf_def)
  with assms have "map_of m h = Some as" "q_hash (hp a) = h"
    by (auto simp: index_ok_def)
  with \<open>a \<in> set as\<close> show "a \<in> set (goget m (q_hash (hp a)))"
    by (simp add: goget_def)
next
  assume "a \<in> set (goget m (q_hash (hp a)))"
  then show "a \<in># addrsOf m"
    by (cases "map_of m (q_hash (hp a))") (auto simp: goget_def intro: addrsOf_bucket)
qed

lemma index_bucketRemove:
  assumes ok: "index_ok hp m" and a: "a \<in># addrsOf m"
  shows "index_ok hp (bucketRemove a (q_hash (hp a)) m)"
    and "addrsOf (bucketRemove a (q_hash (hp a)) m) = addrsOf m - {#a#}"
proof -
  have d: "distinct (map fst m)"
    using ok by (simp add: index_ok_def)
  have mem: "a \<in> set (goget m (q_hash (hp a)))"
    using a index_member [OF ok] by blast
  have "set (goget m h) \<subseteq> {x. q_hash (hp x) = h}" for h
    using ok by (cases "map_of m h") (auto simp: goget_def index_ok_def)
  then have rm: "set (remove1 a (goget m (q_hash (hp a)))) \<subseteq> {x. q_hash (hp x) = q_hash (hp a)}"
    using set_remove1_subset by fastforce
  show "index_ok hp (bucketRemove a (q_hash (hp a)) m)"
    unfolding index_ok_def
  proof (intro conjI allI impI)
    show "distinct (map fst (bucketRemove a (q_hash (hp a)) m))"
      using d by (simp add: bucketRemove_def Let_def distinct_delete distinct_update)
  next
    fix h as
    assume "map_of (bucketRemove a (q_hash (hp a)) m) h = Some as"
    then show "as \<noteq> []" "\<forall>x\<in>set as. q_hash (hp x) = h"
      using ok rm by (auto simp: bucketRemove_def Let_def index_ok_def split: if_splits)
  qed
  have "mset (goget m (q_hash (hp a))) = add_mset a (mset (remove1 a (goget m (q_hash (hp a)))))"
    using mem by simp
  then show "addrsOf (bucketRemove a (q_hash (hp a)) m) = addrsOf m - {#a#}"
    using addrsOf_delete [OF d, of "q_hash (hp a)"]
    by (simp add: bucketRemove_def Let_def addrsOf_update [OF d] del: mset_remove1)
qed

lemma index_insert:
  assumes ok: "index_ok hp m" and fresh: "a \<notin># addrsOf m"
  shows "index_ok (hp(a := it)) (AList.update (q_hash it) (goget m (q_hash it) @ [a]) m)"
    and "addrsOf (AList.update (q_hash it) (goget m (q_hash it) @ [a]) m) = add_mset a (addrsOf m)"
proof -
  have d: "distinct (map fst m)"
    using ok by (simp add: index_ok_def)
  have notin: "a \<notin> set as" if "map_of m h = Some as" for h as
    using fresh that by (auto dest: addrsOf_bucket)
  have old: "\<forall>x\<in>set (goget m h). q_hash ((hp(a := it)) x) = h" for h
    using ok notin by (cases "map_of m h") (auto simp: goget_def index_ok_def)
  show "index_ok (hp(a := it)) (AList.update (q_hash it) (goget m (q_hash it) @ [a]) m)"
    unfolding index_ok_def
  proof (intro conjI allI impI)
    show "distinct (map fst (AList.update (q_hash it) (goget m (q_hash it) @ [a]) m))"
      using d by (rule distinct_update)
  next
    fix h as
    assume "map_of (AList.update (q_hash it) (goget m (q_hash it) @ [a]) m) h = Some as"
    then show "as \<noteq> []" "\<forall>x\<in>set as. q_hash ((hp(a := it)) x) = h"
      using ok old [of "q_hash it"] old [of h] notin
      by (auto simp: index_ok_def split: if_splits)
  qed
  show "addrsOf (AList.update (q_hash it) (goget m (q_hash it) @ [a]) m) = add_mset a (addrsOf m)"
    using addrsOf_delete [OF d, of "q_hash it"] by (simp add: addrsOf_update [OF d])
qed

lemma index_ok_heap:
  "index_ok hp m \<Longrightarrow> (\<And>a. a \<in># addrsOf m \<Longrightarrow> q_hash (hp' a) = q_hash (hp a)) \<Longrightarrow> index_ok hp' m"
  unfolding index_ok_def by (metis addrsOf_bucket)

section \<open>The invariant\<close>

definition indexOf :: "('k, 'v) coordinator \<Rightarrow> string \<Rightarrow> addr multiset" where
  "indexOf c pk = (case partOf c pk of None \<Rightarrow> {#} | Some p \<Rightarrow> addrsOf (p_active p))"

definition batchAddrs :: "string \<Rightarrow> nat \<times> batchInflight \<Rightarrow> addr multiset" where
  "batchAddrs pk ib = (if b_partition (snd ib) = pk then mset (b_items (snd ib)) else {#})"

definition owned :: "('k, 'v) coordinator \<Rightarrow> string \<Rightarrow> addr multiset" where
  "owned c pk = sum_list (map (batchAddrs pk) (c_inflight c))"

definition hasActive :: "'k qitem \<Rightarrow> bool" where
  "hasActive it \<longleftrightarrow> (\<exists>w\<in>set (q_waiters it). w_active w)"

definition activeCount :: "'k qitem \<Rightarrow> int" where
  "activeCount it = int (length (filter w_active (q_waiters it)))"

definition parts_ok :: "('k, 'v) coordinator \<Rightarrow> bool" where
  "parts_ok c \<longleftrightarrow> distinct (map fst (c_partitions c)) \<and>
     (\<forall>pk p. partOf c pk = Some p \<longrightarrow> encoded (p_part p) = pk \<and>
        index_ok (c_heap c) (p_active p) \<and> p_live p = int (size (addrsOf (p_active p))))"

definition separated :: "('k, 'v) coordinator \<Rightarrow> bool" where
  "separated c \<longleftrightarrow>
     (\<forall>pk a. a \<in># indexOf c pk \<longrightarrow> a < c_next c \<and> Multiset.count (indexOf c pk) a = 1) \<and>
     (\<forall>pk pk' a. a \<in># indexOf c pk \<longrightarrow> a \<in># indexOf c pk' \<longrightarrow> pk = pk')"

definition inflight_ok :: "('k, 'v) coordinator \<Rightarrow> bool" where
  "inflight_ok c \<longleftrightarrow> distinct (map fst (c_inflight c)) \<and>
     c_activeProvider c = int (length (c_inflight c)) \<and>
     (\<forall>(i, b)\<in>set (c_inflight c). b_id b = i \<and> i \<le> c_batchSeq c \<and>
        (\<forall>a\<in>set (b_items b). q_dispatched (c_heap c a) \<and> q_batchID (c_heap c a) = i \<and>
           b_minSeq b \<le> q_seq (c_heap c a)))"

definition waiters_ok :: "('k, 'v) coordinator \<Rightarrow> bool" where
  "waiters_ok c \<longleftrightarrow> (\<forall>a<c_next c. activeCount (c_heap c a) \<le> q_activeWaiters (c_heap c a) \<and>
     (hasActive (c_heap c a) \<longrightarrow> (\<exists>pk. a \<in># indexOf c pk)))"

definition balanced :: "(string \<Rightarrow> addr multiset) \<Rightarrow> ('k, 'v) coordinator \<Rightarrow> bool" where
  "balanced pend c \<longleftrightarrow> (\<forall>pk. indexOf c pk = pend pk + owned c pk)"

definition undispatched ::
  "addr set \<Rightarrow> (string \<Rightarrow> addr multiset) \<Rightarrow> ('k, 'v) coordinator \<Rightarrow> bool" where
  "undispatched X pend c \<longleftrightarrow> (\<forall>pk a. a \<in># pend pk \<longrightarrow> q_dispatched (c_heap c a) \<longrightarrow> a \<in> X)"

definition cinv ::
  "addr set \<Rightarrow> (string \<Rightarrow> addr multiset) \<Rightarrow> ('k, 'v) coordinator \<Rightarrow> bool" where
  "cinv X pend c \<longleftrightarrow> parts_ok c \<and> separated c \<and> inflight_ok c \<and> waiters_ok c \<and>
     balanced pend c \<and> undispatched X pend c"

lemma cinvI:
  "parts_ok c \<Longrightarrow> separated c \<Longrightarrow> inflight_ok c \<Longrightarrow> waiters_ok c \<Longrightarrow> balanced pend c \<Longrightarrow>
   undispatched X pend c \<Longrightarrow> cinv X pend c"
  by (simp add: cinv_def)

lemma cinvD:
  assumes "cinv X pend c"
  shows "parts_ok c" "separated c" "inflight_ok c" "waiters_ok c" "balanced pend c"
    "undispatched X pend c"
  using assms by (simp_all add: cinv_def)

lemma partOf_frame [simp]:
  "partOf (c\<lparr>c_heap := hp\<rparr>) k = partOf c k" "partOf (c\<lparr>c_next := n\<rparr>) k = partOf c k"
  "partOf (c\<lparr>c_inflight := m\<rparr>) k = partOf c k" "partOf (c\<lparr>c_activeProvider := i\<rparr>) k = partOf c k"
  "partOf (c\<lparr>c_batchSeq := b\<rparr>) k = partOf c k" "partOf (c\<lparr>c_blocked := bl\<rparr>) k = partOf c k"
  "partOf (c\<lparr>c_submitSeq := sq\<rparr>) k = partOf c k" "partOf (c\<lparr>c_closing := cl\<rparr>) k = partOf c k"
  "partOf (c\<lparr>c_done := cl\<rparr>) k = partOf c k" "partOf (c\<lparr>c_dyn := dy\<rparr>) k = partOf c k"
  "partOf (c\<lparr>c_barriers := bs\<rparr>) k = partOf c k" "partOf (c\<lparr>c_counters := cn\<rparr>) k = partOf c k"
  "partOf (c\<lparr>c_timer := t\<rparr>) k = partOf c k" "partOf (c\<lparr>c_timerActive := cl\<rparr>) k = partOf c k"
  "partOf (c\<lparr>e_requestSeq := r\<rparr>) k = partOf c k" "partOf (c\<lparr>e_reads := b\<rparr>) k = partOf c k"
  "partOf (c\<lparr>o_deliveries := ds\<rparr>) k = partOf c k" "partOf (c\<lparr>o_replies := rs\<rparr>) k = partOf c k"
  "partOf (c\<lparr>o_workers := ws\<rparr>) k = partOf c k" "partOf (c\<lparr>o_cancels := cs\<rparr>) k = partOf c k"
  "partOf (c\<lparr>o_events := es\<rparr>) k = partOf c k"
  by (simp_all add: partOf_def)

lemma map_fst_updPart [simp]: "map fst (c_partitions (updPart pk f c)) = map fst (c_partitions c)"
  by (simp add: updPart_def)

lemma updPart_frame [simp]:
  "c_heap (updPart pk f c) = c_heap c" "c_next (updPart pk f c) = c_next c"
  "c_inflight (updPart pk f c) = c_inflight c" "c_batchSeq (updPart pk f c) = c_batchSeq c"
  "c_activeProvider (updPart pk f c) = c_activeProvider c"
  by (simp_all add: updPart_def)

definition queued :: "('k, 'v) coordinator \<Rightarrow> string \<Rightarrow> addr multiset" where
  "queued c pk = mset (pendingOf c pk)"

definition coord_inv :: "('k, 'v) coordinator \<Rightarrow> bool" where
  "coord_inv c \<longleftrightarrow> cinv {} (queued c) c"

lemma activeCount_pos: "hasActive it \<Longrightarrow> 0 < activeCount it"
  by (auto simp: hasActive_def activeCount_def) (metis filter_empty_conv)

text \<open>Whatever does not touch the store, the index, the in-flight table keeps the invariant.\<close>

definition same_view :: "('k, 'v) coordinator \<Rightarrow> ('k, 'v) coordinator \<Rightarrow> bool" where
  "same_view c d \<longleftrightarrow> c_heap d = c_heap c \<and> c_next d = c_next c \<and> c_inflight d = c_inflight c \<and>
     c_activeProvider d = c_activeProvider c \<and> c_batchSeq d = c_batchSeq c \<and>
     map fst (c_partitions d) = map fst (c_partitions c) \<and>
     (\<forall>pk. map_option (\<lambda>p. (p_part p, p_active p, p_live p)) (partOf d pk) =
           map_option (\<lambda>p. (p_part p, p_active p, p_live p)) (partOf c pk))"

lemma same_view_part:
  "same_view c d \<Longrightarrow> map_option (\<lambda>p. (p_part p, p_active p, p_live p)) (partOf d pk) =
     map_option (\<lambda>p. (p_part p, p_active p, p_live p)) (partOf c pk)"
  by (simp add: same_view_def)

lemma same_view_indexOf: "same_view c d \<Longrightarrow> indexOf d pk = indexOf c pk"
  using same_view_part [of c d pk] by (auto simp: indexOf_def split: option.splits)

lemma cinv_view:
  assumes v: "same_view c d" and c: "cinv X pend c"
  shows "cinv X pend d"
proof -
  have idx: "indexOf d = indexOf c"
    using same_view_indexOf [OF v] by blast
  have "parts_ok d"
    unfolding parts_ok_def
  proof (intro conjI allI impI)
    show "distinct (map fst (c_partitions d))"
      using v c by (simp add: same_view_def cinv_def parts_ok_def)
  next
    fix pk p
    assume "partOf d pk = Some p"
    then obtain q where q: "partOf c pk = Some q" "p_part p = p_part q" "p_active p = p_active q"
        "p_live p = p_live q"
      using same_view_part [OF v, of pk] by (cases "partOf c pk") auto
    with v c show "encoded (p_part p) = pk" "index_ok (c_heap d) (p_active p)"
        "p_live p = int (size (addrsOf (p_active p)))"
      by (auto simp: cinv_def parts_ok_def same_view_def)
  qed
  then show ?thesis
    using v cinvD [OF c] idx by (intro cinvI)
      (simp_all add: same_view_def separated_def inflight_ok_def waiters_ok_def balanced_def
        undispatched_def owned_def)
qed

lemma same_view_refl [simp]: "same_view c c"
  by (simp add: same_view_def)

lemma same_view_trans: "same_view c d \<Longrightarrow> same_view d e \<Longrightarrow> same_view c e"
  by (simp add: same_view_def)

lemma same_view_updPart:
  "(\<And>p. p_part (f p) = p_part p) \<Longrightarrow> (\<And>p. p_active (f p) = p_active p) \<Longrightarrow>
   (\<And>p. p_live (f p) = p_live p) \<Longrightarrow> same_view c (updPart pk f c)"
  by (auto simp: same_view_def updPart_def partOf_def option.map_comp comp_def)

subsection \<open>Moves of single items\<close>

lemma indexOf_decLive_removeActive:
  assumes ok: "parts_ok c" and a: "a \<in># indexOf c pk"
  shows "indexOf (decLive pk (removeActive pk a c)) k =
      (if k = pk then indexOf c pk - {#a#} else indexOf c k)"
    and "parts_ok (decLive pk (removeActive pk a c))"
proof -
  obtain p where p: "partOf c pk = Some p" and ap: "a \<in># addrsOf (p_active p)"
    using a by (cases "partOf c pk") (auto simp: indexOf_def)
  have idx: "index_ok (c_heap c) (p_active p)"
    using ok p by (simp add: parts_ok_def)
  note rm = index_bucketRemove [OF idx ap]
  show "indexOf (decLive pk (removeActive pk a c)) k =
      (if k = pk then indexOf c pk - {#a#} else indexOf c k)"
    using p rm by (simp add: indexOf_def decLive_def removeActive_def)
  have "size (addrsOf (p_active p)) = Suc (size (addrsOf (p_active p) - {#a#}))"
    using ap by (metis insert_DiffM size_add_mset)
  then show "parts_ok (decLive pk (removeActive pk a c))"
    using ok p rm by (auto simp: parts_ok_def decLive_def removeActive_def split: if_splits)
qed

lemma cinv_retire:
  assumes c: "cinv X pend c" and a: "a \<in># pend pk" and noone: "\<not> hasActive (c_heap c a)"
  shows "cinv X (pend(pk := pend pk - {#a#})) (decLive pk (removeActive pk a c))"
proof -
  let ?d = "decLive pk (removeActive pk a c)"
  note cD = cinvD [OF c]
  have ia: "a \<in># indexOf c pk"
    using cD(5) a by (simp add: balanced_def)
  note idx = indexOf_decLive_removeActive [OF cD(1) ia]
  have fields: "c_heap ?d = c_heap c" "c_next ?d = c_next c" "c_inflight ?d = c_inflight c"
      "c_activeProvider ?d = c_activeProvider c" "c_batchSeq ?d = c_batchSeq c"
    by (simp_all add: decLive_def removeActive_def)
  have own: "owned ?d = owned c"
    by (simp add: owned_def fields fun_eq_iff)
  have one: "Multiset.count (indexOf c pk) a = 1"
    using cD(2) ia by (simp add: separated_def)
  have sub: "x \<in># indexOf ?d k \<Longrightarrow> x \<in># indexOf c k \<and>
      Multiset.count (indexOf ?d k) x = Multiset.count (indexOf c k) x" for x k
    using one by (auto simp: idx(1) in_diff_count split: if_splits dest: in_diffD)
  show ?thesis
  proof (intro cinvI)
    show "separated ?d"
      unfolding separated_def fields
    proof (intro conjI allI impI)
      fix k k' x
      assume "x \<in># indexOf ?d k"
      note x = sub [OF this]
      then show "x < c_next c" "Multiset.count (indexOf ?d k) x = 1"
        using cD(2) unfolding separated_def by metis+
      assume "x \<in># indexOf ?d k'"
      from x sub [OF this] show "k = k'"
        using cD(2) unfolding separated_def by blast
    qed
    show "inflight_ok ?d"
      using cD(3) by (simp add: inflight_ok_def fields)
    show "balanced (pend(pk := pend pk - {#a#})) ?d"
      using cD(5) a by (simp add: balanced_def idx(1) own)
    show "undispatched X (pend(pk := pend pk - {#a#})) ?d"
      using cD(6) by (auto simp: undispatched_def fields dest: in_diffD)
    show "waiters_ok ?d"
      unfolding waiters_ok_def fields
    proof (intro allI impI conjI)
      fix x
      assume x: "x < c_next c"
      then show "activeCount (c_heap c x) \<le> q_activeWaiters (c_heap c x)"
        using cD(4) by (simp add: waiters_ok_def)
      assume act: "hasActive (c_heap c x)"
      then obtain k where "x \<in># indexOf c k"
        using cD(4) x by (auto simp: waiters_ok_def)
      moreover have "x \<noteq> a"
        using act noone by auto
      ultimately show "\<exists>k. x \<in># indexOf ?d k"
        by (intro exI [of _ k]) (auto simp: idx(1) in_diff_count)
    qed
  qed (rule idx(2))
qed

lemma cinv_heap:
  assumes c: "cinv X pend c"
    and same: "\<And>a. q_hash (hp a) = q_hash (c_heap c a)"
      "\<And>a. q_dispatched (hp a) = q_dispatched (c_heap c a)"
      "\<And>a. q_batchID (hp a) = q_batchID (c_heap c a)"
      "\<And>a. q_seq (hp a) = q_seq (c_heap c a)"
    and act: "\<And>a. a < c_next c \<Longrightarrow> activeCount (hp a) \<le> q_activeWaiters (hp a)"
      "\<And>a. a < c_next c \<Longrightarrow> hasActive (hp a) \<Longrightarrow> hasActive (c_heap c a) \<or> (\<exists>pk. a \<in># indexOf c pk)"
  shows "cinv X pend (c\<lparr>c_heap := hp\<rparr>)"
proof -
  note cD = cinvD [OF c]
  have idx: "indexOf (c\<lparr>c_heap := hp\<rparr>) = indexOf c" "owned (c\<lparr>c_heap := hp\<rparr>) = owned c"
    by (simp_all add: fun_eq_iff indexOf_def owned_def)
  show ?thesis
  proof (intro cinvI)
    show "parts_ok (c\<lparr>c_heap := hp\<rparr>)"
      using cD(1) same(1) by (auto simp: parts_ok_def intro: index_ok_heap)
    show "waiters_ok (c\<lparr>c_heap := hp\<rparr>)"
      using cD(4) act by (fastforce simp: waiters_ok_def idx)
  qed (use cD same(2,3,4) in \<open>simp_all add: idx separated_def inflight_ok_def balanced_def
      undispatched_def\<close>)
qed

lemma hasActive_silenced [simp]:
  "\<not> hasActive (it\<lparr>q_waiters := map (\<lambda>w. w\<lparr>w_active := False\<rparr>) ws\<rparr>)"
  "activeCount (it\<lparr>q_waiters := map (\<lambda>w. w\<lparr>w_active := False\<rparr>) ws\<rparr>) = 0"
  by (simp_all add: hasActive_def activeCount_def)

lemma activeCount_nonneg [simp]: "0 \<le> activeCount it"
  by (simp add: activeCount_def)

lemma cinv_deliverItem:
  assumes c: "cinv X pend c"
  shows "cinv X pend (deliverItem a r c)" "\<not> hasActive (c_heap (deliverItem a r c) a)"
proof -
  let ?hp = "(c_heap c)(a := (c_heap c a)\<lparr>q_waiters :=
          map (\<lambda>w. w\<lparr>w_active := False\<rparr>) (q_waiters (c_heap c a))\<rparr>)"
  have le: "activeCount (c_heap c x) \<le> q_activeWaiters (c_heap c x)" if "x < c_next c" for x
    using cinvD(4) [OF c] that by (simp add: waiters_ok_def)
  have nonneg: "0 \<le> q_activeWaiters (c_heap c x)" if "x < c_next c" for x
    using le [OF that] activeCount_nonneg [of "c_heap c x"] by linarith
  have "cinv X pend (c\<lparr>c_heap := ?hp\<rparr>)"
    by (rule cinv_heap [OF c]) (auto simp: le nonneg split: if_splits)
  then show "cinv X pend (deliverItem a r c)"
    by (rule cinv_view [rotated]) (simp add: same_view_def deliverItem_eq)
  show "\<not> hasActive (c_heap (deliverItem a r c) a)"
    by (simp add: deliverItem_eq)
qed

lemma cinv_resolve:
  assumes "cinv X pend c" "a \<in># pend pk"
  shows "cinv X (pend(pk := pend pk - {#a#})) (decLive pk (removeActive pk a (deliverItem a r c)))"
  using assms by (intro cinv_retire cinv_deliverItem)

lemma cinv_maybeRetire:
  assumes c: "cinv X pend c"
  shows "cinv X pend (maybeRetire pk c)"
proof (cases "maybeRetire pk c = c")
  case False
  then obtain p where p: "partOf c pk = Some p" "p_active p = []"
    by (auto simp: maybeRetire_def split: option.splits if_splits)
  let ?d = "c\<lparr>c_partitions := AList.delete pk (c_partitions c)\<rparr>"
  note cD = cinvD [OF c]
  have part: "partOf ?d k = (if k = pk then None else partOf c k)" for k
    by (simp add: partOf_def)
  have idx: "indexOf ?d = indexOf c" "owned ?d = owned c"
    using p by (simp_all add: fun_eq_iff indexOf_def part owned_def)
  have "cinv X pend ?d"
  proof (intro cinvI)
    show "parts_ok ?d"
      using cD(1) by (auto simp: parts_ok_def part distinct_delete split: if_splits)
  qed (use cD in \<open>simp_all add: idx separated_def inflight_ok_def waiters_ok_def balanced_def
      undispatched_def\<close>)
  then have "cinv X pend (activePartitionsGauge ?d)"
    by (rule cinv_view [rotated]) (simp add: same_view_def activePartitionsGauge_def tally_def)
  then show ?thesis
    using False p by (auto simp: maybeRetire_def split: if_splits)
qed (use c in simp)

lemma cinv_shrink: "cinv X pend c \<Longrightarrow> (\<And>pk a. a \<in># pend pk \<Longrightarrow> a \<notin> X) \<Longrightarrow> cinv Y pend c"
  by (auto simp: cinv_def undispatched_def)

text \<open>Submission.\<close>

lemma newPartitionState_fields [simp]:
  "p_part (newPartitionState pt) = pt" "p_active (newPartitionState pt) = []"
  "p_live (newPartitionState pt) = 0" "p_pending (newPartitionState pt) = []"
  by (simp_all add: newPartitionState_def)

lemma cinv_newPartition:
  assumes c: "cinv X pend c" and new: "partOf c (encoded pt) = None"
  shows "cinv X pend (activePartitionsGauge
    (c\<lparr>c_partitions := AList.update (encoded pt) (newPartitionState pt) (c_partitions c)\<rparr>))"
proof -
  let ?d = "c\<lparr>c_partitions := AList.update (encoded pt) (newPartitionState pt) (c_partitions c)\<rparr>"
  note cD = cinvD [OF c]
  have part: "partOf ?d k = (if k = encoded pt then Some (newPartitionState pt) else partOf c k)" for k
    by (simp add: partOf_def)
  have idx: "indexOf ?d = indexOf c" "owned ?d = owned c"
    using new by (simp_all add: fun_eq_iff indexOf_def part owned_def)
  have "cinv X pend ?d"
  proof (intro cinvI)
    show "parts_ok ?d"
      using cD(1) by (auto simp: parts_ok_def part distinct_update index_ok_def
          split: if_splits)
  qed (use cD in \<open>simp_all add: idx separated_def inflight_ok_def waiters_ok_def balanced_def
      undispatched_def\<close>)
  then show ?thesis
    by (rule cinv_view [rotated]) (simp add: same_view_def activePartitionsGauge_def tally_def)
qed

lemma owned_member: "(i, b) \<in> set (c_inflight c) \<Longrightarrow> a \<in> set (b_items b) \<Longrightarrow> a \<in># owned c (b_partition b)"
  by (force simp: owned_def batchAddrs_def)

lemma cinv_insert:
  assumes c: "cinv X pend c" and p: "partOf c pk = Some p"
    and f: "\<And>p. p_part (f p) = p_part p" "\<And>p. p_live (f p) = p_live p + 1"
      "\<And>p. p_active (f p) = AList.update (q_hash it) (goget (p_active p) (q_hash it) @ [c_next c]) (p_active p)"
    and it: "activeCount it \<le> q_activeWaiters it" "\<not> q_dispatched it"
  shows "cinv X (pend(pk := add_mset (c_next c) (pend pk)))
    (updPart pk f (c\<lparr>c_heap := (c_heap c)(c_next c := it), c_next := Suc (c_next c)\<rparr>))"
proof -
  let ?a = "c_next c"
  let ?e = "c\<lparr>c_heap := (c_heap c)(c_next c := it), c_next := Suc (c_next c)\<rparr>"
  let ?d = "updPart pk f ?e"
  note cD = cinvD [OF c]
  have lt: "x \<in># indexOf c k \<Longrightarrow> x < ?a" for x k
    using cD(2) by (simp add: separated_def)
  then have fresh: "?a \<notin># indexOf c k" for k by blast
  have ok: "index_ok (c_heap c) (p_active p)" "?a \<notin># addrsOf (p_active p)"
    using cD(1) p fresh [of pk] by (simp_all add: parts_ok_def indexOf_def)
  note ins = index_insert [OF ok, of it]
  have part: "partOf ?d k = (if k = pk then Some (f p) else partOf c k)" for k
    using p by simp
  have idx: "indexOf ?d k = (if k = pk then add_mset ?a (indexOf c pk) else indexOf c k)" for k
    using p ins by (simp add: indexOf_def f)
  have own: "owned ?d = owned c"
    by (simp add: fun_eq_iff owned_def)
  have notowned: "?a \<notin># owned c k" for k
    using cD(5) fresh [of k] by (simp add: balanced_def)
  have notpend: "?a \<notin># pend k" for k
    using cD(5) fresh [of k] by (simp add: balanced_def)
  show ?thesis
  proof (intro cinvI)
    show "parts_ok ?d"
      unfolding parts_ok_def
    proof (intro conjI allI impI)
      fix k q
      assume q: "partOf ?d k = Some q"
      show "encoded (p_part q) = k" "p_live q = int (size (addrsOf (p_active q)))"
        using q cD(1) p ins by (auto simp: part parts_ok_def f split: if_splits)
      show "index_ok (c_heap ?d) (p_active q)"
      proof (cases "k = pk")
        case True
        then show ?thesis using q ins by (auto simp: p f)
      next
        case False
        with q have qk: "partOf c k = Some q" by simp
        with cD(1) have "index_ok (c_heap c) (p_active q)"
          by (simp add: parts_ok_def)
        then show ?thesis
          using qk fresh [of k] by (auto simp: indexOf_def elim!: index_ok_heap)
      qed
    qed (use cD(1) in \<open>simp add: parts_ok_def\<close>)
    show "separated ?d"
      using cD(2) fresh lt by (auto simp: separated_def idx less_Suc_eq count_eq_zero_iff)
    show "inflight_ok ?d"
    proof -
      have "x \<noteq> ?a" if "(i, b) \<in> set (c_inflight c)" "x \<in> set (b_items b)" for x i b
        using notowned [of "b_partition b"] owned_member [OF that] by blast
      then show ?thesis
        using cD(3) by (fastforce simp: inflight_ok_def)
    qed
    show "waiters_ok ?d"
      using cD(4) it(1) by (auto simp: waiters_ok_def idx less_Suc_eq)
    show "balanced (pend(pk := add_mset ?a (pend pk))) ?d"
      using cD(5) by (simp add: balanced_def idx own)
    show "undispatched X (pend(pk := add_mset ?a (pend pk))) ?d"
      using cD(6) it(2) notpend by (auto simp: undispatched_def)
  qed
qed

text \<open>Dispatch and completion move a whole batch.\<close>

lemma update_fresh: "k \<notin> fst ` set m \<Longrightarrow> AList.update k v m = m @ [(k, v)]"
  by (induction m) auto

lemma cinv_pend_only:
  assumes c: "cinv X pend c" and a: "a \<in># pend pk"
  shows "a \<notin># owned c k" "k \<noteq> pk \<Longrightarrow> a \<notin># pend k" "Multiset.count (pend pk) a = 1"
proof -
  note cD = cinvD [OF c]
  have ia: "a \<in># indexOf c pk"
    using cD(5) a by (simp add: balanced_def)
  then have "Multiset.count (indexOf c pk) a = 1"
    using cD(2) by (simp add: separated_def)
  then have one: "Multiset.count (pend pk) a + Multiset.count (owned c pk) a = 1"
    using cD(5) by (simp add: balanced_def)
  moreover have "0 < Multiset.count (pend pk) a"
    using a by simp
  ultimately show "Multiset.count (pend pk) a = 1"
    by linarith
  with one have "a \<notin># owned c pk"
    by (simp add: not_in_iff)
  moreover have "a \<notin># indexOf c k" if "k \<noteq> pk" for k
    using cD(2) ia that by (auto simp: separated_def)
  ultimately show "a \<notin># owned c k" "k \<noteq> pk \<Longrightarrow> a \<notin># pend k"
    using cD(5) by (cases "k = pk"; auto simp: balanced_def)+
qed

lemma cinv_launch:
  assumes c: "cinv X pend c" and sel: "mset sel \<subseteq># pend pk"
    and b: "b_id b = Suc (c_batchSeq c)" "b_items b = sel" "b_partition b = pk"
      "\<forall>a\<in>set sel. b_minSeq b \<le> q_seq (c_heap c a)"
  shows "cinv X (pend(pk := pend pk - mset sel))
    (c\<lparr>c_batchSeq := Suc (c_batchSeq c),
       c_heap := (\<lambda>a. if a \<in> set sel
         then (c_heap c a)\<lparr>q_dispatched := True, q_batchID := Suc (c_batchSeq c)\<rparr> else c_heap c a),
       c_inflight := AList.update (Suc (c_batchSeq c)) b (c_inflight c),
       c_activeProvider := c_activeProvider c + 1\<rparr>)" (is "cinv X ?pend ?d")
proof -
  note cD = cinvD [OF c]
  have new: "Suc (c_batchSeq c) \<notin> fst ` set (c_inflight c)"
    using cD(3) by (fastforce simp: inflight_ok_def)
  then have inf: "c_inflight ?d = c_inflight c @ [(Suc (c_batchSeq c), b)]"
    by (simp add: update_fresh)
  have idx: "indexOf ?d = indexOf c"
    by (simp add: fun_eq_iff indexOf_def)
  have own: "owned ?d k = owned c k + (if k = pk then mset sel else {#})" for k
    by (simp add: owned_def inf batchAddrs_def b del: coordinator.simps)
  have pend: "a \<in># pend pk" if "a \<in> set sel" for a
    using sel that by (meson mset_subset_eqD set_mset_mset in_multiset_in_set)
  have hash: "q_hash (c_heap ?d a) = q_hash (c_heap c a)" "hasActive (c_heap ?d a) = hasActive (c_heap c a)"
     "activeCount (c_heap ?d a) = activeCount (c_heap c a)"
     "q_activeWaiters (c_heap ?d a) = q_activeWaiters (c_heap c a)" for a
    by (simp_all add: hasActive_def activeCount_def)
  show ?thesis
  proof (intro cinvI)
    show "parts_ok ?d"
      using cD(1) by (auto simp: parts_ok_def intro: index_ok_heap [of "c_heap c"])
    show "separated ?d"
      using cD(2) by (simp add: separated_def idx)
    show "waiters_ok ?d"
      using cD(4) unfolding waiters_ok_def idx hash by simp
    show "balanced ?pend ?d"
      using cD(5) sel by (simp add: balanced_def idx own)
    show "undispatched X ?pend ?d"
    proof -
      have "a \<notin> set sel" if "a \<in># ?pend k" for a k
        using that cinv_pend_only [OF c pend] sel
        by (cases "k = pk") (auto simp: in_diff_count subseteq_mset_def not_less dest: spec [of _ a])
      then show ?thesis
        using cD(6) by (auto simp: undispatched_def dest: in_diffD split: if_splits)
    qed
    show "inflight_ok ?d"
    proof -
      have "a \<notin> set sel" if "(i, b') \<in> set (c_inflight c)" "a \<in> set (b_items b')" for a i b'
        using owned_member [OF that] cinv_pend_only(1) [OF c pend] by blast
      then show ?thesis
        using cD(3) new unfolding inflight_ok_def inf
        by (fastforce simp: b le_SucI)
    qed
  qed
qed

lemma owned_delete:
  assumes "distinct (map fst m)" "map_of m i = Some b"
  shows "sum_list (map (batchAddrs pk) m) =
    batchAddrs pk (i, b) + sum_list (map (batchAddrs pk) (AList.delete i m))"
  using assms
proof (induction m)
  case (Cons e m)
  show ?case
  proof (cases "fst e = i")
    case True
    then have "i \<notin> fst ` set m" using Cons.prems by auto
    with True Cons.prems show ?thesis by (cases e) (simp add: delete_id)
  next
    case False
    then show ?thesis using Cons by (cases e) auto
  qed
qed simp

lemma cinv_release:
  assumes c: "cinv {} pend c" and b: "map_of (c_inflight c) i = Some b"
  shows "cinv (set (b_items b)) (pend(b_partition b := pend (b_partition b) + mset (b_items b)))
    (c\<lparr>c_inflight := AList.delete i (c_inflight c), c_activeProvider := c_activeProvider c - 1\<rparr>)"
    (is "cinv _ ?pend ?d")
proof -
  note cD = cinvD [OF c]
  have idx: "indexOf ?d = indexOf c"
    by (simp add: fun_eq_iff indexOf_def)
  have "distinct (map fst (c_inflight c))"
    using cD(3) by (simp add: inflight_ok_def)
  then have own: "owned c k = batchAddrs k (i, b) + owned ?d k" for k
    using owned_delete [OF _ b] by (simp add: owned_def)
  show ?thesis
  proof (intro cinvI)
    show "parts_ok ?d"
      using cD(1) by (simp add: parts_ok_def)
    show "separated ?d"
      using cD(2) by (simp add: separated_def idx)
    show "waiters_ok ?d"
      using cD(4) by (simp add: waiters_ok_def idx)
    show "balanced ?pend ?d"
      using cD(5) by (simp add: balanced_def idx own batchAddrs_def)
    show "undispatched (set (b_items b)) ?pend ?d"
      using cD(6) by (auto simp: undispatched_def)
    show "inflight_ok ?d"
    proof -
      have "set (AList.delete i (c_inflight c)) \<subseteq> set (c_inflight c)"
        by (auto simp: AList.delete_eq)
      then show ?thesis
        using cD(3) length_delete_present [OF _ b]
        by (fastforce simp: inflight_ok_def distinct_delete simp flip: of_nat_Suc)
    qed
  qed
qed

end
