(* ===== verification/Coordinator_Selection.thy ===== *)
theory Coordinator_Selection
  imports Coordinator_Frame "HOL-Library.Sublist"
begin

text \<open>
  What the selection loop of dispatchBatch computes: the batch items are those of the selected
  addresses, in queue order, with their 64-bit totals and their smallest sequence number, and
  the oldest item that can be sent is always taken.
\<close>

section \<open>Selection\<close>

lemma clampWeight_pos [simp]: "\<not> clampWeight w < 1"
  by (simp add: clampWeight_def)

text \<open>The items selectLoop may take do not change under its feet.\<close>

definition same_items :: "('k, 'v) coordinator \<Rightarrow> ('k, 'v) coordinator \<Rightarrow> bool" where
  "same_items c d \<longleftrightarrow> c_dyn d = c_dyn c \<and> (\<forall>a. q_weight (c_heap d a) = q_weight (c_heap c a) \<and>
     q_bytes (c_heap d a) = q_bytes (c_heap c a) \<and> q_id (c_heap d a) = q_id (c_heap c a) \<and>
     q_key (c_heap d a) = q_key (c_heap c a) \<and> q_seq (c_heap d a) = q_seq (c_heap c a) \<and>
     q_activeWaiters (c_heap d a) = q_activeWaiters (c_heap c a))"

lemma same_items_refl [simp]: "same_items c c"
  by (simp add: same_items_def)

lemma same_items_trans: "same_items c d \<Longrightarrow> same_items d e \<Longrightarrow> same_items c e"
  by (simp add: same_items_def)

lemma same_items_drop:
  "same_items c (decQueued (decLive pk (removeActive pk a c)))"
  "same_items c (decQueued (failItem pk a e c))"
  by (simp_all add: same_items_def decQueued_def tally_def decLive_def removeActive_def updPart_def
      failItem_def deliverItem_eq)

text \<open>
  The items and sizes of a selection, read off its addresses: one batch item per selected
  address, in order, and the running totals the loop keeps.
\<close>

definition selection_ok :: "('k, 'v) coordinator \<Rightarrow> 'k selection \<Rightarrow> bool" where
  "selection_ok c s \<longleftrightarrow> sl_count s = int (length (sl_selected s)) \<and>
     map item_Key (sl_items s) = map (\<lambda>a. q_key (c_heap c a)) (sl_selected s) \<and>
     map item_ID (sl_items s) = map (\<lambda>a. q_id (c_heap c a)) (sl_selected s) \<and>
     (\<forall>a\<in>set (sl_selected s). sl_minSeq s \<le> q_seq (c_heap c a) \<and> q_activeWaiters (c_heap c a) \<noteq> 0) \<and>
     sl_weight s = i64 (\<Sum>a\<leftarrow>sl_selected s. q_weight (c_heap c a)) \<and>
     sl_bytes s = i64 (\<Sum>a\<leftarrow>sl_selected s. q_bytes (c_heap c a))"

lemma selection_ok_same: "same_items c d \<Longrightarrow> selection_ok c s \<Longrightarrow> selection_ok d s"
  by (simp add: selection_ok_def same_items_def)

lemma batchItemOf_fields [simp]:
  "item_Key (batchItemOf it) = q_key it" "item_ID (batchItemOf it) = q_id it"
  by (simp_all add: batchItemOf_def Let_def WithWeight_def WithDeadline_def NewBatchItem_def split_beta)

lemma i64_add_left: "i64 (i64 x + y) = i64 (x + y)"
proof -
  have "i64 x + y + 2 ^ 63 = (x + 2 ^ 63) mod 2 ^ 64 + y"
    by (simp add: i64_def)
  then have "(i64 x + y + 2 ^ 63) mod 2 ^ 64 = (x + 2 ^ 63 + y) mod 2 ^ 64"
    by (simp only: mod_add_left_eq)
  also have "x + 2 ^ 63 + y = x + y + 2 ^ 63"
    by simp
  finally show ?thesis
    unfolding i64_def [of "i64 x + y"] i64_def [of "x + y"] by simp
qed

lemma selection_ok_take:
  "selection_ok c s \<Longrightarrow> q_activeWaiters (c_heap c a) \<noteq> 0 \<Longrightarrow>
     selection_ok c (selectItem a (c_heap c a) s)"
  by (auto simp: selection_ok_def selectItem_def i64_add_left)

lemma selectLoop_ok:
  assumes "selectLoop cfg pk as s c = (s', c')" "selection_ok c s"
  shows "selection_ok c' s' \<and> same_items c c'"
  using assms
proof (induction as arbitrary: s c)
  case (Cons a as)
  let ?gone = "decQueued (decLive pk (removeActive pk a c))"
  let ?large = "decQueued (failItem pk a ErrItemTooLarge c)"
  let ?rest = "s\<lparr>sl_remaining := sl_remaining s @ [a]\<rparr>"
  note drop = same_items_drop [of c pk a]
  have rest: "selection_ok c ?rest"
    using Cons.prems(2) by (simp add: selection_ok_def)
  consider (gone) "selectLoop cfg pk as s ?gone = (s', c')"
    | (large) "selectLoop cfg pk as s ?large = (s', c')"
    | (rest) "selectLoop cfg pk as ?rest c = (s', c')"
    | (take) "selectLoop cfg pk as (selectItem a (c_heap c a) s) c = (s', c')"
        "q_activeWaiters (c_heap c a) \<noteq> 0"
    using Cons.prems(1) by (auto simp: Let_def split: if_splits)
  then show ?case
  proof cases
    case gone
    with Cons.IH [OF gone selection_ok_same [OF drop(1) Cons.prems(2)]] drop(1)
    show ?thesis by (blast intro: same_items_trans)
  next
    case large
    with Cons.IH [OF large selection_ok_same [OF drop(2) Cons.prems(2)]] drop(2)
    show ?thesis by (blast intro: same_items_trans)
  next
    case rest': rest
    from Cons.IH [OF rest' rest] show ?thesis .
  next
    case take
    from Cons.IH [OF take(1) selection_ok_take [OF Cons.prems(2) take(2)]] show ?thesis .
  qed
qed simp

lemma i64_zero [simp]: "i64 0 = 0"
  by (simp add: i64_def)

lemma selection_ok_none: "selection_ok c noSelection"
  by (simp add: selection_ok_def noSelection_def)

text \<open>Order.\<close>

lemma selectLoop_order:
  assumes "selectLoop cfg pk as s c = (s', c')"
  shows "\<exists>xs ys. sl_selected s' = sl_selected s @ xs \<and> sl_remaining s' = sl_remaining s @ ys \<and>
    subseq xs as \<and> subseq ys as"
  using assms
proof (induction as arbitrary: s c)
  case (Cons a as)
  let ?gone = "decQueued (decLive pk (removeActive pk a c))"
  let ?large = "decQueued (failItem pk a ErrItemTooLarge c)"
  let ?rest = "s\<lparr>sl_remaining := sl_remaining s @ [a]\<rparr>"
  let ?take = "selectItem a (c_heap c a) s"
  consider (drop) d where "selectLoop cfg pk as s d = (s', c')"
    | (rest) "selectLoop cfg pk as ?rest c = (s', c')"
    | (take) "selectLoop cfg pk as ?take c = (s', c')"
    using Cons.prems by (auto simp: Let_def split: if_splits)
  then show ?case
  proof cases
    case (drop d)
    from Cons.IH [OF drop] show ?thesis by (blast intro: list_emb_Cons)
  next
    case rest
    from Cons.IH [OF rest] obtain xs ys where "sl_selected s' = sl_selected s @ xs"
        "sl_remaining s' = sl_remaining s @ a # ys" "subseq xs as" "subseq ys as"
      by auto
    then show ?thesis by (intro exI [of _ xs] exI [of _ "a # ys"]) auto
  next
    case take
    from Cons.IH [OF take] obtain xs ys where "sl_selected s' = sl_selected s @ a # xs"
        "sl_remaining s' = sl_remaining s @ ys" "subseq xs as" "subseq ys as"
      by (auto simp: selectItem_def)
    then show ?thesis by (intro exI [of _ "a # xs"] exI [of _ ys]) auto
  qed
qed auto

definition eligible :: "'k bindingConfig \<Rightarrow> 'k qitem \<Rightarrow> bool" where
  "eligible cfg it \<longleftrightarrow> q_activeWaiters it \<noteq> 0 \<and> \<not> itemTooLarge cfg it"

lemma selectLoop_first:
  assumes "sl_selected s = []"
  shows "case List.find (\<lambda>a. eligible cfg (c_heap c a)) as of
      None \<Rightarrow> sl_selected (fst (selectLoop cfg pk as s c)) = []
    | Some a \<Rightarrow> \<exists>xs. sl_selected (fst (selectLoop cfg pk as s c)) = a # xs"
  using assms
proof (induction as arbitrary: c)
  case (Cons a as)
  have same: "eligible cfg (c_heap d x) = eligible cfg (c_heap c x)" if "same_items c d" for d x
    using that by (simp add: same_items_def eligible_def itemTooLarge_def)
  show ?case
  proof (cases "eligible cfg (c_heap c a)")
    case True
    obtain s' c' where r: "selectLoop cfg pk as (selectItem a (c_heap c a) s) c = (s', c')"
      by fastforce
    with True Cons.prems selectLoop_order [OF r] show ?thesis
      by (auto simp: eligible_def Let_def selectItem_def)
  next
    case False
    have "\<exists>d. selectLoop cfg pk (a # as) s c = selectLoop cfg pk as s d \<and> same_items c d"
      using False Cons.prems same_items_drop [of c pk a] by (auto simp: eligible_def Let_def)
    then obtain d where d: "selectLoop cfg pk (a # as) s c = selectLoop cfg pk as s d" "same_items c d"
      by blast
    have "(\<lambda>x. eligible cfg (c_heap d x)) = (\<lambda>x. eligible cfg (c_heap c x))"
      using same [OF d(2)] by simp
    with Cons.IH [OF Cons.prems, of d] False show ?thesis
      unfolding d(1) by simp
  qed
qed simp

end
