(* ===== verification/Coordinator_Safety.thy ===== *)
theory Coordinator_Safety
  imports Coordinator_Inv Coordinator_Selection
begin

text \<open>
  Every operation of the coordinator keeps the ownership invariant of \<open>Coordinator_Inv\<close>, so it
  holds in every state the event loop can reach.
\<close>

section \<open>Queue operations\<close>

lemma coord_inv_view:
  "coord_inv c \<Longrightarrow> same_view c d \<Longrightarrow> queued d = queued c \<Longrightarrow> coord_inv d"
  by (simp add: coord_inv_def cinv_view)

lemma queued_updPart:
  "(\<And>p. p_pending (f p) = p_pending p) \<Longrightarrow> queued (updPart pk f c) = queued c"
  by (auto simp: fun_eq_iff queued_def pendingOf_def split: option.split)

lemma updPart_absent: "partOf c pk = None \<Longrightarrow> updPart pk f c = c"
proof -
  have "map_of m pk = None \<Longrightarrow> AList.map_entry pk f m = m" for m
    by (induction m) (auto split: if_splits)
  then show "partOf c pk = None \<Longrightarrow> updPart pk f c = c"
    by (simp add: partOf_def updPart_def)
qed

lemma queued_None: "partOf c pk = None \<Longrightarrow> queued c pk = {#}"
  by (simp add: queued_def pendingOf_def)

lemma coord_inv_maybeRetire:
  assumes c: "coord_inv c"
  shows "coord_inv (maybeRetire pk c)" "queued (maybeRetire pk c) = queued c"
proof -
  have "queued c pk = {#}" if "partOf c pk = Some p" "p_active p = []" for p
    using cinvD(5) [OF c [unfolded coord_inv_def]] that
    by (auto simp: balanced_def indexOf_def dest: spec [of _ pk])
  then have "pendingOf c pk = []" if "partOf c pk = Some p" "p_active p = []" for p
    using that by (simp add: queued_def)
  then show q: "queued (maybeRetire pk c) = queued c"
    by (auto simp: fun_eq_iff queued_def maybeRetire_def activePartitionsGauge_def tally_def
        pendingOf_def partOf_def split: option.splits)
  show "coord_inv (maybeRetire pk c)"
    unfolding coord_inv_def q by (rule cinv_maybeRetire [OF c [unfolded coord_inv_def]])
qed

lemma noone_waits:
  assumes "cinv X pend c" "a \<in># pend pk" "q_activeWaiters (c_heap c a) = 0"
  shows "\<not> hasActive (c_heap c a)"
proof
  assume "hasActive (c_heap c a)"
  then have "0 < activeCount (c_heap c a)" by (rule activeCount_pos)
  moreover have "a < c_next c"
    using cinvD(2,5) [OF assms(1)] assms(2) unfolding separated_def balanced_def by force
  ultimately show False
    using cinvD(4) [OF assms(1)] assms(3) by (fastforce simp: waiters_ok_def)
qed

lemma coord_inv_removePendingItem:
  assumes c: "coord_inv c" and a: "a \<in> set (pendingOf c pk)" and noone: "\<not> hasActive (c_heap c a)"
  shows "coord_inv (removePendingItem pk a c)"
proof -
  let ?d = "decLive pk (removeActive pk a c)"
  define e where "e = tally (\<lambda>n. n\<lparr>n_queuedItems := n_queuedItems n - 1\<rparr>)
    (updPart pk (\<lambda>p. p\<lparr>p_live := p_live p - 1\<rparr>)
    (updPart pk (\<lambda>p. p\<lparr>p_weight := i64 (p_weight p - q_weight (c_heap c a))\<rparr>)
    (updPart pk (\<lambda>p. p\<lparr>p_bytes := i64 (p_bytes p - q_bytes (c_heap c a))\<rparr>)
    (removeActive pk a (updPart pk (\<lambda>p. p\<lparr>p_pending := remove1 a (p_pending p)\<rparr>) c)))))"
  have eq: "removePendingItem pk a c = maybeRetire pk e"
    by (simp add: removePendingItem_def Let_def e_def)
  have view: "same_view ?d e"
    by (simp add: same_view_def e_def decLive_def removeActive_def tally_def option.map_comp comp_def)
  have q: "queued e = (queued c)(pk := queued c pk - {#a#})"
    by (auto simp: fun_eq_iff queued_def pendingOf_def e_def removeActive_def split: option.split)
  have "cinv {} ((queued c)(pk := queued c pk - {#a#})) ?d"
    using c a noone by (intro cinv_retire) (simp_all add: coord_inv_def queued_def)
  then have "coord_inv e"
    unfolding coord_inv_def q using view by (rule cinv_view [rotated])
  then show ?thesis
    unfolding eq by (rule coord_inv_maybeRetire)
qed

lemma coord_inv_prune: "coord_inv c \<Longrightarrow> coord_inv (prune pk c)"
proof (induction pk c rule: prune.induct)
  case (1 pk c)
  show ?case
  proof (cases "pendingOf c pk")
    case Nil
    with 1 show ?thesis by (subst prune.simps) simp
  next
    case (Cons a as)
    show ?thesis
    proof (cases "q_activeWaiters (c_heap c a) = 0")
      case True
      then have "\<not> hasActive (c_heap c a)"
        using 1(2) Cons by (intro noone_waits [of "{}" "queued c" c a pk])
          (simp_all add: coord_inv_def queued_def)
      then have "coord_inv (removePendingItem pk a c)"
        using 1(2) Cons by (intro coord_inv_removePendingItem) simp_all
      then show ?thesis
        using 1(1) [OF Cons True] True Cons by (subst prune.simps) simp
    next
      case False
      with 1(2) Cons show ?thesis by (subst prune.simps) simp
    qed
  qed
qed

section \<open>Dispatch\<close>

lemma same_view_tally [simp]: "same_view c (tally f c)"
  by (simp add: same_view_def tally_def)

lemma cinv_tally [simp]: "cinv X pend (tally f c) = cinv X pend c"
proof
  have "same_view (tally f c) c"
    by (simp add: same_view_def tally_def)
  then show "cinv X pend (tally f c) \<Longrightarrow> cinv X pend c"
    by (rule cinv_view)
qed (rule cinv_view [OF same_view_tally])

lemma cinv_selectLoop:
  assumes "cinv {} pend c"
    "pend pk = mset as + mset (sl_selected s) + mset (sl_remaining s)"
    "selectLoop cfg pk as s c = (s', c')"
  shows "cinv {} (pend(pk := mset (sl_selected s') + mset (sl_remaining s'))) c'"
  using assms
proof (induction as arbitrary: pend s c)
  case Nil
  then show ?case by (simp add: fun_upd_idem)
next
  case (Cons a as)
  have a: "a \<in># pend pk" using Cons.prems(2) by simp
  let ?pend = "pend(pk := pend pk - {#a#})"
  let ?it = "c_heap c a"
  consider (gone) "q_activeWaiters ?it = 0"
    | (large) "q_activeWaiters ?it \<noteq> 0" "sl_selected s = []" "itemTooLarge cfg ?it"
    | (rest) "q_activeWaiters ?it \<noteq> 0" "sl_selected s \<noteq> []"
        "\<not> fits cfg (c_dyn c) (sl_count s) (sl_weight s) (sl_bytes s) ?it"
    | (take) "q_activeWaiters ?it \<noteq> 0" "\<not> (sl_selected s = [] \<and> itemTooLarge cfg ?it)"
        "\<not> (sl_selected s \<noteq> [] \<and> \<not> fits cfg (c_dyn c) (sl_count s) (sl_weight s) (sl_bytes s) ?it)"
    by blast
  then show ?case
  proof cases
    case gone
    have "cinv {} ?pend (decQueued (decLive pk (removeActive pk a c)))"
      using cinv_retire [OF Cons.prems(1) a noone_waits [OF Cons.prems(1) a gone]]
      by (simp add: decQueued_def)
    from Cons.IH [OF this, of s, unfolded fun_upd_upd] show ?thesis
      using Cons.prems(2,3) gone by (simp add: Let_def)
  next
    case large
    have "cinv {} ?pend (decQueued (failItem pk a ErrItemTooLarge c))"
      using cinv_resolve [OF Cons.prems(1) a] by (simp add: decQueued_def failItem_def)
    from Cons.IH [OF this, of s, unfolded fun_upd_upd] show ?thesis
      using Cons.prems(2,3) large by (simp add: Let_def)
  next
    case rest
    with Cons.IH [OF Cons.prems(1), of "s\<lparr>sl_remaining := sl_remaining s @ [a]\<rparr>"]
    show ?thesis using Cons.prems(2,3) by (simp add: Let_def)
  next
    case take
    with Cons.IH [OF Cons.prems(1), of "selectItem a ?it s"]
    show ?thesis
      using Cons.prems(2,3) by (cases "sl_selected s = []") (simp_all add: Let_def selectItem_def)
  qed
qed

lemma cinv_failRequest:
  assumes "cinv {} pend c" "mset as \<subseteq># pend pk"
  shows "cinv {} (pend(pk := pend pk - mset as)) (failRequest cfg pk e as c)"
  using assms
proof (induction as arbitrary: pend c)
  case (Cons a as)
  have a: "a \<in># pend pk" using Cons.prems(2) by (simp add: insert_subset_eq_iff)
  then have "cinv {} (pend(pk := pend pk - {#a#}))
      (decQueued (failItem pk a (ContractError (cf_opID cfg) (RequestReason e)) c))"
    using cinv_resolve [OF Cons.prems(1)] by (simp add: decQueued_def failItem_def)
  from Cons.IH [OF this, unfolded fun_upd_upd] show ?case
    using Cons.prems(2) by (simp add: insert_subset_eq_iff)
qed simp

lemma queued_failRequest [simp]: "queued (failRequest cfg pk e as c) = queued c"
  by (simp add: fun_eq_iff queued_def)

lemma queued_launchBatch [simp]: "queued (launchBatch cfg pk reason s req c) = queued c"
  by (simp add: fun_eq_iff queued_def)

lemma cinv_launchBatch:
  assumes "cinv {} pend c" "mset (sl_selected s) \<subseteq># pend pk" and ok: "selection_ok c s"
  shows "cinv {} (pend(pk := pend pk - mset (sl_selected s))) (launchBatch cfg pk reason s req c)"
proof -
  define c1 where "c1 = takeSelected pk s c"
  let ?b = "\<lparr>b_id = Suc (c_batchSeq c1), b_items = sl_selected s,
    b_activeWaiters = (\<Sum>a\<leftarrow>sl_selected s. q_activeWaiters (c_heap c1 a)),
    b_partition = pk, b_minSeq = sl_minSeq s\<rparr>"
  have "same_view c c1"
    by (simp add: c1_def takeSelected_def Let_def same_view_def tally_def option.map_comp comp_def)
  then have "cinv {} pend c1"
    using assms(1) by (rule cinv_view)
  moreover have "\<forall>a\<in>set (sl_selected s). sl_minSeq s \<le> q_seq (c_heap c1 a)"
    using ok by (simp add: selection_ok_def c1_def takeSelected_def tally_def Let_def)
  ultimately have "cinv {} (pend(pk := pend pk - mset (sl_selected s)))
      (registerBatch pk s (Suc (c_batchSeq c1)) (c1\<lparr>c_batchSeq := Suc (c_batchSeq c1)\<rparr>))"
    using cinv_launch [of "{}" pend c1 "sl_selected s" pk ?b] assms(2)
    by (simp add: registerBatch_def Let_def heap_markDispatched cong: if_cong)
  then show ?thesis
    by (rule cinv_view [rotated])
      (simp add: launchBatch_def Let_def nextBatchID_def same_view_def announceBatch_def tally_def
        emit_def startWorker_def flip: c1_def)
qed

lemma queued_selectLoop:
  "selectLoop cfg pk as s c = (s', c') \<Longrightarrow> queued c' = queued c"
  using selectLoop_frame(1) [of cfg pk as s c] by (simp add: fun_eq_iff queued_def)

lemma coord_inv_dispatchBatch:
  assumes c: "coord_inv c"
  shows "coord_inv (dispatchBatch cfg pk reason c)"
proof (cases "partOf c pk")
  case None
  then have "dispatchBatch cfg pk reason c = c"
    by (simp add: dispatchBatch_def pendingOf_def noSelection_def updPart_absent)
  with c show ?thesis by simp
next
  case (Some p)
  obtain s c1 where sel: "selectLoop cfg pk (pendingOf c pk) noSelection c = (s, c1)"
    by fastforce
  define c2 where "c2 = updPart pk (\<lambda>p. p\<lparr>p_pending := sl_remaining s\<rparr>) c1"
  let ?pend = "(queued c)(pk := mset (sl_selected s) + mset (sl_remaining s))"
  have "cinv {} ?pend c1"
    using c sel by (intro cinv_selectLoop) (auto simp: coord_inv_def queued_def noSelection_def)
  then have c2: "cinv {} ?pend c2"
    unfolding c2_def by (rule cinv_view [OF same_view_updPart, rotated -1]) simp_all
  have "partOf c1 pk \<noteq> None"
    using Some selectLoop_frame(7) [of cfg pk "pendingOf c pk" noSelection c] sel
    by (metis map_of_eq_None_iff option.distinct(1) partOf_def list.set_map snd_conv)
  then have q2: "queued c2 = (queued c)(pk := mset (sl_remaining s))"
    using queued_selectLoop [OF sel]
    by (auto simp: c2_def fun_eq_iff queued_def pendingOf_updPart split: option.splits)
  have ok: "selection_ok c2 s"
    using selectLoop_ok [OF sel selection_ok_none] by (simp add: c2_def selection_ok_def)
  have moved: "cinv {} ((queued c)(pk := mset (sl_remaining s))) (launchBatch cfg pk reason s req c2)"
      "cinv {} ((queued c)(pk := mset (sl_remaining s))) (failRequest cfg pk e (sl_selected s) c2)" for req e
    using cinv_launchBatch [OF c2 _ ok, of pk cfg reason req]
      cinv_failRequest [OF c2, of "sl_selected s" pk cfg e] by simp_all
  show ?thesis
    using sel c2 q2 moved
    by (auto simp: dispatchBatch_def coord_inv_def simp flip: c2_def split: sum.split)
qed

lemma coord_inv_drainPartition:
  "coord_inv c \<Longrightarrow> coord_inv (drainPartition cfg pk force now c)"
proof (induction cfg pk force now c rule: drainPartition.induct)
  case (1 cfg pk force now c)
  then show ?case
    by (subst drainPartition.simps)
      (auto simp: Let_def coord_inv_prune coord_inv_dispatchBatch split: option.splits)
qed

lemma coord_inv_schedule: "coord_inv c \<Longrightarrow> coord_inv (schedule cfg clk force c)"
proof -
  assume c: "coord_inv c"
  have parts: "coord_inv c \<Longrightarrow> coord_inv (schedulePartitions cfg force now pks c)" for now pks
    and c :: "('a, 'b) coordinator"
    by (induction pks arbitrary: c) (simp_all add: coord_inv_maybeRetire coord_inv_drainPartition)
  have "coord_inv (snd (clockNow clk c))"
    using c by (rule coord_inv_view)
      (simp_all add: clockNow_def same_view_def fun_eq_iff queued_def pendingOf_def)
  from parts [OF this] show ?thesis
    unfolding schedule_def Let_def split_beta
    by (rule coord_inv_view)
      (auto simp: computeNextTimer_def same_view_def fun_eq_iff queued_def pendingOf_def
        split: option.split)
qed

section \<open>Submission\<close>

lemma coord_inv_enqueueItem:
  assumes c: "coord_inv c" and p: "partOf c (encoded (s_part req)) = Some p"
  shows "coord_inv (enqueueItem cfg clk req c)"
proof -
  let ?pk = "encoded (s_part req)" and ?a = "c_next c" and ?h = "s_hash req"
  let ?it = "\<lparr>q_id = nextRequestIDLoop (e_requestSeq c), q_seq = c_submitSeq c + 1,
     q_key = s_key req, q_hash = ?h, q_weight = s_weight req, q_bytes = s_bytes req,
     q_enqueue = clk (e_reads c), q_waiters = [s_waiter req], q_activeWaiters = 1,
     q_dispatched = False, q_batchID = 0\<rparr>"
  let ?f = "\<lambda>p. p\<lparr>
     p_active := AList.update ?h (goget (p_active p) ?h @ [?a]) (p_active p),
     p_pending := p_pending p @ [?a],
     p_bytes := i64 (p_bytes p + s_bytes req), p_weight := i64 (p_weight p + s_weight req),
     p_waiters := p_waiters p + 1, p_live := p_live p + 1\<rparr>"
  let ?d = "updPart ?pk ?f (c\<lparr>c_heap := (c_heap c)(?a := ?it), c_next := Suc ?a\<rparr>)"
  have "cinv {} ((queued c)(?pk := add_mset ?a (queued c ?pk))) ?d"
    by (rule cinv_insert [OF c [unfolded coord_inv_def] p]) (simp_all add: activeCount_def)
  moreover have "same_view ?d (enqueueItem cfg clk req c)"
    by (simp add: same_view_def enqueueItem_def Let_def nextRequestID_def clockNow_def nextSeq_def
        tally_def reply_def emit_def option.map_comp comp_def)
  moreover have "queued (enqueueItem cfg clk req c) = (queued c)(?pk := add_mset ?a (queued c ?pk))"
    using p by (simp add: fun_eq_iff queued_def pendingOf_def enqueueItem_def Let_def
        nextRequestID_def clockNow_def nextSeq_def tally_def reply_def emit_def)
  ultimately show ?thesis
    by (simp add: coord_inv_def cinv_view)
qed

lemma findJoin_indexed:
  assumes "findJoin cfg c p req = Some a"
  shows "a \<in># addrsOf (p_active p)" "Equal (cf_keys cfg) (q_key (c_heap c a)) (s_key req)"
    "a \<in> set (goget (p_active p) (s_hash req))"
proof -
  have a: "a \<in> set (goget (p_active p) (s_hash req))"
    "Equal (cf_keys cfg) (q_key (c_heap c a)) (s_key req)"
    using assms by (auto simp: findJoin_def find_Some_iff split: if_splits)
  then show "a \<in># addrsOf (p_active p)"
    by (cases "map_of (p_active p) (s_hash req)") (auto simp: goget_def intro: addrsOf_bucket)
qed (use assms in \<open>auto simp: findJoin_def find_Some_iff split: if_splits\<close>)

lemma coord_inv_joinItem:
  assumes c: "coord_inv c" and a: "a \<in># indexOf c pk"
  shows "coord_inv (joinItem cfg a req c)"
proof -
  let ?hp = "(c_heap c)(a := (c_heap c a)\<lparr>q_waiters := q_waiters (c_heap c a) @ [s_waiter req],
     q_activeWaiters := q_activeWaiters (c_heap c a) + 1\<rparr>)"
  have le: "activeCount (c_heap c x) \<le> q_activeWaiters (c_heap c x)" if "x < c_next c" for x
    using cinvD(4) [OF c [unfolded coord_inv_def]] that by (simp add: waiters_ok_def)
  have "cinv {} (queued c) (c\<lparr>c_heap := ?hp\<rparr>)"
    using le a by (intro cinv_heap [OF c [unfolded coord_inv_def]])
      (auto simp: activeCount_def add_increasing2 split: if_splits)
  moreover have "same_view (c\<lparr>c_heap := ?hp\<rparr>) (joinItem cfg a req c)"
    by (simp add: same_view_def joinItem_def Let_def updItem_def tally_def reply_def emit_def
        option.map_comp comp_def)
  moreover have "queued (joinItem cfg a req c) = queued c"
    by (auto simp: fun_eq_iff queued_def pendingOf_def joinItem_def Let_def updItem_def tally_def
        reply_def emit_def split: option.split)
  ultimately show ?thesis
    by (simp add: coord_inv_def cinv_view)
qed

lemma overflow_view:
  "same_view c (overflow cfg req category isPart c)" "queued (overflow cfg req category isPart c) = queued c"
  by (auto simp: overflow_def same_view_def fun_eq_iff queued_def pendingOf_def Let_def tally_def
      reply_def emit_def split: OverflowPolicy.split)

lemma coord_inv_submitInto:
  assumes "coord_inv c" "partOf c (encoded (s_part req)) = Some p"
  shows "coord_inv (submitInto cfg clk req p c)"
  using assms overflow_view [where c = c and cfg = cfg and req = req]
  by (auto simp: submitInto_def indexOf_def split: option.split
      intro!: coord_inv_enqueueItem coord_inv_joinItem [of c _ "encoded (s_part req)"]
      intro: coord_inv_view findJoin_indexed(1))

lemma coord_inv_newPartition:
  assumes c: "coord_inv c" and none: "partOf c (encoded pt) = None"
  shows "coord_inv (activePartitionsGauge
    (c\<lparr>c_partitions := AList.update (encoded pt) (newPartitionState pt) (c_partitions c)\<rparr>))" (is "coord_inv ?d")
proof -
  have "queued ?d = queued c"
    using none by (auto simp: fun_eq_iff queued_def pendingOf_def partOf_def tally_def
        activePartitionsGauge_def split: option.split)
  with cinv_newPartition [OF c [unfolded coord_inv_def] none] show ?thesis
    by (simp add: coord_inv_def)
qed

lemma coord_inv_handleSubmit:
  assumes c: "coord_inv c"
  shows "coord_inv (handleSubmit cfg clk req c)"
proof -
  let ?pk = "encoded (s_part req)"
  let ?d = "activePartitionsGauge
    (c\<lparr>c_partitions := AList.update ?pk (newPartitionState (s_part req)) (c_partitions c)\<rparr>)"
  note new = coord_inv_newPartition [OF c, of "s_part req"]
  have "partOf ?d ?pk = Some (newPartitionState (s_part req))"
    by (simp add: partOf_def activePartitionsGauge_def tally_def)
  note into = coord_inv_submitInto [OF new this]
  have rejected: "coord_inv (reply ch e (tally f c))" for ch e f
    using c by (rule coord_inv_view)
      (simp_all add: same_view_def reply_def tally_def fun_eq_iff queued_def pendingOf_def)
  show ?thesis
    using c rejected into coord_inv_view [OF c overflow_view]
    by (auto simp: handleSubmit_def Let_def coord_inv_submitInto split: option.split)
qed

lemma coord_inv_submitAll:
  "coord_inv c \<Longrightarrow> coord_inv (submitAll cfg clk rs c)"
  by (induction rs arbitrary: c) (simp_all add: coord_inv_handleSubmit)

lemma coord_inv_retryBlocked:
  assumes c: "coord_inv c"
  shows "coord_inv (retryBlocked cfg clk c)"
proof -
  have "coord_inv (c\<lparr>c_blocked := []\<rparr>)"
    using c by (rule coord_inv_view) (simp_all add: same_view_def fun_eq_iff queued_def pendingOf_def)
  with c show ?thesis
    by (simp add: retryBlocked_def coord_inv_submitAll)
qed

section \<open>Cancellation\<close>

lemma deactivate_count:
  "\<exists>w\<in>set ws. waiterMatches i w \<Longrightarrow>
     Suc (length (filter w_active (deactivate i ws))) = length (filter w_active ws)"
  by (induction i ws rule: deactivate.induct) (auto simp: waiterMatches_def)

lemma deactivate_active:
  "w \<in> set (deactivate i ws) \<Longrightarrow> w_active w \<Longrightarrow> w \<in> set ws"
  by (induction i ws rule: deactivate.induct) (auto split: if_splits)

lemma update_present:
  assumes "map_of m k = Some v"
  shows "length (AList.update k v' m) = length m"
    and "g (k, v') = g (k, v) \<Longrightarrow> sum_list (map g (AList.update k v' m)) = sum_list (map g m)"
  using assms by (induction m) (auto split: if_splits)

lemma cinv_inflight_update:
  assumes c: "cinv X pend c" and b: "map_of (c_inflight c) i = Some b"
    and same: "b_id b' = b_id b" "b_items b' = b_items b" "b_partition b' = b_partition b"
      "b_minSeq b' = b_minSeq b"
  shows "cinv X pend (c\<lparr>c_inflight := AList.update i b' (c_inflight c)\<rparr>)" (is "cinv X pend ?d")
proof -
  note cD = cinvD [OF c]
  have own: "owned ?d k = owned c k" for k
    using update_present(2) [OF b, of "batchAddrs k" b'] same
    by (simp add: owned_def batchAddrs_def [abs_def])
  have idx: "indexOf ?d k = indexOf c k" for k
    by (simp add: indexOf_def)
  have dist: "distinct (map fst (c_inflight c))"
    using cD(3) by (simp add: inflight_ok_def)
  have "x \<in> set (c_inflight c) \<or> x = (i, b')" if "x \<in> set (AList.update i b' (c_inflight c))" for x
  proof (cases x)
    case (Pair j b1)
    then have "map_of (AList.update i b' (c_inflight c)) j = Some b1"
      using that dist by (intro map_of_is_SomeI) (simp_all add: distinct_update)
    then have "if j = i then b' = b1 else map_of (c_inflight c) j = Some b1"
      by (simp split: if_splits)
    then show ?thesis
      using Pair map_of_SomeD [of "c_inflight c" j b1] by (auto split: if_splits)
  qed
  then have "inflight_ok ?d"
    using cD(3) map_of_SomeD [OF b] update_present(1) [OF b] same
    by (fastforce simp: inflight_ok_def distinct_update)
  then show ?thesis
    using cD by (intro cinvI) (simp_all add: idx own separated_def parts_ok_def waiters_ok_def
      balanced_def undispatched_def)
qed

lemma coord_inv_cancelBatchContext: "coord_inv c \<Longrightarrow> coord_inv (cancelBatchContext k c)"
  by (erule coord_inv_view)
    (simp_all add: cancelBatchContext_def same_view_def fun_eq_iff queued_def pendingOf_def)

lemma coord_inv_cancelWaiter:
  assumes c: "coord_inv c" and a: "a \<in># indexOf c pk"
    and w: "\<exists>w\<in>set (q_waiters (c_heap c a)). waiterMatches i w"
  shows "coord_inv (cancelWaiter cfg pk a i c)"
proof -
  let ?hp = "(c_heap c)(a := (c_heap c a)\<lparr>q_waiters := deactivate i (q_waiters (c_heap c a)),
     q_activeWaiters := q_activeWaiters (c_heap c a) - 1\<rparr>)"
  define d where "d = emit cfg EventRequestCanceled pk 0 0 FlushManual '''' (tally (\<lambda>n.
     n\<lparr>n_queuedWaiters := n_queuedWaiters n - 1, n_totalCancellations := Suc (n_totalCancellations n)\<rparr>)
     (updPart pk (\<lambda>p. p\<lparr>p_waiters := p_waiters p - 1\<rparr>)
     (updItem a (\<lambda>it. it\<lparr>q_waiters := deactivate i (q_waiters it),
        q_activeWaiters := q_activeWaiters it - 1\<rparr>) c)))"
  have le: "activeCount (c_heap c x) \<le> q_activeWaiters (c_heap c x)" if "x < c_next c" for x
    using cinvD(4) [OF c [unfolded coord_inv_def]] that by (simp add: waiters_ok_def)
  have "cinv {} (queued c) (c\<lparr>c_heap := ?hp\<rparr>)"
    using le deactivate_count [OF w] a
    by (intro cinv_heap [OF c [unfolded coord_inv_def]])
      (force simp: activeCount_def hasActive_def split: if_splits)+
  moreover have "same_view (c\<lparr>c_heap := ?hp\<rparr>) d"
    by (simp add: same_view_def d_def updItem_def tally_def emit_def option.map_comp comp_def)
  moreover have "queued d = queued c"
    by (auto simp: fun_eq_iff queued_def pendingOf_def d_def updItem_def tally_def
        emit_def split: option.split)
  ultimately have d: "coord_inv d"
    by (simp add: coord_inv_def cinv_view)
  have ad: "a \<in># indexOf d pk"
    using a by (cases "partOf c pk") (auto simp: d_def indexOf_def emit_def tally_def updItem_def)
  have pending: "coord_inv (removePendingItem pk a d)"
    if "q_activeWaiters (c_heap d a) = 0" "\<not> q_dispatched (c_heap d a)"
  proof -
    note dD = cinvD [OF d [unfolded coord_inv_def]]
    have "a \<notin># owned d pk"
      using dD(3) that(2) by (force simp: owned_def batchAddrs_def inflight_ok_def split: if_splits)
    then have q: "a \<in># queued d pk"
      using dD(5) ad by (simp add: balanced_def)
    then show ?thesis
      using noone_waits [OF d [unfolded coord_inv_def] q that(1)]
      by (intro coord_inv_removePendingItem d) (simp_all add: queued_def)
  qed
  have flight: "coord_inv (d\<lparr>c_inflight := AList.update j (b\<lparr>b_activeWaiters := n\<rparr>) (c_inflight d)\<rparr>)"
    if "map_of (c_inflight d) j = Some b" for j b n
  proof -
    have "queued (d\<lparr>c_inflight := m\<rparr>) = queued d" for m
      by (simp add: fun_eq_iff queued_def pendingOf_def)
    then show ?thesis
      using cinv_inflight_update [OF d [unfolded coord_inv_def] that] by (simp add: coord_inv_def)
  qed
  show ?thesis
    using d pending flight
    by (auto simp: cancelWaiter_def Let_def coord_inv_cancelBatchContext simp flip: d_def
        split: option.split)
qed

lemma coord_inv_handleCancel:
  assumes c: "coord_inv c"
  shows "coord_inv (handleCancel cfg cr c)"
proof -
  have blocked: "coord_inv (c\<lparr>c_blocked := bs\<rparr>)" for bs
    using c by (rule coord_inv_view) (simp_all add: same_view_def fun_eq_iff queued_def pendingOf_def)
  have "coord_inv (cancelWaiter cfg (x_part cr) a (x_waiterID cr) c)"
    if "partOf c (x_part cr) = Some p" "findWaiter c p (x_waiterID cr) = Some a" for p a
    using that find_SomeD [OF that(2) [unfolded findWaiter_def]]
    by (intro coord_inv_cancelWaiter c) (simp_all add: indexOf_def addrsOf_def)
  with blocked c show ?thesis
    by (simp add: handleCancel_def split: option.split)
qed

section \<open>Completion\<close>

lemma cinv_failItems:
  assumes "cinv X pend c" "mset as \<subseteq># pend pk"
  shows "cinv X (pend(pk := pend pk - mset as)) (failItems pk e as c)"
  using assms
proof (induction as arbitrary: pend c)
  case (Cons a as)
  have a: "a \<in># pend pk" using Cons.prems(2) by (simp add: insert_subset_eq_iff)
  then have "cinv X (pend(pk := pend pk - {#a#})) (resolveItem pk a (errRes e) c)"
    using cinv_resolve [OF Cons.prems(1)] by (simp add: resolveItem_def)
  from Cons.IH [OF this, unfolded fun_upd_upd] show ?case
    using Cons.prems(2) by (simp add: insert_subset_eq_iff)
qed simp

lemma cinv_distributeItems:
  assumes "cinv X pend c" "mset as \<subseteq># pend pk"
  shows "cinv X (pend(pk := pend pk - mset as)) (distributeItems pk m as c)"
  using assms
proof (induction as arbitrary: pend c)
  case (Cons a as)
  let ?x = "outcomeFor m (q_id (c_heap c a))"
  have a: "a \<in># pend pk" using Cons.prems(2) by (simp add: insert_subset_eq_iff)
  have "cinv X pend (countItemError ?x c)"
    using Cons.prems(1) by (simp add: countItemError_def)
  then have "cinv X (pend(pk := pend pk - {#a#}))
      (resolveItem pk a (outcomeRes ?x) (countItemError ?x c))"
    using cinv_resolve a by (simp add: resolveItem_def)
  from Cons.IH [OF this, unfolded fun_upd_upd] show ?case
    using Cons.prems(2) by (simp add: insert_subset_eq_iff Let_def)
qed simp

lemma pendingOf_failItems [simp]: "pendingOf (failItems pk e as c) k = pendingOf c k"
  by (induction as arbitrary: c) (simp_all add: resolveItem_def selectLoop_step_frame)

lemma pendingOf_distributeItems [simp]: "pendingOf (distributeItems pk m as c) k = pendingOf c k"
proof (induction as arbitrary: c)
  case (Cons a as)
  have "pendingOf (countItemError x c) k = pendingOf c k" for x :: "('b, rt_error) Outcome"
    by (simp add: countItemError_def pendingOf_def)
  with Cons show ?case
    by (simp add: resolveItem_def selectLoop_step_frame Let_def)
qed simp

lemma queued_tally [simp]: "queued (tally f c) = queued c"
  by (simp add: fun_eq_iff queued_def pendingOf_def)

lemma queued_settle [simp]:
  "queued (failItems pk e as c) = queued c" "queued (distributeItems pk m as c) = queued c"
  by (simp_all add: fun_eq_iff queued_def)

text \<open>What every branch of settleBatch comes to: an invariant state after the batch's items are gone.\<close>

definition settled_by :: "batchInflight \<Rightarrow> ('k, 'v) coordinator \<Rightarrow> ('k, 'v) coordinator \<Rightarrow> bool" where
  "settled_by b c d \<longleftrightarrow> (\<exists>d0. queued d0 = queued c \<and> same_view (maybeRetire (b_partition b) d0) d \<and>
     queued d = queued (maybeRetire (b_partition b) d0) \<and>
     (\<forall>X pend. cinv X pend c \<longrightarrow> mset (b_items b) \<subseteq># pend (b_partition b) \<longrightarrow>
        cinv X (pend(b_partition b := pend (b_partition b) - mset (b_items b))) d0))"

lemma settled_by_settleBatch: "settled_by b c (settleBatch cfg b d c)"
proof -
  have quiet: "same_view c1 (emit cfg k pk i n r s (tally f c1))"
      "queued (emit cfg k pk i n r s (tally f c1)) = queued c1"
      "same_view c1 (emit cfg k pk i n r s (tally f (tally g c1)))"
      "queued (emit cfg k pk i n r s (tally f (tally g c1))) = queued c1"
      "same_view c1 (emit cfg k pk i n r s c1)"
      "queued (emit cfg k pk i n r s c1) = queued c1"
    for k pk i n r s f g and c1 :: "('a, 'b) coordinator"
    by (simp_all add: same_view_def emit_def tally_def fun_eq_iff queued_def pendingOf_def)
  have fail: "settled_by b c (emit cfg k pk i n r s (tally f (failBatch b e c)))"
     "settled_by b c (emit cfg k pk i n r s (tally f (tally g (failBatch b e c))))" for k pk i n r s f g e
    unfolding settled_by_def failBatch_def
    by (rule exI [of _ "failItems (b_partition b) e (b_items b) c"],
        simp add: quiet cinv_failItems)+
  have ok: "settled_by b c (emit cfg k pk i n r s (maybeRetire (b_partition b)
      (distributeItems (b_partition b) m (b_items b) c)))" for k pk i n r s m
    unfolding settled_by_def
    by (rule exI [of _ "distributeItems (b_partition b) m (b_items b) c"],
        simp add: quiet cinv_distributeItems)
  show ?thesis
    unfolding settleBatch_def distribute_def Let_def
    by (auto intro: fail ok split: option.split)
qed

lemma coord_inv_settle:
  assumes c: "coord_inv c" and Some: "map_of (c_inflight c) (d_batchID d) = Some b"
  shows "coord_inv (settleBatch cfg b d (releaseBatch b (d_batchID d) c))"
proof -
  let ?pk = "b_partition b"
  let ?pend = "(queued c)(?pk := queued c ?pk + mset (b_items b))"
  define e where "e = releaseBatch b (d_batchID d) c"
  have "cinv (set (b_items b)) ?pend
      (c\<lparr>c_inflight := AList.delete (d_batchID d) (c_inflight c), c_activeProvider := c_activeProvider c - 1\<rparr>)"
    by (rule cinv_release [OF c [unfolded coord_inv_def] Some])
  then have e: "cinv (set (b_items b)) ?pend e"
    by (rule cinv_view [rotated])
      (simp add: e_def releaseBatch_def Let_def same_view_def tally_def cancelBatchContext_def)
  have qe: "queued e = queued c"
    by (simp add: e_def releaseBatch_def Let_def tally_def cancelBatchContext_def fun_eq_iff
        queued_def pendingOf_def)
  obtain d0 where d0: "queued d0 = queued e"
      "same_view (maybeRetire ?pk d0) (settleBatch cfg b d e)"
      "queued (settleBatch cfg b d e) = queued (maybeRetire ?pk d0)"
    and settle: "\<And>X pend. cinv X pend e \<Longrightarrow> mset (b_items b) \<subseteq># pend ?pk \<Longrightarrow>
        cinv X (pend(?pk := pend ?pk - mset (b_items b))) d0"
    using settled_by_settleBatch [of b e cfg d] unfolding settled_by_def by blast
  have "cinv (set (b_items b)) (queued c) d0"
    using settle [OF e] by (simp add: fun_upd_idem)
  moreover have "a \<notin> set (b_items b)" if "a \<in># queued c k" for a k
    using that cinvD(3,6) [OF c [unfolded coord_inv_def]] map_of_SomeD [OF Some]
    by (fastforce simp: undispatched_def inflight_ok_def)
  ultimately have "coord_inv d0"
    using qe d0(1) by (auto simp: coord_inv_def intro: cinv_shrink)
  then have "coord_inv (settleBatch cfg b d e)"
    using d0 coord_inv_maybeRetire by (metis coord_inv_view)
  then show ?thesis
    by (simp add: e_def)
qed

lemma coord_inv_handleComplete: "coord_inv c \<Longrightarrow> coord_inv (handleComplete cfg clk d c)"
  by (simp add: handleComplete_def coord_inv_settle coord_inv_retryBlocked split: option.split)

section \<open>Control, shutdown and the loop\<close>

lemma coord_inv_handleControl:
  assumes c: "coord_inv c"
  shows "coord_inv (handleControl cfg clk ctrl c)"
proof -
  have "coord_inv (if t_kind ctrl = controlClose then c\<lparr>c_closing := True\<rparr> else c)"
    using c by (auto elim!: coord_inv_view simp: same_view_def fun_eq_iff queued_def pendingOf_def)
  from coord_inv_schedule [OF this, of cfg clk True] show ?thesis
    unfolding handleControl_def Let_def
    by (rule coord_inv_view) (simp_all add: same_view_def fun_eq_iff queued_def pendingOf_def)
qed

lemma coord_inv_barriers:
  assumes c: "coord_inv c"
  shows "coord_inv (tryCompleteBarriers ctxErr c)" "coord_inv (failBarriers e c)"
proof -
  have "coord_inv (c\<lparr>o_replies := rs, c_barriers := bs\<rparr>)" for rs bs
    using c by (rule coord_inv_view) (simp_all add: same_view_def fun_eq_iff queued_def pendingOf_def)
  then show "coord_inv (tryCompleteBarriers ctxErr c)" "coord_inv (failBarriers e c)"
    using tryCompleteBarriers_frame [of ctxErr c] failBarriers_frame [of e c] by auto
qed

lemma coord_inv_deliverItems: "coord_inv c \<Longrightarrow> coord_inv (deliverItems as r c)"
proof (induction as arbitrary: c)
  case (Cons a as)
  have "queued (deliverItem a r c) = queued c"
    by (simp add: fun_eq_iff queued_def selectLoop_step_frame)
  then have "coord_inv (deliverItem a r c)"
    using cinv_deliverItem(1) [OF Cons.prems [unfolded coord_inv_def]] by (simp add: coord_inv_def)
  then show ?case using Cons.IH by simp
qed simp

lemma coord_inv_handleEngineCancel:
  assumes c: "coord_inv c"
  shows "coord_inv (handleEngineCancel c)"
proof -
  have "coord_inv (c\<lparr>c_closing := True\<rparr>)"
    using c by (rule coord_inv_view) (simp_all add: same_view_def fun_eq_iff queued_def pendingOf_def)
  note d = coord_inv_deliverItems [OF this, of "indexedItems c" "errRes ErrEngineClosed"]
  obtain rs cs where "handleEngineCancel c =
      (deliverItems (indexedItems c) (errRes ErrEngineClosed) (c\<lparr>c_closing := True\<rparr>))
       \<lparr>o_cancels := cs, o_replies := rs, c_barriers := []\<rparr>"
    using handleEngineCancel_frame by blast
  then show ?thesis
    using coord_inv_view [OF d, of "handleEngineCancel c"]
    by (simp add: same_view_def fun_eq_iff queued_def pendingOf_def)
qed

lemma coord_inv_handleEvent:
  assumes c: "coord_inv c"
  shows "coord_inv (handleEvent cfg clk ev c)"
proof (cases ev)
  case EvTimer
  have "coord_inv (c\<lparr>c_timerActive := False\<rparr>)"
    using c by (rule coord_inv_view) (simp_all add: same_view_def fun_eq_iff queued_def pendingOf_def)
  with EvTimer show ?thesis by (simp add: coord_inv_schedule)
qed (use c in \<open>simp_all add: coord_inv_handleSubmit coord_inv_handleCancel coord_inv_handleComplete
    coord_inv_handleControl coord_inv_handleEngineCancel\<close>)

lemma coord_inv_iteration:
  assumes c: "coord_inv c"
  shows "coord_inv (iteration cfg clk ctxErr ev c)"
proof -
  have fin: "coord_inv (d\<lparr>c_done := True\<rparr>)" if "coord_inv d" for d :: "('a, 'b) coordinator"
    using that by (rule coord_inv_view) (simp_all add: same_view_def fun_eq_iff queued_def pendingOf_def)
  note h = coord_inv_handleEvent [OF c, of cfg clk ev]
  show ?thesis
    using fin [OF h] fin [OF coord_inv_barriers(2)]
      coord_inv_barriers(1) [OF coord_inv_schedule [OF h]]
    by (auto simp: iteration_def finishIteration_def Let_def)
qed

end
