(* ===== verification/Coordinator_Ledger.thy ===== *)
theory Coordinator_Ledger
  imports Coordinator_Safety
begin

text \<open>
  Every admitted caller is answered exactly once. The ledger of a state is the multiset of
  result channels of waiters that are still active together with the channels a result has
  been sent to. Admission adds the caller's channel to it, a caller's own cancellation takes
  that channel out, and nothing else changes it; when the loop ends no waiter is active.
\<close>

section \<open>The ledger\<close>

definition activeChansAt :: "'k qitem \<Rightarrow> chan multiset" where
  "activeChansAt it = mset (map w_ch (filter w_active (q_waiters it)))"

definition activeChans :: "('k, 'v) coordinator \<Rightarrow> chan multiset" where
  "activeChans c = (\<Sum>a<c_next c. activeChansAt (c_heap c a))"

definition deliveredChans :: "('k, 'v) coordinator \<Rightarrow> chan multiset" where
  "deliveredChans c = mset (map fst (o_deliveries c))"

definition ledger :: "('k, 'v) coordinator \<Rightarrow> chan multiset" where
  "ledger c = activeChans c + deliveredChans c"

definition ledger_frame :: "('k, 'v) coordinator \<Rightarrow> ('k, 'v) coordinator \<Rightarrow> bool" where
  "ledger_frame c d \<longleftrightarrow> c_next d = c_next c \<and> o_deliveries d = o_deliveries c \<and>
     (\<forall>a. q_waiters (c_heap d a) = q_waiters (c_heap c a))"

lemma ledger_frame: "ledger_frame c d \<Longrightarrow> ledger d = ledger c"
  by (simp add: ledger_frame_def ledger_def activeChans_def activeChansAt_def deliveredChans_def)

lemma ledger_frame_trans: "ledger_frame c d \<Longrightarrow> ledger_frame d e \<Longrightarrow> ledger_frame c e"
  by (simp add: ledger_frame_def)

lemma ledger_quiet [simp]:
  "ledger (tally f c) = ledger c" "c_next (tally f c) = c_next c"
  "ledger (updPart pk g c) = ledger c"
  "ledger (emit cfg k pk i n r s c) = ledger c" "c_next (emit cfg k pk i n r s c) = c_next c"
  "ledger (reply ch e c) = ledger c" "c_next (reply ch e c) = c_next c"
  "ledger (cancelBatchContext i c) = ledger c" "c_next (cancelBatchContext i c) = c_next c"
  "ledger (removeActive pk a c) = ledger c" "c_next (removeActive pk a c) = c_next c"
  "ledger (decLive pk c) = ledger c" "c_next (decLive pk c) = c_next c"
  "ledger (decQueued c) = ledger c" "c_next (decQueued c) = c_next c"
  "ledger (maybeRetire pk c) = ledger c" "c_next (maybeRetire pk c) = c_next c"
  "ledger (removePendingItem pk a c) = ledger c" "c_next (removePendingItem pk a c) = c_next c"
  by (auto intro!: ledger_frame simp: ledger_frame_def tally_def updPart_def emit_def reply_def
      cancelBatchContext_def removeActive_def decLive_def decQueued_def maybeRetire_def
      activePartitionsGauge_def removePendingItem_def Let_def split: option.split)

lemma ledger_record [simp]:
  "ledger (c\<lparr>c_blocked := bl\<rparr>) = ledger c" "ledger (c\<lparr>c_timer := t\<rparr>) = ledger c"
  "ledger (c\<lparr>c_timerActive := b\<rparr>) = ledger c" "ledger (c\<lparr>c_closing := b\<rparr>) = ledger c"
  "ledger (c\<lparr>c_done := b\<rparr>) = ledger c" "ledger (c\<lparr>c_barriers := bs\<rparr>) = ledger c"
  "ledger (c\<lparr>c_dyn := dy\<rparr>) = ledger c" "ledger (c\<lparr>e_requestSeq := r\<rparr>) = ledger c"
  "ledger (c\<lparr>e_reads := n\<rparr>) = ledger c" "ledger (c\<lparr>c_inflight := m\<rparr>) = ledger c"
  "ledger (c\<lparr>c_activeProvider := i\<rparr>) = ledger c" "ledger (c\<lparr>o_replies := rs\<rparr>) = ledger c"
  "ledger (c\<lparr>c_partitions := ps\<rparr>) = ledger c"
  by (auto intro!: ledger_frame simp: ledger_frame_def)

lemma sum_fun_upd:
  fixes f :: "nat \<Rightarrow> 'a multiset"
  assumes "a < n"
  shows "(\<Sum>x<n. (f(a := y)) x) + f a = (\<Sum>x<n. f x) + y"
proof -
  have "(\<Sum>x<n. (f(a := y)) x) = y + (\<Sum>x\<in>{..<n} - {a}. (f(a := y)) x)"
    using assms by (simp add: sum.remove)
  also have "(\<Sum>x\<in>{..<n} - {a}. (f(a := y)) x) = (\<Sum>x\<in>{..<n} - {a}. f x)"
    by (rule sum.cong) auto
  finally show ?thesis
    using assms sum.remove [of "{..<n}" a f] by simp
qed

lemma activeChans_upd:
  assumes "a < c_next c"
  shows "activeChans (c\<lparr>c_heap := (c_heap c)(a := it)\<rparr>) + activeChansAt (c_heap c a) =
    activeChans c + activeChansAt it"
proof -
  have "activeChans (c\<lparr>c_heap := (c_heap c)(a := it)\<rparr>) =
      (\<Sum>x<c_next c. ((\<lambda>x. activeChansAt (c_heap c x))(a := activeChansAt it)) x)"
    by (simp add: activeChans_def) (rule sum.cong, auto)
  then show ?thesis
    using sum_fun_upd [OF assms, of "\<lambda>x. activeChansAt (c_heap c x)" "activeChansAt it"]
    by (simp add: activeChans_def)
qed

lemma ledger_deliverItem:
  assumes "a < c_next c"
  shows "ledger (deliverItem a r c) = ledger c"
proof -
  let ?it = "(c_heap c a)\<lparr>q_waiters := map (\<lambda>w. w\<lparr>w_active := False\<rparr>) (q_waiters (c_heap c a))\<rparr>"
  have silent: "activeChansAt ?it = {#}"
    by (simp add: activeChansAt_def)
  have "activeChans (deliverItem a r c) = activeChans (c\<lparr>c_heap := (c_heap c)(a := ?it)\<rparr>)"
    by (simp add: activeChans_def deliverItem_eq)
  moreover have "deliveredChans (deliverItem a r c) = deliveredChans c + activeChansAt (c_heap c a)"
    by (simp add: deliveredChans_def activeChansAt_def deliverItem_eq comp_def)
  ultimately show ?thesis
    using activeChans_upd [OF assms, of ?it] silent by (simp add: ledger_def)
qed

lemma c_next_deliverItem [simp]: "c_next (deliverItem a r c) = c_next c"
  by (simp add: deliverItem_eq)

lemma ledger_failItem:
  "a < c_next c \<Longrightarrow> ledger (failItem pk a e c) = ledger c" "c_next (failItem pk a e c) = c_next c"
  by (simp_all add: failItem_def ledger_deliverItem)

section \<open>Dispatch, completion and shutdown keep it\<close>

lemma ledger_selectLoop:
  "list_all (\<lambda>a. a < c_next c) as \<Longrightarrow>
     ledger (snd (selectLoop cfg pk as s c)) = ledger c \<and>
     c_next (snd (selectLoop cfg pk as s c)) = c_next c"
  by (induction as arbitrary: s c) (simp_all add: Let_def ledger_failItem)

lemma ledger_failRequest:
  "list_all (\<lambda>a. a < c_next c) as \<Longrightarrow> ledger (failRequest cfg pk e as c) = ledger c"
  by (induction as arbitrary: c) (simp_all add: ledger_failItem)

lemma ledger_launchBatch [simp]: "ledger (launchBatch cfg pk reason s req c) = ledger c"
proof -
  have "ledger (registerBatch pk s bid c) = ledger c" "ledger (snd (nextBatchID c)) = ledger c"
      "ledger (startWorker wk c) = ledger c" for bid wk and c :: "('a, 'b) coordinator"
    by (auto intro!: ledger_frame
        simp: ledger_frame_def registerBatch_def heap_markDispatched nextBatchID_def startWorker_def Let_def)
  then show ?thesis
    by (simp add: launchBatch_def Let_def split_beta announceBatch_def takeSelected_def)
qed

lemma ledger_prune [simp]: "ledger (prune pk c) = ledger c"
proof (induction pk c rule: prune.induct)
  case (1 pk c)
  then show ?case
    by (subst prune.simps) (auto split: list.split)
qed

lemma selectLoop_selected:
  "set (sl_selected (fst (selectLoop cfg pk as s c))) \<subseteq> set (sl_selected s) \<union> set as"
proof (induction as arbitrary: s c)
  case (Cons a as)
  show ?case
    using Cons [of s "decQueued (decLive pk (removeActive pk a c))"]
      Cons [of s "decQueued (failItem pk a ErrItemTooLarge c)"]
      Cons [of "s\<lparr>sl_remaining := sl_remaining s @ [a]\<rparr>" c] Cons [of "selectItem a (c_heap c a) s" c]
    by (auto simp: Let_def selectItem_def)
qed simp

lemma pending_allocated:
  assumes "coord_inv c"
  shows "list_all (\<lambda>a. a < c_next c) (pendingOf c pk)"
  using cinvD(2,5) [OF assms [unfolded coord_inv_def]]
  unfolding separated_def balanced_def list_all_iff queued_def
  by (metis in_multiset_in_set union_iff)

lemma ledger_dispatchBatch:
  assumes "coord_inv c"
  shows "ledger (dispatchBatch cfg pk reason c) = ledger c"
proof -
  obtain s c1 where sel: "selectLoop cfg pk (pendingOf c pk) noSelection c = (s, c1)"
    by fastforce
  have c1: "ledger c1 = ledger c" "c_next c1 = c_next c"
    using ledger_selectLoop [OF pending_allocated [OF assms], of cfg pk pk noSelection] sel by simp_all
  have "list_all (\<lambda>a. a < c_next c1) (sl_selected s)"
    using selectLoop_selected [of cfg pk "pendingOf c pk" noSelection c] sel
      pending_allocated [OF assms, of pk] c1(2)
    by (auto simp: noSelection_def list_all_iff)
  then show ?thesis
    using sel c1 by (simp add: dispatchBatch_def Let_def ledger_failRequest split: sum.split)
qed

lemma ledger_drainPartition:
  "coord_inv c \<Longrightarrow> ledger (drainPartition cfg pk force now c) = ledger c"
proof (induction cfg pk force now c rule: drainPartition.induct)
  case (1 cfg pk force now c)
  then show ?case
    by (subst drainPartition.simps) (auto simp: Let_def coord_inv_prune coord_inv_dispatchBatch
        ledger_dispatchBatch split: option.splits)
qed

lemma ledger_schedule:
  assumes c: "coord_inv c"
  shows "ledger (schedule cfg clk force c) = ledger c"
proof -
  have parts: "coord_inv c \<Longrightarrow> ledger (schedulePartitions cfg force now pks c) = ledger c" for now pks
    and c :: "('a, 'b) coordinator"
    by (induction pks arbitrary: c)
      (simp_all add: coord_inv_maybeRetire coord_inv_drainPartition ledger_drainPartition)
  have "coord_inv (c\<lparr>e_reads := Suc (e_reads c)\<rparr>)"
    using c by (rule coord_inv_view) (simp_all add: same_view_def fun_eq_iff queued_def pendingOf_def)
  from parts [OF this] show ?thesis
    by (simp add: schedule_def clockNow_def computeNextTimer_def split: option.split)
qed

lemma ledger_failItems:
  "list_all (\<lambda>a. a < c_next c) as \<Longrightarrow> ledger (failItems pk e as c) = ledger c"
  by (induction as arbitrary: c) (simp_all add: resolveItem_def ledger_deliverItem)

lemma ledger_distributeItems:
  "list_all (\<lambda>a. a < c_next c) as \<Longrightarrow> ledger (distributeItems pk m as c) = ledger c"
  by (induction as arbitrary: c)
    (simp_all add: resolveItem_def ledger_deliverItem Let_def countItemError_def)

lemma ledger_settleBatch:
  "list_all (\<lambda>a. a < c_next c) (b_items b) \<Longrightarrow> ledger (settleBatch cfg b d c) = ledger c"
  by (simp add: settleBatch_def distribute_def failBatch_def Let_def ledger_failItems
      ledger_distributeItems split: option.split)

lemma ledger_releaseBatch [simp]:
  "ledger (releaseBatch b i c) = ledger c" "c_next (releaseBatch b i c) = c_next c"
  by (simp_all add: releaseBatch_def Let_def)

lemma inflight_allocated:
  assumes c: "coord_inv c" and b: "map_of (c_inflight c) i = Some b"
  shows "list_all (\<lambda>a. a < c_next c) (b_items b)"
  using cinvD(2,5) [OF c [unfolded coord_inv_def]] owned_member [OF map_of_SomeD [OF b]]
  unfolding separated_def balanced_def list_all_iff by (metis union_iff)

lemma ledger_deliverItems:
  "list_all (\<lambda>a. a < c_next c) as \<Longrightarrow> ledger (deliverItems as r c) = ledger c"
  by (induction as arbitrary: c) (simp_all add: ledger_deliverItem)

lemma indexed_iff:
  assumes "parts_ok c"
  shows "a \<in> set (indexedItems c) \<longleftrightarrow> (\<exists>pk. a \<in># indexOf c pk)"
proof
  assume "a \<in> set (indexedItems c)"
  then obtain pk p where "(pk, p) \<in> set (c_partitions c)" "a \<in># addrsOf (p_active p)"
    by (force simp: indexedItems_def addrsOf_def)
  moreover from this have "partOf c pk = Some p"
    using assms by (simp add: parts_ok_def partOf_def)
  ultimately show "\<exists>pk. a \<in># indexOf c pk"
    by (auto simp: indexOf_def intro!: exI [of _ pk])
next
  assume "\<exists>pk. a \<in># indexOf c pk"
  then obtain pk p where "partOf c pk = Some p" "a \<in># addrsOf (p_active p)"
    by (auto simp: indexOf_def split: option.splits)
  then show "a \<in> set (indexedItems c)"
    using map_of_SomeD [of "c_partitions c" pk p]
    by (force simp: indexedItems_def addrsOf_def partOf_def)
qed

lemma indexed_allocated:
  assumes "coord_inv c"
  shows "list_all (\<lambda>a. a < c_next c) (indexedItems c)"
  using cinvD(1,2) [OF assms [unfolded coord_inv_def]] indexed_iff
  by (auto simp: separated_def list_all_iff)

lemma ledger_barriers [simp]:
  "ledger (tryCompleteBarriers ctxErr c) = ledger c" "ledger (failBarriers e c) = ledger c"
  using tryCompleteBarriers_frame [of ctxErr c] failBarriers_frame [of e c] by auto

lemma ledger_handleEngineCancel:
  assumes c: "coord_inv c"
  shows "ledger (handleEngineCancel c) = ledger c"
proof -
  have "ledger (c\<lparr>o_cancels := cs\<rparr>) = ledger c" for cs and c :: "('a, 'b) coordinator"
    by (rule ledger_frame) (simp add: ledger_frame_def)
  then show ?thesis
    using handleEngineCancel_frame [of c] indexed_allocated [OF c]
    by (auto simp: ledger_deliverItems)
qed

section \<open>Admission and cancellation change it\<close>

lemma ledger_joinItem:
  assumes "a < c_next c" "w_active (s_waiter req)"
  shows "ledger (joinItem cfg a req c) = add_mset (w_ch (s_waiter req)) (ledger c)"
proof -
  let ?it = "(c_heap c a)\<lparr>q_waiters := q_waiters (c_heap c a) @ [s_waiter req],
     q_activeWaiters := q_activeWaiters (c_heap c a) + 1\<rparr>"
  have "activeChansAt ?it = add_mset (w_ch (s_waiter req)) (activeChansAt (c_heap c a))"
    using assms(2) by (simp add: activeChansAt_def)
  then have "ledger (c\<lparr>c_heap := (c_heap c)(a := ?it)\<rparr>) = add_mset (w_ch (s_waiter req)) (ledger c)"
    using activeChans_upd [OF assms(1), of ?it] by (simp add: ledger_def deliveredChans_def)
  then show ?thesis
    by (simp add: joinItem_def Let_def updItem_def)
qed

lemma ledger_enqueueItem:
  assumes "w_active (s_waiter req)"
  shows "ledger (enqueueItem cfg clk req c) = add_mset (w_ch (s_waiter req)) (ledger c)"
proof -
  have "(\<Sum>a<c_next c. activeChansAt (if a = c_next c then x else c_heap c a)) =
      (\<Sum>a<c_next c. activeChansAt (c_heap c a))" for x
    by (rule sum.cong) auto
  then show ?thesis
    using assms
    by (simp add: enqueueItem_def Let_def nextRequestID_def clockNow_def nextSeq_def ledger_def
        activeChans_def deliveredChans_def activeChansAt_def emit_def reply_def tally_def updPart_def
        cong: if_cong)
qed

text \<open>
  What a caller sees of a submission: the reply nil (admitted), an error or the fallback
  sentinel (refused), or no reply yet (parked by the block policy).
\<close>

definition admittedOne :: "'k bindingConfig \<Rightarrow> clock \<Rightarrow> 'k submitReq \<Rightarrow> ('k, 'v) coordinator \<Rightarrow> chan multiset" where
  "admittedOne cfg clk req c =
     (if o_replies (handleSubmit cfg clk req c) = o_replies c @ [(s_reply req, None)]
      then {#w_ch (s_waiter req)#} else {#})"

fun admittedAll ::
  "'k bindingConfig \<Rightarrow> clock \<Rightarrow> 'k submitReq list \<Rightarrow> ('k, 'v) coordinator \<Rightarrow> chan multiset" where
  "admittedAll cfg clk [] c = {#}"
| "admittedAll cfg clk (r # rs) c =
     admittedOne cfg clk r c + admittedAll cfg clk rs (handleSubmit cfg clk r c)"

lemma replies_submit [simp]:
  "o_replies (joinItem cfg a req c) = o_replies c @ [(s_reply req, None)]"
  "o_replies (enqueueItem cfg clk req c) = o_replies c @ [(s_reply req, None)]"
  by (simp_all add: joinItem_def enqueueItem_def Let_def emit_def reply_def tally_def updPart_def
      updItem_def nextRequestID_def clockNow_def nextSeq_def)

lemma overflow_refuses:
  "o_replies (overflow cfg req category isPart c) \<noteq> o_replies c @ [(s_reply req, None)]"
  "ledger (overflow cfg req category isPart c) = ledger c"
proof -
  show "o_replies (overflow cfg req category isPart c) \<noteq> o_replies c @ [(s_reply req, None)]"
    by (auto simp: overflow_def reply_def emit_def tally_def Let_def split: OverflowPolicy.split)
  show "ledger (overflow cfg req category isPart c) = ledger c"
    by (simp add: overflow_def Let_def split: OverflowPolicy.split)
qed

lemma indexed_lt: "separated c \<Longrightarrow> a \<in># indexOf c pk \<Longrightarrow> a < c_next c"
  by (simp add: separated_def)

lemma ledger_submitInto:
  assumes "parts_ok c" "separated c" "partOf c (encoded (s_part req)) = Some p" "w_active (s_waiter req)"
  shows "ledger (submitInto cfg clk req p c) = ledger c +
    (if o_replies (submitInto cfg clk req p c) = o_replies c @ [(s_reply req, None)]
     then {#w_ch (s_waiter req)#} else {#})"
proof -
  have "a < c_next c" if "findJoin cfg c p req = Some a" for a
    using findJoin_indexed(1) [OF that] assms(3)
    by (intro indexed_lt [OF assms(2), of _ "encoded (s_part req)"]) (simp add: indexOf_def)
  then show ?thesis
    using assms(4)
    by (simp add: submitInto_def overflow_refuses ledger_joinItem ledger_enqueueItem
        split: option.split)
qed

lemma ledger_handleSubmit:
  assumes c: "coord_inv c" and w: "w_active (s_waiter req)"
  shows "ledger (handleSubmit cfg clk req c) = ledger c + admittedOne cfg clk req c"
proof -
  note cD = cinvD [OF c [unfolded coord_inv_def]]
  let ?pk = "encoded (s_part req)"
  let ?d = "activePartitionsGauge
    (c\<lparr>c_partitions := AList.update ?pk (newPartitionState (s_part req)) (c_partitions c)\<rparr>)"
  have d: "ledger ?d = ledger c" "o_replies ?d = o_replies c"
      "partOf ?d ?pk = Some (newPartitionState (s_part req))"
    by (simp_all add: activePartitionsGauge_def) (simp_all add: tally_def partOf_def)
  have into: "ledger (submitInto cfg clk req (newPartitionState (s_part req)) ?d) = ledger c +
      (if o_replies (submitInto cfg clk req (newPartitionState (s_part req)) ?d) =
          o_replies c @ [(s_reply req, None)] then {#w_ch (s_waiter req)#} else {#})"
    if "partOf c ?pk = None"
    using cinvD(1,2) [OF cinv_newPartition [OF c [unfolded coord_inv_def] that]]
      ledger_submitInto [OF _ _ d(3) w, of cfg clk] unfolding d(1,2) by blast
  show ?thesis
    unfolding admittedOne_def handleSubmit_def Let_def
    using into ledger_submitInto [OF cD(1,2) _ w, of _ cfg clk]
    by (auto simp: overflow_refuses reply_def tally_def split: option.split
        intro!: ledger_frame simp: ledger_frame_def)
qed

lemma ledger_submitAll:
  "coord_inv c \<Longrightarrow> list_all (\<lambda>r. w_active (s_waiter r)) rs \<Longrightarrow>
     ledger (submitAll cfg clk rs c) = ledger c + admittedAll cfg clk rs c"
  by (induction rs arbitrary: c) (simp_all add: coord_inv_handleSubmit ledger_handleSubmit)

fun firstMatch :: "u64 \<Rightarrow> waiter list \<Rightarrow> chan multiset" where
  "firstMatch i [] = {#}"
| "firstMatch i (w # ws) = (if waiterMatches i w then {#w_ch w#} else firstMatch i ws)"

lemma activeChansAt_deactivate:
  "mset (map w_ch (filter w_active ws)) =
     mset (map w_ch (filter w_active (deactivate i ws))) + firstMatch i ws"
  by (induction i ws rule: deactivate.induct) (auto simp: waiterMatches_def)

lemma ledger_cancelWaiter:
  assumes "a < c_next c"
  shows "ledger (cancelWaiter cfg pk a i c) + firstMatch i (q_waiters (c_heap c a)) = ledger c"
proof -
  let ?it = "(c_heap c a)\<lparr>q_waiters := deactivate i (q_waiters (c_heap c a)),
     q_activeWaiters := q_activeWaiters (c_heap c a) - 1\<rparr>"
  have "activeChansAt (c_heap c a) = activeChansAt ?it + firstMatch i (q_waiters (c_heap c a))"
    using activeChansAt_deactivate by (simp add: activeChansAt_def)
  then have "ledger (c\<lparr>c_heap := (c_heap c)(a := ?it)\<rparr>) + firstMatch i (q_waiters (c_heap c a)) = ledger c"
    using activeChans_upd [OF assms, of ?it]
    by (simp add: ledger_def deliveredChans_def)
  then show ?thesis
    by (simp add: cancelWaiter_def Let_def updItem_def split: option.split)
qed

section \<open>One iteration, and all of a run\<close>

definition admittedBy ::
  "'k bindingConfig \<Rightarrow> clock \<Rightarrow> ('k, 'v) event \<Rightarrow> ('k, 'v) coordinator \<Rightarrow> chan multiset" where
  "admittedBy cfg clk ev c =
     (case ev of
        EvSubmit req \<Rightarrow> admittedOne cfg clk req c
      | EvComplete d \<Rightarrow>
          (case map_of (c_inflight c) (d_batchID d) of
             None \<Rightarrow> {#}
           | Some b \<Rightarrow>
               (let c = settleBatch cfg b d (releaseBatch b (d_batchID d) c)
                in admittedAll cfg clk (c_blocked c) (c\<lparr>c_blocked := []\<rparr>)))
      | _ \<Rightarrow> {#})"

definition cancelledBy :: "('k, 'v) event \<Rightarrow> ('k, 'v) coordinator \<Rightarrow> chan multiset" where
  "cancelledBy ev c =
     (case ev of
        EvCancel cr \<Rightarrow>
          if x_blocked cr then {#}
          else
            (case partOf c (x_part cr) of
               None \<Rightarrow> {#}
             | Some p \<Rightarrow>
                 (case findWaiter c p (x_waiterID cr) of
                    None \<Rightarrow> {#}
                  | Some a \<Rightarrow> firstMatch (x_waiterID cr) (q_waiters (c_heap c a))))
      | _ \<Rightarrow> {#})"

text \<open>
  Callers send a fresh, active waiter with their submission, and the hash of its key (Do in
  runtime/binding.go).
\<close>

definition request_ok :: "'k bindingConfig \<Rightarrow> 'k submitReq \<Rightarrow> bool" where
  "request_ok cfg req \<longleftrightarrow> w_active (s_waiter req) \<and> s_hash req = Hash (cf_keys cfg) (s_key req)"

definition event_ok :: "'k bindingConfig \<Rightarrow> ('k, 'v) event \<Rightarrow> bool" where
  "event_ok cfg ev \<longleftrightarrow> (case ev of EvSubmit req \<Rightarrow> request_ok cfg req | _ \<Rightarrow> True)"

definition blocked_ok :: "'k bindingConfig \<Rightarrow> ('k, 'v) coordinator \<Rightarrow> bool" where
  "blocked_ok cfg c \<longleftrightarrow> list_all (request_ok cfg) (c_blocked c)"

lemma ledger_handleCancel:
  assumes c: "coord_inv c"
  shows "ledger (handleCancel cfg cr c) + cancelledBy (EvCancel cr) c = ledger c"
proof -
  have "a < c_next c"
    if "partOf c (x_part cr) = Some p" "findWaiter c p (x_waiterID cr) = Some a" for p a
  proof -
    have "a \<in># indexOf c (x_part cr)"
      using that find_SomeD [OF that(2) [unfolded findWaiter_def]]
      by (simp add: indexOf_def addrsOf_def)
    then show ?thesis
      using cinvD(2) [OF c [unfolded coord_inv_def]] by (rule indexed_lt [rotated])
  qed
  then show ?thesis
    by (simp add: handleCancel_def cancelledBy_def ledger_cancelWaiter split: option.split)
qed

lemma ledger_handleComplete:
  assumes c: "coord_inv c" and bl: "blocked_ok cfg c"
  shows "ledger (handleComplete cfg clk d c) = ledger c + admittedBy cfg clk (EvComplete d) c"
proof (cases "map_of (c_inflight c) (d_batchID d)")
  case (Some b)
  define e where "e = settleBatch cfg b d (releaseBatch b (d_batchID d) c)"
  have e: "coord_inv e"
    unfolding e_def using c Some by (rule coord_inv_settle)
  then have e0: "coord_inv (e\<lparr>c_blocked := []\<rparr>)"
    by (rule coord_inv_view) (simp_all add: same_view_def fun_eq_iff queued_def pendingOf_def)
  have "ledger e = ledger c"
    unfolding e_def using inflight_allocated [OF c Some] by (simp add: ledger_settleBatch)
  moreover have "quiet c e"
    unfolding e_def by (rule quiet_trans [OF quiet_releaseBatch quiet_settleBatch])
  then have "list_all (\<lambda>r. w_active (s_waiter r)) (c_blocked e)"
    using bl by (auto simp: blocked_ok_def quiet_def request_ok_def list_all_iff)
  ultimately have "ledger (retryBlocked cfg clk e) =
      ledger c + admittedAll cfg clk (c_blocked e) (e\<lparr>c_blocked := []\<rparr>)"
    using e0 by (simp add: retryBlocked_def ledger_submitAll)
  then show ?thesis
    using Some by (simp add: handleComplete_def admittedBy_def Let_def flip: e_def)
qed (simp add: handleComplete_def admittedBy_def)

lemma ledger_handleEvent:
  assumes c: "coord_inv c" and bl: "blocked_ok cfg c" and ev: "event_ok cfg ev"
  shows "ledger (handleEvent cfg clk ev c) + cancelledBy ev c = ledger c + admittedBy cfg clk ev c"
proof (cases ev)
  case (EvSubmit req)
  then show ?thesis
    using ledger_handleSubmit [OF c] ev by (simp add: event_ok_def request_ok_def cancelledBy_def admittedBy_def)
next
  case (EvCancel cr)
  then show ?thesis
    using ledger_handleCancel [OF c, of cfg cr] by (simp add: admittedBy_def)
next
  case (EvComplete d)
  then show ?thesis
    using ledger_handleComplete [OF c bl] by (simp add: cancelledBy_def)
next
  case (EvControl ctrl)
  have "coord_inv (if t_kind ctrl = controlClose then c\<lparr>c_closing := True\<rparr> else c)"
    using c by (auto elim!: coord_inv_view simp: same_view_def fun_eq_iff queued_def pendingOf_def)
  from ledger_schedule [OF this, of cfg clk True] EvControl show ?thesis
    by (simp add: handleControl_def Let_def cancelledBy_def admittedBy_def split: if_splits)
next
  case EvTimer
  have "coord_inv (c\<lparr>c_timerActive := False\<rparr>)"
    using c by (rule coord_inv_view) (simp_all add: same_view_def fun_eq_iff queued_def pendingOf_def)
  from ledger_schedule [OF this] EvTimer show ?thesis
    by (simp add: cancelledBy_def admittedBy_def)
next
  case EvEngineDone
  then show ?thesis
    using ledger_handleEngineCancel [OF c] by (simp add: cancelledBy_def admittedBy_def)
qed

lemma ledger_finishIteration:
  "coord_inv c \<Longrightarrow> ledger (finishIteration cfg clk ctxErr c) = ledger c"
  by (simp add: finishIteration_def Let_def ledger_schedule)

lemma ledger_iteration:
  assumes c: "coord_inv c" and bl: "blocked_ok cfg c" and ev: "event_ok cfg ev"
  shows "ledger (iteration cfg clk ctxErr ev c) + cancelledBy ev c = ledger c + admittedBy cfg clk ev c"
  using ledger_handleEvent [OF assms, of clk]
    ledger_finishIteration [OF coord_inv_handleEvent [OF c]]
  by (auto simp: iteration_def Let_def)

text \<open>Parked submissions keep their active waiters.\<close>

lemma blocked_ok_quiet: "quiet c d \<Longrightarrow> blocked_ok cfg c \<Longrightarrow> blocked_ok cfg d"
  by (simp add: quiet_def blocked_ok_def)

lemma blocked_ok_handleSubmit:
  "blocked_ok cfg c \<Longrightarrow> request_ok cfg req \<Longrightarrow> blocked_ok cfg (handleSubmit cfg clk req c)"
proof -
  have over: "blocked_ok cfg c \<Longrightarrow> request_ok cfg req \<Longrightarrow> blocked_ok cfg (overflow cfg req category isPart c)"
    for category isPart and c :: "('a, 'b) coordinator"
    by (simp add: overflow_def blocked_ok_def Let_def reply_def tally_def emit_def
        split: OverflowPolicy.split)
  have into: "blocked_ok cfg c \<Longrightarrow> request_ok cfg req \<Longrightarrow> blocked_ok cfg (submitInto cfg clk req p c)"
    for p and c :: "('a, 'b) coordinator"
  proof -
    show "blocked_ok cfg c \<Longrightarrow> request_ok cfg req \<Longrightarrow> ?thesis"
      using over by (simp add: submitInto_def blocked_ok_def split: option.split)
  qed
  show "blocked_ok cfg c \<Longrightarrow> request_ok cfg req \<Longrightarrow> ?thesis"
    using over into
    by (auto simp: handleSubmit_def Let_def activePartitionsGauge_def tally_def reply_def blocked_ok_def
        split: option.split)
qed

lemma blocked_ok_submitAll:
  "blocked_ok cfg c \<Longrightarrow> list_all (request_ok cfg) rs \<Longrightarrow> blocked_ok cfg (submitAll cfg clk rs c)"
  by (induction rs arbitrary: c) (simp_all add: blocked_ok_handleSubmit)

lemma blocked_ok_handleEvent:
  assumes bl: "blocked_ok cfg c" and ev: "event_ok cfg ev"
  shows "blocked_ok cfg (handleEvent cfg clk ev c)"
proof (cases ev)
  case (EvSubmit req)
  then show ?thesis using assms by (simp add: event_ok_def blocked_ok_handleSubmit)
next
  case (EvCancel cr)
  have "list_all P rs \<Longrightarrow> list_all P (removeBlocked i rs)" for P i and rs :: "'a submitReq list"
    by (induction rs) simp_all
  then show ?thesis
    using bl EvCancel blocked_ok_quiet [OF quiet_cancelWaiter bl]
    by (auto simp: handleCancel_def blocked_ok_def split: option.split)
next
  case (EvComplete d)
  have "blocked_ok cfg (retryBlocked cfg clk e)" if "blocked_ok cfg e" for e :: "('a, 'b) coordinator"
    using that blocked_ok_submitAll [of cfg "e\<lparr>c_blocked := []\<rparr>" "c_blocked e" clk]
    by (simp add: retryBlocked_def blocked_ok_def)
  moreover have "blocked_ok cfg (settleBatch cfg b d (releaseBatch b i c))" for b i
    using quiet_trans [OF quiet_releaseBatch quiet_settleBatch] bl by (rule blocked_ok_quiet)
  ultimately show ?thesis
    using EvComplete bl by (simp add: handleComplete_def split: option.split)
next
  case (EvControl ctrl)
  then show ?thesis
    using bl blocked_ok_quiet [OF quiet_schedule, of cfg "c\<lparr>c_closing := True\<rparr>" cfg clk True]
      blocked_ok_quiet [OF quiet_schedule, of cfg c cfg clk True]
    by (simp add: handleControl_def Let_def blocked_ok_def)
next
  case EvTimer
  then show ?thesis
    using bl blocked_ok_quiet [OF quiet_schedule, of cfg "c\<lparr>c_timerActive := False\<rparr>" cfg clk False]
    by (simp add: blocked_ok_def)
next
  case EvEngineDone
  then show ?thesis
    using bl handleEngineCancel_frame [of c] blocked_ok_quiet
      [OF quiet_deliverItems, of cfg "c\<lparr>c_closing := True\<rparr>" "indexedItems c" "errRes ErrEngineClosed"]
    by (auto simp: blocked_ok_def)
qed

lemma blocked_barriers [simp]:
  "c_blocked (tryCompleteBarriers ctxErr c) = c_blocked c" "c_blocked (failBarriers e c) = c_blocked c"
  "c_done (tryCompleteBarriers ctxErr c) = c_done c" "c_done (failBarriers e c) = c_done c"
  using tryCompleteBarriers_frame [of ctxErr c] failBarriers_frame [of e c] by auto

lemma blocked_ok_iteration:
  assumes "blocked_ok cfg c" "event_ok cfg ev"
  shows "blocked_ok cfg (iteration cfg clk ctxErr ev c)"
  using blocked_ok_handleEvent [OF assms, of clk]
    blocked_ok_quiet [OF quiet_schedule blocked_ok_handleEvent [OF assms], of cfg clk False clk]
  by (auto simp: iteration_def finishIteration_def Let_def blocked_ok_def)

inductive served ::
  "'k bindingConfig \<Rightarrow> clock \<Rightarrow> ('k, 'v) coordinator \<Rightarrow> chan multiset \<Rightarrow> chan multiset \<Rightarrow> bool"
  for cfg clk where
  start: "served cfg clk (newCoordinator memory r) {#} {#}"
| event: "served cfg clk c A C \<Longrightarrow> \<not> c_done c \<Longrightarrow> event_ok cfg ev \<Longrightarrow>
    served cfg clk (iteration cfg clk ctxErr ev c) (A + admittedBy cfg clk ev c) (C + cancelledBy ev c)"
| adapt: "served cfg clk c A C \<Longrightarrow>
    served cfg clk (c\<lparr>c_dyn := ApplyAdaptiveSettings (cf_sched cfg) s\<rparr>) A C"
| unadapt: "served cfg clk c A C \<Longrightarrow> served cfg clk (c\<lparr>c_dyn := ClearAdaptiveSettings\<rparr>) A C"
| others: "served cfg clk c A C \<Longrightarrow> served cfg clk (c\<lparr>e_requestSeq := r\<rparr>) A C"

lemma coord_inv_new: "coord_inv (newCoordinator memory r)"
  by (simp add: coord_inv_def cinv_def newCoordinator_def parts_ok_def separated_def inflight_ok_def
      waiters_ok_def balanced_def undispatched_def indexOf_def owned_def queued_def pendingOf_def partOf_def)

lemma coord_inv_env:
  assumes "coord_inv c"
  shows "coord_inv (c\<lparr>c_dyn := dy\<rparr>)" "coord_inv (c\<lparr>e_requestSeq := r\<rparr>)"
  using assms
  by (rule coord_inv_view; simp add: same_view_def fun_eq_iff queued_def pendingOf_def)+

lemma served_inv:
  "served cfg clk c A C \<Longrightarrow> coord_inv c \<and> blocked_ok cfg c \<and> ledger c + C = A"
proof (induction rule: served.induct)
  case (start memory r)
  show ?case
    by (simp add: coord_inv_new) (simp add: newCoordinator_def blocked_ok_def ledger_def
        activeChans_def deliveredChans_def)
next
  case (event c A C ev ctxErr)
  then have c: "coord_inv c" "blocked_ok cfg c" and A: "A = ledger c + C" by simp_all
  note step = ledger_iteration [OF c \<open>event_ok cfg ev\<close>, of clk ctxErr]
  have "ledger (iteration cfg clk ctxErr ev c) + (C + cancelledBy ev c) = A + admittedBy cfg clk ev c"
    unfolding A using step by (metis union_assoc union_commute)
  then show ?case
    using c \<open>event_ok cfg ev\<close> by (simp only: coord_inv_iteration blocked_ok_iteration simp_thms)
qed (simp_all add: coord_inv_env blocked_ok_def)

section \<open>The loop ends only when everyone has been answered\<close>

lemma done_handleEvent: "c_done (handleEvent cfg clk ev c) = c_done c"
proof (cases ev)
  case (EvCancel cr)
  then show ?thesis
    using quiet_cancelWaiter [of c cfg] by (simp add: handleCancel_def quiet_def split: option.split)
next
  case (EvComplete d)
  have all: "c_done (submitAll cfg clk rs e) = c_done e" for rs and e :: "('a, 'b) coordinator"
    by (induction rs arbitrary: e) simp_all
  have "c_done (settleBatch cfg b d (releaseBatch b i c)) = c_done c" for b i
    using quiet_trans [OF quiet_releaseBatch [of c b i] quiet_settleBatch [of _ cfg b d]]
    by (simp add: quiet_def)
  then show ?thesis
    using EvComplete by (simp add: handleComplete_def retryBlocked_def all split: option.split)
next
  case (EvControl ctrl)
  then show ?thesis
    using quiet_schedule [of "c\<lparr>c_closing := True\<rparr>" cfg clk True] quiet_schedule [of c cfg clk True]
    by (simp add: handleControl_def Let_def quiet_def)
next
  case EvTimer
  then show ?thesis
    using quiet_schedule [of "c\<lparr>c_timerActive := False\<rparr>" cfg clk False] by (simp add: quiet_def)
next
  case EvEngineDone
  then show ?thesis
    using handleEngineCancel_frame [of c]
      quiet_deliverItems [of "c\<lparr>c_closing := True\<rparr>" "indexedItems c" "errRes ErrEngineClosed"]
    by (auto simp: quiet_def)
qed simp

lemma drained_frame [simp]:
  "drained (c\<lparr>c_done := b\<rparr>) = drained c" "drained (c\<lparr>o_replies := rs\<rparr>) = drained c"
  "drained (c\<lparr>c_barriers := bs\<rparr>) = drained c" "drained (c\<lparr>c_dyn := dy\<rparr>) = drained c"
  "drained (c\<lparr>e_requestSeq := r\<rparr>) = drained c"
  by (simp_all add: drained_def)

lemma done_drained:
  assumes "\<not> c_done c" "c_done (iteration cfg clk ctxErr ev c)"
  shows "drained (iteration cfg clk ctxErr ev c)"
proof -
  define d where "d = handleEvent cfg clk ev c"
  define e where "e = tryCompleteBarriers ctxErr (schedule cfg clk False d)"
  have nd: "\<not> c_done d"
    using assms(1) by (simp add: d_def done_handleEvent)
  then have ne: "\<not> c_done e"
    using quiet_schedule [of d cfg clk False] by (simp add: e_def quiet_def)
  have fb: "drained ((failBarriers None e)\<lparr>c_done := True\<rparr>) = drained e"
    using failBarriers_frame [of None e] by auto
  show ?thesis
    using assms(2) nd ne fb
    by (auto simp: iteration_def finishIteration_def Let_def simp flip: d_def e_def
        split: if_splits)
qed

lemma served_done_drained: "served cfg clk c A C \<Longrightarrow> c_done c \<Longrightarrow> drained c"
proof (induction rule: served.induct)
  case (event c A C ev ctxErr)
  then show ?case using done_drained by blast
qed (simp_all add: newCoordinator_def)

lemma drained_idle:
  assumes c: "coord_inv c" and d: "drained c"
  shows "activeChans c = {#}"
proof -
  note cD = cinvD [OF c [unfolded coord_inv_def]]
  have "indexOf c pk = {#}" for pk
  proof (cases "partOf c pk")
    case (Some p)
    then have "(pk, p) \<in> set (c_partitions c)"
      by (simp add: partOf_def map_of_SomeD)
    then have "\<not> p_live p > 0"
      using d by (auto simp: drained_def list_all_iff split: if_splits)
    then show ?thesis
      using cD(1) Some by (auto simp: parts_ok_def indexOf_def)
  qed (simp add: indexOf_def)
  then have "\<not> hasActive (c_heap c a)" if "a < c_next c" for a
    using cD(4) that by (auto simp: waiters_ok_def)
  then show ?thesis
    by (auto simp: activeChans_def activeChansAt_def hasActive_def filter_empty_conv intro!: sum.neutral)
qed

text \<open>Runs of a list of events, for the concrete cases below.\<close>

fun serve ::
  "'k bindingConfig \<Rightarrow> clock \<Rightarrow> contexts \<Rightarrow> ('k, 'v) event list \<Rightarrow>
   ('k, 'v) coordinator \<times> chan multiset \<times> chan multiset \<Rightarrow>
   (('k, 'v) coordinator \<times> chan multiset \<times> chan multiset) option" where
  "serve cfg clk ctxErr [] x = Some x"
| "serve cfg clk ctxErr (ev # evs) (c, A, C) =
     (if c_done c \<or> \<not> event_ok cfg ev then None
      else serve cfg clk ctxErr evs
        (iteration cfg clk ctxErr ev c, A + admittedBy cfg clk ev c, C + cancelledBy ev c))"

lemma serve_served:
  "serve cfg clk ctxErr evs (c, A, C) = Some (c', A', C') \<Longrightarrow> served cfg clk c A C \<Longrightarrow>
   served cfg clk c' A' C'"
  by (induction evs arbitrary: c A C) (auto split: if_splits intro: served.event)

lemma demo_serves:
  "case serve demoCfg demoClock demoContexts demoEvents (demo0, {#}, {#}) of
     None \<Rightarrow> False
   | Some (c, A, C) \<Rightarrow> A = {#11, 12#} \<and> C = {#} \<and> c_done c \<and> barrierSatisfied c demoBarrier \<and>
       0 < c_next c \<and> q_seq (c_heap c 0) \<le> br_seq demoBarrier"
  by code_simp

lemma demo_serves_two:
  "case serve demoCfg demoClock demoContexts (take 2 demoEvents) (demo0, {#}, {#}) of
     None \<Rightarrow> False
   | Some (c, A, C) \<Rightarrow> A = {#11, 12#} \<and> C = {#} \<and> map_of (c_inflight c) 1 \<noteq> None"
  by code_simp

lemma demo_served:
  "\<exists>c :: (nat, nat) coordinator. served demoCfg demoClock c {#11, 12#} {#} \<and> c_done c \<and>
     barrierSatisfied c demoBarrier \<and> 0 < c_next c \<and> q_seq (c_heap c 0) \<le> br_seq demoBarrier"
proof -
  obtain c where run: "serve demoCfg demoClock demoContexts demoEvents (demo0, {#}, {#}) =
      Some (c, {#11, 12#}, {#})" and fin: "c_done c" "barrierSatisfied c demoBarrier" "0 < c_next c"
        "q_seq (c_heap c 0) \<le> br_seq demoBarrier"
    using demo_serves by (auto split: option.splits)
  from serve_served [OF run] have "served demoCfg demoClock c {#11, 12#} {#}"
    by (simp add: demo0_def served.start)
  with fin show ?thesis by blast
qed

lemma demo_in_flight:
  "\<exists>(c :: (nat, nat) coordinator) b. served demoCfg demoClock c {#11, 12#} {#} \<and>
     map_of (c_inflight c) (d_batchID demoDone) = Some b"
proof -
  obtain c b where run: "serve demoCfg demoClock demoContexts (take 2 demoEvents) (demo0, {#}, {#}) =
      Some (c, {#11, 12#}, {#})" and b: "map_of (c_inflight c) 1 = Some b"
    using demo_serves_two by (auto split: option.splits)
  from serve_served [OF run] have "served demoCfg demoClock c {#11, 12#} {#}"
    by (simp add: demo0_def served.start)
  with b show ?thesis by (auto simp: demoDone_def)
qed

text \<open>C1: Every admitted caller is accounted for. In any run of the coordinator, with any order of
  submissions, cancellations, completions, control requests, timers, adaptive updates and
  shutdown, the result channels of the callers admitted so far are exactly those of waiters
  still active, those a result was sent to, and those that cancelled, with multiplicity. So no
  admitted caller is lost and none is answered twice, in coalesced (deduplicated) items too.\<close>

theorem callers_conserved:
  "served cfg clk c admitted cancelled \<Longrightarrow>
     activeChans c + mset (map fst (o_deliveries c)) + cancelled = admitted"
  using served_inv [of cfg clk c admitted cancelled] by (simp add: ledger_def deliveredChans_def)

theorem callers_conserved_witness:
  "\<exists>c :: (nat, nat) coordinator. served demoCfg demoClock c {#11, 12#} {#} \<and>
     activeChans c + mset (map fst (o_deliveries c)) + {#} = {#11, 12#}"
proof -
  obtain c :: "(nat, nat) coordinator" where c: "served demoCfg demoClock c {#11, 12#} {#}"
    using demo_served by blast
  then show ?thesis
    using callers_conserved [OF c] by blast
qed

text \<open>C2: When the event loop ends, every admitted caller that has not cancelled has received
  exactly one result: the channels results were sent to, plus the cancelled ones, are exactly
  the admitted ones.\<close>

theorem shutdown_answers_everyone:
  assumes "served cfg clk c admitted cancelled" "c_done c"
  shows "mset (map fst (o_deliveries c)) + cancelled = admitted"
  using served_inv [OF assms(1)] drained_idle [OF _ served_done_drained [OF assms]]
  by (auto simp: ledger_def deliveredChans_def)

theorem shutdown_answers_everyone_witness:
  "\<exists>c :: (nat, nat) coordinator. served demoCfg demoClock c {#11, 12#} {#} \<and> c_done c \<and>
     mset (map fst (o_deliveries c)) + {#} = {#11, 12#}"
proof -
  obtain c :: "(nat, nat) coordinator" where c: "served demoCfg demoClock c {#11, 12#} {#}" and fin: "c_done c"
    using demo_served by blast
  then show ?thesis
    using shutdown_answers_everyone [OF c fin] by blast
qed

end
