(* ===== verification/Runtime_Engine.thy ===== *)
theory Runtime_Engine
  imports Coordinator_Ledger Diagnostics
begin

text \<open>
  The engine and its scopes (runtime/engine.go, engine_options.go, scope.go, hooks.go): options and
  construction, the registry of bound operations, the engine's lifecycle, scopes carried by
  contexts, and Run.

  Bound operations are reached through the interface operationController, so the engine sees
  a handle per operation; the calls it makes through the interface are logged in \<open>rt_calls\<close> and what
  they return is the parameter \<open>ans\<close>. A scope is an index into \<open>rt_scopes\<close>, and a context is a record
  of what the runtime reads from it. Each method that holds a mutex is one step; Close has
  two critical sections with the calls between them, and the relation at the end interleaves
  them with everything else. A panic of a hook is recovered where the event is emitted and
  has no effect here.
\<close>

section \<open>Engine (engine.go, engine_options.go)\<close>

datatype EngineState = EngineStateOpen | EngineStateClosing | EngineStateClosed

definition engineStateNames :: "string list" where
  "engineStateNames = [''open'', ''closing'', ''closed'']"

fun EngineState_String :: "EngineState \<Rightarrow> string" where
  "EngineState_String EngineStateOpen = engineStateNames ! 0"
| "EngineState_String EngineStateClosing = engineStateNames ! 1"
| "EngineState_String EngineStateClosed = engineStateNames ! 2"

record Engine =
  en_state :: EngineState
  en_ops :: "(string, nat) gomap"
  en_clock :: "clock option"
  en_defaultLimits :: QueueLimits
  en_defaultOverflow :: OverflowPolicy
  en_hooks :: bool
  en_panicPolicy :: PanicPolicy
  en_statsEnabled :: bool
  en_engineID :: u64
  en_cancelled :: bool
  en_scopeSeq :: u64
  en_activeScopes :: int
  en_events :: "Event list"

type_synonym EngineOption = "Engine \<Rightarrow> rt_error + Engine"

definition WithClock :: "clock option \<Rightarrow> EngineOption" where
  "WithClock clock e =
     (if clock = None then Inl (ErrInvalidOption ''clock is nil'') else Inr (e\<lparr>en_clock := clock\<rparr>))"

definition limitsError :: rt_error where
  "limitsError = ErrInvalidOption ''queue limits must not be negative''"

definition WithDefaultQueueLimits :: "QueueLimits \<Rightarrow> EngineOption" where
  "WithDefaultQueueLimits limits e =
     (if \<not> QueueLimits_Validate limits then Inl limitsError else Inr (e\<lparr>en_defaultLimits := limits\<rparr>))"

text \<open>The two policies are one byte in Go; the options reject bytes past the last constant.\<close>

definition WithDefaultOverflowPolicy :: "u8 \<Rightarrow> EngineOption" where
  "WithDefaultOverflowPolicy policy e =
     (if policy > 2 then Inl (ErrInvalidOption ''unknown overflow policy'')
      else Inr (e\<lparr>en_defaultOverflow := [OverflowReject, OverflowFallback, OverflowBlock] ! unat policy\<rparr>))"

definition WithPanicPolicy :: "u8 \<Rightarrow> EngineOption" where
  "WithPanicPolicy policy e =
     (if policy > 1 then Inl (ErrInvalidOption ''unknown panic policy'')
      else Inr (e\<lparr>en_panicPolicy := [PanicPolicyRecover, PanicPolicyRepanic] ! unat policy\<rparr>))"

definition WithHooks :: "bool \<Rightarrow> EngineOption" where
  "WithHooks hooks e = Inr (e\<lparr>en_hooks := hooks\<rparr>)"

definition WithStatistics :: "bool \<Rightarrow> EngineOption" where
  "WithStatistics enabled e = Inr (e\<lparr>en_statsEnabled := enabled\<rparr>)"

fun applyOptions :: "EngineOption list \<Rightarrow> EngineOption" where
  "applyOptions [] e = Inr e"
| "applyOptions (opt # opts) e = (case opt e of Inl err \<Rightarrow> Inl err | Inr e' \<Rightarrow> applyOptions opts e')"

definition defaultEngine :: "clock \<Rightarrow> Engine" where
  "defaultEngine systemClock = \<lparr>en_state = EngineStateOpen, en_ops = [], en_clock = Some systemClock,
     en_defaultLimits = \<lparr>MaxItems = 100000, MaxWaiters = 0, MaxBytes = 64 * 2 ^ 20, MaxWeight = 0,
       MaxPartitions = 10000\<rparr>,
     en_defaultOverflow = OverflowReject, en_hooks = False, en_panicPolicy = PanicPolicyRecover,
     en_statsEnabled = True, en_engineID = 0, en_cancelled = False, en_scopeSeq = 0, en_activeScopes = 0,
     en_events = []\<rparr>"

text \<open>\<open>engineIDSeq\<close> is the process-wide counter of newEngineID; its new value is returned too.\<close>

definition newEngineID :: "u64 \<Rightarrow> u64" where "newEngineID engineIDSeq = engineIDSeq + 1"

definition NewEngine :: "clock \<Rightarrow> u64 \<Rightarrow> EngineOption list \<Rightarrow> rt_error + Engine \<times> u64" where
  "NewEngine systemClock engineIDSeq options =
     (case applyOptions options (defaultEngine systemClock) of
        Inl err \<Rightarrow> Inl err
      | Inr e \<Rightarrow>
          if \<not> QueueLimits_Validate (en_defaultLimits e) then Inl limitsError
          else if en_clock e = None then Inl (ErrInvalidOption ''clock is nil'')
          else (let i = newEngineID engineIDSeq in Inr (e\<lparr>en_engineID := i\<rparr>, i)))"

definition engineEmit :: "EventKind \<Rightarrow> string \<Rightarrow> string \<Rightarrow> string \<Rightarrow> Engine \<Rightarrow> Engine" where
  "engineEmit kind opID part scopeID e =
     (if \<not> en_hooks e then e
      else e\<lparr>en_events := en_events e @ [\<lparr>ev_Kind = kind, ev_Operation = opID, ev_Partition = part,
               ev_ScopeID = scopeID, ev_BatchID = 0, ev_Count = 0, ev_FlushReason = FlushManual,
               ev_ErrorClass = []\<rparr>]\<rparr>)"

definition emitEngineClosing :: "Engine \<Rightarrow> Engine" where
  "emitEngineClosing e = engineEmit EventEngineClosing [] [] [] e"

definition emitEngineClosed :: "Engine \<Rightarrow> Engine" where
  "emitEngineClosed e = engineEmit EventEngineClosed [] [] [] e"

definition registerController :: "string \<Rightarrow> nat \<Rightarrow> Engine \<Rightarrow> rt_error + Engine" where
  "registerController i h e =
     (if en_state e \<noteq> EngineStateOpen then Inl ErrEngineClosing
      else if map_of (en_ops e) i \<noteq> None then Inl (ErrOperationAlreadyBound i)
      else Inr (e\<lparr>en_ops := AList.update i h (en_ops e)\<rparr>))"

definition controllersSnapshot :: "Engine \<Rightarrow> nat list" where
  "controllersSnapshot e = map snd (stableSort (\<lambda>a b. fst a < fst b) (en_ops e))"

fun acceptingSubmissionsIn :: "EngineState \<Rightarrow> rt_error option" where
  "acceptingSubmissionsIn EngineStateOpen = None"
| "acceptingSubmissionsIn EngineStateClosing = Some ErrEngineClosing"
| "acceptingSubmissionsIn EngineStateClosed = Some ErrEngineClosed"

definition acceptingSubmissions :: "Engine \<Rightarrow> rt_error option" where
  "acceptingSubmissions e = acceptingSubmissionsIn (en_state e)"

definition ensureOpen :: "Engine \<Rightarrow> rt_error option" where
  "ensureOpen e = (if en_state e \<noteq> EngineStateOpen then Some ErrEngineClosing else None)"

section \<open>Scopes (scope.go)\<close>

datatype ScopeState = ScopeStateOpen | ScopeStateClosed

datatype NestedPolicy = NestedIsolateChild | NestedReuseParent | NestedRejectNested

record Scope =
  so_id :: u64
  so_state :: ScopeState
  so_ops :: "nat list"

record Ctx =
  cx_err :: "rt_error option"
  cx_deadline :: "gotime option"
  cx_scope :: "addr option"
  cx_exec :: "(string \<times> string) list"

datatype ctl_call = CallFlush nat | CallDrain nat | CallClose nat | CallDropMemo nat u64

record rt =
  rt_engine :: Engine
  rt_scopes :: "Scope list"
  rt_calls :: "ctl_call list"

type_synonym answers = "ctl_call \<Rightarrow> rt_error option"

definition ScopeID_String :: "u64 \<Rightarrow> string" where "ScopeID_String i = showNat (unat i)"

definition updScope :: "addr \<Rightarrow> (Scope \<Rightarrow> Scope) \<Rightarrow> rt \<Rightarrow> rt" where
  "updScope a f w = w\<lparr>rt_scopes := (rt_scopes w)[a := f (rt_scopes w ! a)]\<rparr>"

definition updEngine :: "(Engine \<Rightarrow> Engine) \<Rightarrow> rt \<Rightarrow> rt" where
  "updEngine f w = w\<lparr>rt_engine := f (rt_engine w)\<rparr>"

definition checkOpen :: "addr \<Rightarrow> rt \<Rightarrow> rt_error option" where
  "checkOpen a w = (if so_state (rt_scopes w ! a) \<noteq> ScopeStateOpen then Some ErrScopeClosed else None)"

definition trackOp :: "addr \<Rightarrow> nat \<Rightarrow> rt \<Rightarrow> rt" where
  "trackOp a h w = updScope a (\<lambda>s. s\<lparr>so_ops := List.insert h (so_ops s)\<rparr>) w"

definition trackedOps :: "addr \<Rightarrow> rt \<Rightarrow> nat list" where
  "trackedOps a w = so_ops (rt_scopes w ! a)"

definition invoke :: "ctl_call \<Rightarrow> rt \<Rightarrow> rt" where
  "invoke k w = w\<lparr>rt_calls := rt_calls w @ [k]\<rparr>"

text \<open>The loops of Flush and Drain stop at the first error; those of the two Close methods do not.\<close>

fun callUntilError :: "answers \<Rightarrow> ctl_call list \<Rightarrow> rt \<Rightarrow> rt_error option \<times> rt" where
  "callUntilError ans [] w = (None, w)"
| "callUntilError ans (k # ks) w =
     (case ans k of Some e \<Rightarrow> (Some e, invoke k w) | None \<Rightarrow> callUntilError ans ks (invoke k w))"

definition Scope_Flush :: "answers \<Rightarrow> addr \<Rightarrow> rt \<Rightarrow> rt_error option \<times> rt" where
  "Scope_Flush ans a w = callUntilError ans (map CallFlush (trackedOps a w)) w"

definition Scope_Drain :: "answers \<Rightarrow> addr \<Rightarrow> rt \<Rightarrow> rt_error option \<times> rt" where
  "Scope_Drain ans a w = callUntilError ans (map CallDrain (trackedOps a w)) w"

definition Engine_Flush :: "answers \<Rightarrow> rt \<Rightarrow> rt_error option \<times> rt" where
  "Engine_Flush ans w = callUntilError ans (map CallFlush (controllersSnapshot (rt_engine w))) w"

fun scopeCloseLoop :: "answers \<Rightarrow> u64 \<Rightarrow> nat list \<Rightarrow> rt_error option \<Rightarrow> rt \<Rightarrow> rt_error option \<times> rt" where
  "scopeCloseLoop ans i [] firstErr w = (firstErr, w)"
| "scopeCloseLoop ans i (h # hs) firstErr w =
     (let firstErr = (if ans (CallFlush h) \<noteq> None \<and> firstErr = None then ans (CallFlush h) else firstErr)
      in scopeCloseLoop ans i hs firstErr (invoke (CallDropMemo h i) (invoke (CallFlush h) w)))"

definition Scope_Close :: "answers \<Rightarrow> addr \<Rightarrow> rt \<Rightarrow> rt_error option \<times> rt" where
  "Scope_Close ans a w =
     (let s = rt_scopes w ! a in
      if so_state s = ScopeStateClosed then (None, w)
      else
        (let w = updScope a (\<lambda>s. s\<lparr>so_state := ScopeStateClosed, so_ops := []\<rparr>) w;
             (firstErr, w) = scopeCloseLoop ans (so_id s) (so_ops s) None w;
             w = updEngine (\<lambda>e. e\<lparr>en_activeScopes := en_activeScopes e - 1\<rparr>) w
         in (firstErr, updEngine (engineEmit EventScopeClosed [] [] (ScopeID_String (so_id s))) w)))"

definition ContextWithScope :: "Ctx \<Rightarrow> addr \<Rightarrow> Ctx" where
  "ContextWithScope ctx a = ctx\<lparr>cx_scope := Some a\<rparr>"

definition ScopeFromContext :: "Ctx \<Rightarrow> addr option" where
  "ScopeFromContext ctx = cx_scope ctx"

definition RequireScope :: "Ctx \<Rightarrow> rt_error + addr" where
  "RequireScope ctx = (case ScopeFromContext ctx of Some a \<Rightarrow> Inr a | None \<Rightarrow> Inl ErrScopeRequired)"

definition openScope :: "Ctx \<Rightarrow> rt \<Rightarrow> (Ctx \<times> addr) \<times> rt" where
  "openScope parent w =
     (let a = length (rt_scopes w);
          w = updEngine (\<lambda>e. e\<lparr>en_scopeSeq := en_scopeSeq e + 1\<rparr>) w;
          s = \<lparr>so_id = en_scopeSeq (rt_engine w), so_state = ScopeStateOpen, so_ops = []\<rparr>;
          w = w\<lparr>rt_scopes := rt_scopes w @ [s]\<rparr>;
          w = updEngine (\<lambda>e. e\<lparr>en_activeScopes := en_activeScopes e + 1\<rparr>) w;
          w = updEngine (engineEmit EventScopeOpened [] [] (ScopeID_String (so_id s))) w
      in ((ContextWithScope parent a, a), w))"

definition NewScope :: "NestedPolicy \<Rightarrow> Ctx \<Rightarrow> rt \<Rightarrow> (rt_error + Ctx \<times> addr) \<times> rt" where
  "NewScope nested parent w =
     (case acceptingSubmissions (rt_engine w) of
        Some e \<Rightarrow> (Inl e, w)
      | None \<Rightarrow>
          (case (ScopeFromContext parent, nested) of
             (Some existing, NestedReuseParent) \<Rightarrow> (Inr (parent, existing), w)
           | (Some existing, NestedRejectNested) \<Rightarrow> (Inl ErrNestedScope, w)
           | _ \<Rightarrow> (let (r, w) = openScope parent w in (Inr r, w))))"

definition Run ::
  "answers \<Rightarrow> NestedPolicy \<Rightarrow> Ctx \<Rightarrow> (Ctx \<Rightarrow> rt \<Rightarrow> (rt_error + 't) \<times> rt) \<Rightarrow> rt \<Rightarrow> (rt_error + 't) \<times> rt" where
  "Run ans nested parent fn w =
     (case NewScope nested parent w of
        (Inl e, w) \<Rightarrow> (Inl e, w)
      | (Inr (ctx, scope), w) \<Rightarrow>
          (let (r, w) = fn ctx w in (r, snd (Scope_Close ans scope w))))"

section \<open>Closing the engine\<close>

text \<open>
  \<open>closeBegin\<close> and \<open>closeEnd\<close> are the two critical sections; \<open>closeBegin\<close> gives \<open>None\<close> where Close
  returns at once. The final select either sees the coordinators gone (\<open>None\<close>) or the
  context's error.
\<close>

definition closeBegin :: "Engine \<Rightarrow> Engine option" where
  "closeBegin e =
     (if en_state e = EngineStateClosed then None
      else Some (if en_state e = EngineStateOpen then e\<lparr>en_state := EngineStateClosing\<rparr> else e))"

definition closeEnd :: "Engine \<Rightarrow> Engine" where
  "closeEnd e = emitEngineClosed (e\<lparr>en_state := EngineStateClosed\<rparr>)"

fun closeLoop :: "answers \<Rightarrow> nat list \<Rightarrow> rt_error option \<Rightarrow> rt \<Rightarrow> rt_error option \<times> rt" where
  "closeLoop ans [] closeErr w = (closeErr, w)"
| "closeLoop ans (h # hs) closeErr w =
     closeLoop ans hs (if ans (CallClose h) \<noteq> None \<and> closeErr = None then ans (CallClose h) else closeErr)
       (invoke (CallClose h) w)"

definition Engine_Close :: "answers \<Rightarrow> rt_error option \<Rightarrow> rt \<Rightarrow> rt_error option \<times> rt" where
  "Engine_Close ans wait w =
     (case closeBegin (rt_engine w) of
        None \<Rightarrow> (None, w)
      | Some e \<Rightarrow>
          (let w = w\<lparr>rt_engine := emitEngineClosing e\<rparr>;
               (closeErr, w) = closeLoop ans (controllersSnapshot (rt_engine w)) None w;
               w = updEngine (\<lambda>e. e\<lparr>en_cancelled := True\<rparr>) w;
               closeErr = (case wait of
                   None \<Rightarrow> closeErr
                 | Some err \<Rightarrow> if closeErr = None then Some (ErrDrainTimeout err) else closeErr)
           in (closeErr, updEngine closeEnd w)))"

section \<open>Every interleaving\<close>

text \<open>
  Threads that run Close are at one of three points: past the first critical section,
  working through their snapshot of the controllers (those called, those left), or
  past the second critical section. Between any two steps of a thread the others may bind
  operations, open, use and close scopes, and run Close themselves.
\<close>

datatype closer = Begun | Draining "nat list" "nat list" | Ended "nat list"

inductive rt_step :: "answers \<Rightarrow> rt \<times> closer list \<Rightarrow> rt \<times> closer list \<Rightarrow> bool" for ans where
  register: "registerController i h (rt_engine w) = Inr e \<Longrightarrow> rt_step ans (w, ts) (w\<lparr>rt_engine := e\<rparr>, ts)"
| begin_close: "closeBegin (rt_engine w) = Some e \<Longrightarrow>
    rt_step ans (w, ts) (w\<lparr>rt_engine := emitEngineClosing e\<rparr>, ts @ [Begun])"
| snapshot: "j < length ts \<Longrightarrow> ts ! j = Begun \<Longrightarrow>
    rt_step ans (w, ts) (w, ts[j := Draining [] (controllersSnapshot (rt_engine w))])"
| call: "j < length ts \<Longrightarrow> ts ! j = Draining done (h # left) \<Longrightarrow>
    rt_step ans (w, ts) (invoke (CallClose h) w, ts[j := Draining (done @ [h]) left])"
| finish: "j < length ts \<Longrightarrow> ts ! j = Draining done [] \<Longrightarrow>
    rt_step ans (w, ts) (updEngine closeEnd (updEngine (\<lambda>e. e\<lparr>en_cancelled := True\<rparr>) w), ts[j := Ended done])"
| new_scope: "rt_step ans (w, ts) (snd (NewScope nested ctx w), ts)"
| track: "a < length (rt_scopes w) \<Longrightarrow> rt_step ans (w, ts) (trackOp a h w, ts)"
| close_scope: "a < length (rt_scopes w) \<Longrightarrow> rt_step ans (w, ts) (snd (Scope_Close ans a w), ts)"
| flush: "rt_step ans (w, ts) (snd (callUntilError ans ks w), ts)"

subsection \<open>What an engine option can change\<close>

definition fresh_engine :: "Engine \<Rightarrow> bool" where
  "fresh_engine e \<longleftrightarrow> en_state e = EngineStateOpen \<and> en_ops e = [] \<and> en_scopeSeq e = 0 \<and> en_activeScopes e = 0"

text \<open>
  An option is any function from engines to engines in Go; those the package exports, the only ones
  that can reach the unexported fields, leave the lifecycle fields alone.
\<close>

inductive engine_option :: "EngineOption \<Rightarrow> bool" where
  "engine_option (WithClock c)"
| "engine_option (WithDefaultQueueLimits l)"
| "engine_option (WithDefaultOverflowPolicy p)"
| "engine_option (WithPanicPolicy q)"
| "engine_option (WithHooks b)"
| "engine_option (WithStatistics b)"

inductive rt_reach :: "answers \<Rightarrow> rt \<Rightarrow> closer list \<Rightarrow> bool" for ans where
  start: "list_all engine_option opts \<Longrightarrow> NewEngine clk seq opts = Inr (e, i) \<Longrightarrow>
    rt_reach ans \<lparr>rt_engine = e, rt_scopes = [], rt_calls = []\<rparr> []"
| step: "rt_reach ans w ts \<Longrightarrow> rt_step ans (w, ts) (w', ts') \<Longrightarrow> rt_reach ans w' ts'"


lemma engine_option_fresh: "engine_option opt \<Longrightarrow> opt e = Inr e' \<Longrightarrow> fresh_engine e \<Longrightarrow> fresh_engine e'"
  by (auto elim!: engine_option.cases simp: fresh_engine_def WithClock_def WithDefaultQueueLimits_def
      WithDefaultOverflowPolicy_def WithPanicPolicy_def WithHooks_def WithStatistics_def split: if_splits)

lemma applyOptions_fresh:
  "list_all engine_option opts \<Longrightarrow> applyOptions opts e = Inr e' \<Longrightarrow> fresh_engine e \<Longrightarrow> fresh_engine e'"
  by (induction opts arbitrary: e) (auto split: sum.splits dest: engine_option_fresh)

lemma NewEngine_fresh:
  "list_all engine_option opts \<Longrightarrow> NewEngine clk seq opts = Inr (e, i) \<Longrightarrow> fresh_engine e"
  using applyOptions_fresh [of opts "defaultEngine clk"]
  by (auto simp: NewEngine_def Let_def fresh_engine_def defaultEngine_def split: sum.splits if_splits)

subsection \<open>Invariants\<close>

definition closer_ok :: "Engine \<Rightarrow> closer \<Rightarrow> bool" where
  "closer_ok e t \<longleftrightarrow> en_state e \<noteq> EngineStateOpen \<and>
     (case t of
        Begun \<Rightarrow> True
      | Draining done left \<Rightarrow> done @ left = controllersSnapshot e
      | Ended done \<Rightarrow> done = controllersSnapshot e \<and> en_state e = EngineStateClosed)"

definition scopes_ok :: "rt \<Rightarrow> bool" where
  "scopes_ok w \<longleftrightarrow>
     en_scopeSeq (rt_engine w) = of_nat (length (rt_scopes w)) \<and>
     map so_id (rt_scopes w) = map (\<lambda>a. of_nat (Suc a)) [0..<length (rt_scopes w)] \<and>
     en_activeScopes (rt_engine w) = int (length (filter (\<lambda>s. so_state s = ScopeStateOpen) (rt_scopes w)))"

definition rt_ok :: "rt \<Rightarrow> closer list \<Rightarrow> bool" where
  "rt_ok w ts \<longleftrightarrow> list_all (closer_ok (rt_engine w)) ts \<and> scopes_ok w"

text \<open>What the registry and the lifecycle look like from outside; most steps keep it.\<close>

definition same_registry :: "Engine \<Rightarrow> Engine \<Rightarrow> bool" where
  "same_registry e e' \<longleftrightarrow> en_state e' = en_state e \<and> en_ops e' = en_ops e"

lemma closer_ok_same: "same_registry e e' \<Longrightarrow> closer_ok e t \<Longrightarrow> closer_ok e' t"
  by (auto simp: same_registry_def closer_ok_def controllersSnapshot_def split: closer.splits)

lemma engineEmit_frame [simp]:
  "en_state (engineEmit k i p s e) = en_state e" "en_ops (engineEmit k i p s e) = en_ops e"
  "en_scopeSeq (engineEmit k i p s e) = en_scopeSeq e" "en_activeScopes (engineEmit k i p s e) = en_activeScopes e"
  by (simp_all add: engineEmit_def)

lemma upd_frame [simp]:
  "rt_scopes (updEngine f w) = rt_scopes w" "rt_engine (updEngine f w) = f (rt_engine w)"
  "rt_engine (updScope a g w) = rt_engine w"
  "rt_scopes (updScope a g w) = (rt_scopes w)[a := g (rt_scopes w ! a)]"
  "rt_engine (invoke k w) = rt_engine w" "rt_scopes (invoke k w) = rt_scopes w"
  by (simp_all add: updEngine_def updScope_def invoke_def)

lemma callUntilError_frame [simp]:
  "rt_engine (snd (callUntilError ans ks w)) = rt_engine w" "rt_scopes (snd (callUntilError ans ks w)) = rt_scopes w"
  by (induction ks arbitrary: w) (simp_all split: option.split)

lemma scopeCloseLoop_frame [simp]:
  "rt_engine (snd (scopeCloseLoop ans i hs fe w)) = rt_engine w"
  "rt_scopes (snd (scopeCloseLoop ans i hs fe w)) = rt_scopes w"
  by (induction hs arbitrary: fe w) (simp_all add: Let_def)

lemma Scope_Close_effect:
  "rt_scopes (snd (Scope_Close ans a w)) =
     (if so_state (rt_scopes w ! a) = ScopeStateClosed then rt_scopes w
      else (rt_scopes w)[a := (rt_scopes w ! a)\<lparr>so_state := ScopeStateClosed, so_ops := []\<rparr>])"
  "en_activeScopes (rt_engine (snd (Scope_Close ans a w))) = en_activeScopes (rt_engine w) -
     (if so_state (rt_scopes w ! a) = ScopeStateClosed then 0 else 1)"
  "same_registry (rt_engine w) (rt_engine (snd (Scope_Close ans a w)))"
  "en_scopeSeq (rt_engine (snd (Scope_Close ans a w))) = en_scopeSeq (rt_engine w)"
  by (simp_all add: Scope_Close_def Let_def same_registry_def split: prod.split)
    (metis scopeCloseLoop_frame snd_conv upd_frame)+

lemma NewScope_registry: "same_registry (rt_engine w) (rt_engine (snd (NewScope nested ctx w)))"
  by (auto simp: NewScope_def openScope_def Let_def same_registry_def split: option.split NestedPolicy.split)

lemma open_count_update:
  "a < length ss \<Longrightarrow> int (length (filter P (ss[a := s]))) =
     int (length (filter P ss)) - (if P (ss ! a) then 1 else 0) + (if P s then 1 else 0)"
proof (induction ss arbitrary: a)
  case (Cons x ss)
  show ?case
  proof (cases a)
    case (Suc n)
    with Cons.prems Cons.IH [of n] show ?thesis by (simp split: if_split_asm)
  qed simp
qed simp

lemma scopes_ok_update:
  assumes "scopes_ok w" "a < length (rt_scopes w)" "so_id (f (rt_scopes w ! a)) = so_id (rt_scopes w ! a)"
    "rt_scopes w' = (rt_scopes w)[a := f (rt_scopes w ! a)]" "en_scopeSeq (rt_engine w') = en_scopeSeq (rt_engine w)"
    "en_activeScopes (rt_engine w') = en_activeScopes (rt_engine w) -
       (if so_state (rt_scopes w ! a) = ScopeStateOpen then 1 else 0) +
       (if so_state (f (rt_scopes w ! a)) = ScopeStateOpen then 1 else 0)"
  shows "scopes_ok w'"
proof -
  have "map so_id ((rt_scopes w)[a := f (rt_scopes w ! a)]) = map so_id (rt_scopes w)"
    using assms(2,3) by (metis list_update_id map_update nth_map)
  then show ?thesis
    using assms by (simp add: scopes_ok_def open_count_update)
qed

lemma openScope_effect:
  "rt_scopes (snd (openScope ctx w)) = rt_scopes w @
     [\<lparr>so_id = en_scopeSeq (rt_engine w) + 1, so_state = ScopeStateOpen, so_ops = []\<rparr>]"
  "en_scopeSeq (rt_engine (snd (openScope ctx w))) = en_scopeSeq (rt_engine w) + 1"
  "en_activeScopes (rt_engine (snd (openScope ctx w))) = en_activeScopes (rt_engine w) + 1"
  "fst (openScope ctx w) = (ContextWithScope ctx (length (rt_scopes w)), length (rt_scopes w))"
  by (simp_all add: openScope_def Let_def)

lemma NewScope_cases:
  obtains (err) e where "NewScope nested ctx w = (Inl e, w)"
  | (reuse) a where "NewScope nested ctx w = (Inr (ctx, a), w)" "nested = NestedReuseParent" "cx_scope ctx = Some a"
  | (fresh) "NewScope nested ctx w = (Inr (fst (openScope ctx w)), snd (openScope ctx w))"
  by (cases "acceptingSubmissions (rt_engine w)"; cases "cx_scope ctx"; cases nested)
    (simp_all add: NewScope_def ScopeFromContext_def split_beta)

lemma scopes_ok_NewScope:
  assumes "scopes_ok w" shows "scopes_ok (snd (NewScope nested ctx w))"
proof (cases rule: NewScope_cases [of nested ctx w])
  case fresh
  then show ?thesis
    using assms by (simp add: scopes_ok_def openScope_effect add.commute)
qed (use assms in simp_all)

lemma scopes_ok_Close:
  assumes "scopes_ok w" "a < length (rt_scopes w)"
  shows "scopes_ok (snd (Scope_Close ans a w))"
proof (cases "so_state (rt_scopes w ! a)")
  case ScopeStateOpen
  then show ?thesis
    using scopes_ok_update [OF assms, of "\<lambda>s. s\<lparr>so_state := ScopeStateClosed, so_ops := []\<rparr>"]
    by (simp add: Scope_Close_effect)
next
  case ScopeStateClosed
  then show ?thesis using assms by (simp add: Scope_Close_def Let_def)
qed

lemma rt_ok_same:
  "rt_ok w ts \<Longrightarrow> same_registry (rt_engine w) (rt_engine w') \<Longrightarrow> scopes_ok w' \<Longrightarrow> rt_ok w' ts"
  by (auto simp: rt_ok_def list_all_iff intro: closer_ok_same)

lemma list_all_update: "list_all P xs \<Longrightarrow> P x \<Longrightarrow> list_all P (xs[j := x])"
  by (auto simp: list_all_iff dest: set_update_subset_insert [THEN subsetD])

lemma rt_step_ok: "rt_step ans x y \<Longrightarrow> rt_ok (fst x) (snd x) \<Longrightarrow> rt_ok (fst y) (snd y)"
proof (induction rule: rt_step.induct)
  case (register i h w e ts)
  then have "en_state (rt_engine w) = EngineStateOpen" and e: "e = (rt_engine w)\<lparr>en_ops := AList.update i h (en_ops (rt_engine w))\<rparr>"
    by (auto simp: registerController_def split: if_splits)
  then have "ts = []"
    using register.prems by (cases ts) (auto simp: rt_ok_def closer_ok_def)
  then show ?case
    using register by (simp add: rt_ok_def scopes_ok_def e)
next
  case (begin_close w e ts)
  have e: "en_state e \<noteq> EngineStateOpen" "en_ops e = en_ops (rt_engine w)" "en_scopeSeq e = en_scopeSeq (rt_engine w)"
    "en_activeScopes e = en_activeScopes (rt_engine w)" "en_state (rt_engine w) \<noteq> EngineStateOpen \<Longrightarrow> e = rt_engine w"
    using begin_close.hyps by (auto simp: closeBegin_def split: if_splits)
  have "list_all (closer_ok e) ts"
    using begin_close.prems e(5) by (cases ts) (auto simp: rt_ok_def closer_ok_def)
  moreover have "same_registry e (emitEngineClosing e)"
    by (simp add: same_registry_def emitEngineClosing_def)
  ultimately show ?case
    using begin_close e by (auto simp: rt_ok_def scopes_ok_def emitEngineClosing_def list_all_iff
        closer_ok_def [of _ Begun] intro: closer_ok_same)
next
  case (snapshot j ts w)
  then have "closer_ok (rt_engine w) Begun"
    by (auto simp: rt_ok_def list_all_length)
  then show ?case
    using snapshot by (auto simp: rt_ok_def closer_ok_def intro!: list_all_update)
next
  case (call j ts d h left w)
  then have "closer_ok (rt_engine w) (Draining d (h # left))"
    by (auto simp: rt_ok_def list_all_length)
  then show ?case
    using call by (auto simp: rt_ok_def scopes_ok_def closer_ok_def intro!: list_all_update)
next
  case (finish j ts d w)
  let ?e = "closeEnd ((rt_engine w)\<lparr>en_cancelled := True\<rparr>)"
  have e: "en_state ?e = EngineStateClosed" "en_ops ?e = en_ops (rt_engine w)" "en_scopeSeq ?e = en_scopeSeq (rt_engine w)"
    "en_activeScopes ?e = en_activeScopes (rt_engine w)"
    by (simp_all add: closeEnd_def emitEngineClosed_def)
  have keep: "closer_ok ?e t" if "closer_ok (rt_engine w) t" for t
    using that e(1,2) by (auto simp: closer_ok_def controllersSnapshot_def split: closer.splits)
  have "closer_ok (rt_engine w) (Draining d [])"
    using finish by (auto simp: rt_ok_def list_all_length)
  then have "closer_ok ?e (Ended d)"
    using e(1,2) by (simp add: closer_ok_def controllersSnapshot_def)
  moreover have "list_all (closer_ok ?e) ts"
    using finish.prems keep by (simp add: rt_ok_def list_all_iff)
  ultimately have "list_all (closer_ok ?e) (ts[j := Ended d])"
    by (intro list_all_update)
  then show ?case
    using finish.prems e(3,4) by (simp add: rt_ok_def scopes_ok_def)
next
  case (new_scope w ts nested ctx)
  then show ?case
    using rt_ok_same [OF _ NewScope_registry scopes_ok_NewScope, of w ts] by (simp add: rt_ok_def)
next
  case (track a w ts h)
  then have "scopes_ok (trackOp a h w)"
    using scopes_ok_update [of w a "\<lambda>s. s\<lparr>so_ops := List.insert h (so_ops s)\<rparr>" "trackOp a h w"]
    by (simp add: rt_ok_def trackOp_def)
  then show ?case
    using track rt_ok_same [of w ts "trackOp a h w"] by (simp add: trackOp_def same_registry_def)
next
  case (close_scope a w ts)
  then show ?case
    using rt_ok_same [OF _ Scope_Close_effect(3) scopes_ok_Close, of w ts a ans] by (simp add: rt_ok_def)
next
  case (flush w ts ks)
  then show ?case
    by (simp add: rt_ok_def scopes_ok_def)
qed

lemma rt_reach_ok: "rt_reach ans w ts \<Longrightarrow> rt_ok w ts"
proof (induction rule: rt_reach.induct)
  case (start opts clk seq e i)
  then show ?case
    using NewEngine_fresh by (simp add: rt_ok_def scopes_ok_def fresh_engine_def)
next
  case (step w ts w' ts')
  then show ?case using rt_step_ok [OF step.hyps(2)] by simp
qed

subsection \<open>The calls a closing thread has made\<close>

fun called :: "closer \<Rightarrow> nat list" where
  "called Begun = []"
| "called (Draining d left) = d"
| "called (Ended d) = d"

lemma scopeCloseLoop_calls:
  "rt_calls (snd (scopeCloseLoop ans i hs fe w)) = rt_calls w @ concat (map (\<lambda>h. [CallFlush h, CallDropMemo h i]) hs)"
  by (induction hs arbitrary: fe w) (simp_all add: Let_def invoke_def)

lemma callUntilError_calls: "\<exists>ks'. rt_calls (snd (callUntilError ans ks w)) = rt_calls w @ ks'"
proof (induction ks arbitrary: w)
  case (Cons k ks)
  from Cons.IH [of "invoke k w"] show ?case by (auto simp: invoke_def split: option.split)
qed simp

lemma rt_calls_upd [simp]: "rt_calls (updEngine f w) = rt_calls w" "rt_calls (updScope a g w) = rt_calls w"
  by (simp_all add: updEngine_def updScope_def)

lemma Scope_Close_calls:
  "rt_calls (snd (Scope_Close ans a w)) = rt_calls w @
     (if so_state (rt_scopes w ! a) = ScopeStateClosed then []
      else concat (map (\<lambda>h. [CallFlush h, CallDropMemo h (so_id (rt_scopes w ! a))]) (so_ops (rt_scopes w ! a))))"
  by (simp add: Scope_Close_def Let_def split_beta scopeCloseLoop_calls)

lemma calls_grow: "rt_step ans x y \<Longrightarrow> set (rt_calls (fst x)) \<subseteq> set (rt_calls (fst y))"
proof (induction rule: rt_step.induct)
  case (new_scope w ts nested ctx)
  then show ?case
    by (cases rule: NewScope_cases [of nested ctx w]) (simp_all add: openScope_def Let_def)
next
  case (close_scope a w ts)
  show ?case by (simp add: Scope_Close_calls)
next
  case (flush w ts ks)
  then show ?case using callUntilError_calls [of ans ks w] by auto
qed (simp_all add: invoke_def trackOp_def, blast)

lemma called_step:
  assumes "rt_step ans x y" "\<And>t h. t \<in> set (snd x) \<Longrightarrow> h \<in> set (called t) \<Longrightarrow> CallClose h \<in> set (rt_calls (fst x))"
    and "t \<in> set (snd y)" "h \<in> set (called t)"
  shows "CallClose h \<in> set (rt_calls (fst y))"
proof -
  have old: "CallClose h \<in> set (rt_calls (fst y))" if "u \<in> set (snd x)" "h \<in> set (called u)" for u
    using assms(2) [OF that] calls_grow [OF assms(1)] by blast
  have upd: "t = u \<or> t \<in> set ts" if "t \<in> set (ts[j := u])" for u ts j
    using that set_update_subset_insert [of ts j u] by blast
  from assms(1) show ?thesis
  proof (cases rule: rt_step.cases)
    case (call j ts d k left w)
    from assms(3) consider "t = Draining (d @ [k]) left" | "t \<in> set ts"
      using upd call(2) by auto
    then show ?thesis
      using old [of "ts ! j"] old [of t] assms(4) call nth_mem [of j ts] by cases (auto simp: invoke_def)
  next
    case (finish j ts d w)
    from assms(3) consider "t = Ended d" | "t \<in> set ts"
      using upd finish(2) by auto
    then show ?thesis
      using old [of "ts ! j"] old [of t] assms(4) finish nth_mem [of j ts] by cases auto
  next
    case (snapshot j ts w)
    then show ?thesis using assms(3,4) old [of t] upd by fastforce
  next
    case (begin_close w e ts)
    then show ?thesis using assms(3,4) old [of t] by auto
  qed (use assms(3,4) old [of t] in auto)
qed

lemma rt_reach_called:
  "rt_reach ans w ts \<Longrightarrow> t \<in> set ts \<Longrightarrow> h \<in> set (called t) \<Longrightarrow> CallClose h \<in> set (rt_calls w)"
proof (induction arbitrary: t h rule: rt_reach.induct)
  case (step w ts w' ts')
  then show ?case using called_step [OF step.hyps(2), of t h] by simp
qed simp

interpretation ops_order: weak_order "\<lambda>a b. fst a < fst b" "fst :: string \<times> nat \<Rightarrow> string"
  by unfold_locales auto

subsection \<open>Close as a sequence of steps\<close>

lemma closeLoop_steps:
  "rt_reach ans w (ts @ [Draining d hs]) \<Longrightarrow>
     rt_reach ans (snd (closeLoop ans hs err w)) (ts @ [Draining (d @ hs) []])"
proof (induction hs arbitrary: d err w)
  case (Cons h hs)
  have "rt_reach ans (invoke (CallClose h) w) (ts @ [Draining (d @ [h]) hs])"
    using rt_reach.step [OF Cons.prems rt_step.call [of "length ts"]] by simp
  from Cons.IH [OF this] show ?case by simp
qed simp

lemma Engine_Close_steps:
  assumes "rt_reach ans w ts" "closeBegin (rt_engine w) = Some e"
  shows "rt_reach ans (snd (Engine_Close ans wait w)) (ts @ [Ended (controllersSnapshot (emitEngineClosing e))])"
proof -
  let ?w = "w\<lparr>rt_engine := emitEngineClosing e\<rparr>" and ?hs = "controllersSnapshot (emitEngineClosing e)"
  have b: "rt_reach ans ?w (ts @ [Begun])"
    using rt_reach.step [OF assms(1) rt_step.begin_close [OF assms(2)]] .
  have "rt_reach ans ?w (ts @ [Draining [] ?hs])"
    using rt_reach.step [OF b rt_step.snapshot [of "length ts"]] by simp
  then have "rt_reach ans (snd (closeLoop ans ?hs None ?w)) (ts @ [Draining ([] @ ?hs) []])"
    by (rule closeLoop_steps)
  from rt_reach.step [OF this rt_step.finish [of "length ts"]] show ?thesis
    using assms(2) by (simp add: Engine_Close_def Let_def split_beta)
qed

text \<open>C16: Close misses no operation. Whatever threads do in between, once a call of Close has passed its
  last critical section the engine is closed; that call has asked every bound operation to
  close, in identifier order; no operation can be bound and no scope opened any more; and a
  further Close returns at once without an error.\<close>

theorem close_misses_nobody:
  assumes "rt_reach ans w ts" "Ended called_ops \<in> set ts"
  shows "en_state (rt_engine w) = EngineStateClosed \<and>
    called_ops = controllersSnapshot (rt_engine w) \<and> set called_ops = snd ` set (en_ops (rt_engine w)) \<and>
    CallClose ` set called_ops \<subseteq> set (rt_calls w) \<and>
    registerController i h (rt_engine w) = Inl ErrEngineClosing \<and>
    fst (NewScope nested ctx w) = Inl ErrEngineClosed \<and> Engine_Close ans wait w = (None, w)"
proof -
  have ok: "closer_ok (rt_engine w) (Ended called_ops)"
    using rt_reach_ok [OF assms(1)] assms(2) by (auto simp: rt_ok_def list_all_iff)
  have "set (stableSort (\<lambda>a b. fst a < fst b) (en_ops (rt_engine w))) = set (en_ops (rt_engine w))"
    by (rule mset_eq_setD, rule ops_order.sort_mset)
  then have "set (controllersSnapshot (rt_engine w)) = snd ` set (en_ops (rt_engine w))"
    by (simp add: controllersSnapshot_def)
  moreover have "CallClose ` set called_ops \<subseteq> set (rt_calls w)"
    using rt_reach_called [OF assms] by auto
  ultimately show ?thesis
    using ok by (simp add: closer_ok_def registerController_def NewScope_def acceptingSubmissions_def
        Engine_Close_def closeBegin_def)
qed


text \<open>Run closes exactly the scope that NewScope gave it. With the isolating policy, or outside any
  scope, that is a new scope and every scope that existed keeps its state; with the reuse
  policy inside a scope it is the parent's scope, which is closed when Run returns.\<close>

theorem run_closes_scope_it_got:
  assumes "acceptingSubmissions (rt_engine w) = None" "\<And>ctx w. rt_scopes (snd (fn ctx w)) = rt_scopes w"
  shows "case ScopeFromContext parent of
      None \<Rightarrow> take (length (rt_scopes w)) (rt_scopes (snd (Run ans nested parent fn w))) = rt_scopes w
    | Some a \<Rightarrow>
        (nested = NestedIsolateChild \<longrightarrow>
          take (length (rt_scopes w)) (rt_scopes (snd (Run ans nested parent fn w))) = rt_scopes w) \<and>
        (nested = NestedRejectNested \<longrightarrow> Run ans nested parent fn w = (Inl ErrNestedScope, w)) \<and>
        (nested = NestedReuseParent \<and> a < length (rt_scopes w) \<longrightarrow>
          checkOpen a (snd (Run ans nested parent fn w)) = Some ErrScopeClosed)"
proof -
  have child: "take (length (rt_scopes w)) (rt_scopes (snd (Run ans nested parent fn w))) = rt_scopes w"
    if "NewScope nested parent w = (Inr (fst (openScope parent w)), snd (openScope parent w))"
    using that assms(2) by (simp add: Run_def Let_def split_beta openScope_effect Scope_Close_effect)
  have reuse: "checkOpen a (snd (Run ans nested parent fn w)) = Some ErrScopeClosed"
    if "NewScope nested parent w = (Inr (parent, a), w)" "a < length (rt_scopes w)" for a
    using that assms(2) by (cases "so_state (rt_scopes w ! a)")
      (simp_all add: Run_def Let_def split_beta Scope_Close_effect checkOpen_def)
  show ?thesis
  proof (cases "cx_scope parent")
    case None
    then show ?thesis
      using child assms(1) by (simp add: NewScope_def ScopeFromContext_def split_beta)
  next
    case (Some a)
    then show ?thesis
      using child reuse assms(1)
      by (cases nested) (simp_all add: NewScope_def ScopeFromContext_def split_beta Run_def)
  qed
qed

section \<open>A run\<close>

definition demoRt :: rt where
  "demoRt = \<lparr>rt_engine = (defaultEngine (\<lambda>n. int n))\<lparr>en_engineID := 1\<rparr>, rt_scopes = [], rt_calls = []\<rparr>"

definition demoCtx :: Ctx where
  "demoCtx = \<lparr>cx_err = None, cx_deadline = None, cx_scope = None, cx_exec = []\<rparr>"

definition demoBound :: rt where
  "demoBound = (case registerController ''b.op'' 7 (rt_engine demoRt) of
     Inr e \<Rightarrow> (case registerController ''a.op'' 8 e of Inr e \<Rightarrow> demoRt\<lparr>rt_engine := e\<rparr> | Inl _ \<Rightarrow> demoRt)
   | Inl _ \<Rightarrow> demoRt)"

lemma demoRt_reach: "rt_reach ans demoRt []"
proof -
  have "NewEngine (\<lambda>n. int n) 0 [] = Inr (rt_engine demoRt, 1)"
    by (simp add: NewEngine_def demoRt_def defaultEngine_def QueueLimits_Validate_def newEngineID_def)
  from rt_reach.start [OF _ this] show ?thesis by (simp add: demoRt_def)
qed

lemma demoBound_reach: "rt_reach ans demoBound []"
proof -
  have "rt_reach ans (demoRt\<lparr>rt_engine := (rt_engine demoRt)\<lparr>en_ops := [(''b.op'', 7)]\<rparr>\<rparr>) []"
    by (rule rt_reach.step [OF demoRt_reach rt_step.register [of "''b.op''" 7]])
      (simp add: registerController_def demoRt_def defaultEngine_def)
  from rt_reach.step [OF this rt_step.register [of "''a.op''" 8]] show ?thesis
    by (simp add: demoBound_def registerController_def demoRt_def defaultEngine_def)
qed

theorem close_misses_nobody_witness:
  "let w = snd (Engine_Close (\<lambda>_. None) None demoBound) in
     en_state (rt_engine w) = EngineStateClosed \<and> [8, 7] = controllersSnapshot (rt_engine w) \<and>
     CallClose ` set [8, 7] \<subseteq> set (rt_calls w) \<and> Engine_Close (\<lambda>_. None) None w = (None, w)"
proof -
  let ?e = "(rt_engine demoBound)\<lparr>en_state := EngineStateClosing\<rparr>"
  have "closeBegin (rt_engine demoBound) = Some ?e"
    by (simp add: closeBegin_def demoBound_def demoRt_def defaultEngine_def registerController_def)
  from Engine_Close_steps [OF demoBound_reach this, of "\<lambda>_. None" None]
  have reach: "rt_reach (\<lambda>_. None) (snd (Engine_Close (\<lambda>_. None) None demoBound)) [Ended (controllersSnapshot (emitEngineClosing ?e))]"
    by simp
  have "controllersSnapshot (emitEngineClosing ?e) = [8, 7]"
    by code_simp
  then have "Ended [8, 7] \<in> set [Ended (controllersSnapshot (emitEngineClosing ?e))]"
    by simp
  from close_misses_nobody [OF reach this, of "[]" 0 NestedIsolateChild demoCtx None] show ?thesis
    unfolding Let_def by blast
qed


theorem run_closes_scope_it_got_witness:
  "let w = snd (NewScope NestedIsolateChild demoCtx demoBound); ctx = ContextWithScope demoCtx 0;
       fn = \<lambda>ctx w. (Inr (0 :: nat), w) in
     checkOpen 0 w = None \<and>
     checkOpen 0 (snd (Run (\<lambda>_. None) NestedReuseParent ctx fn w)) = Some ErrScopeClosed"
proof -
  let ?w = "snd (NewScope NestedIsolateChild demoCtx demoBound)"
  let ?fn = "\<lambda>(ctx :: Ctx) (w :: rt). (Inr 0 :: rt_error + nat, w)"
  have w: "acceptingSubmissions (rt_engine ?w) = None" "0 < length (rt_scopes ?w)" "checkOpen 0 ?w = None"
    by code_simp+
  show ?thesis
    using run_closes_scope_it_got [where w = ?w and fn = ?fn and parent = "ContextWithScope demoCtx 0"
      and nested = NestedReuseParent and ans = "\<lambda>_. None"] w
    by (simp add: Let_def ScopeFromContext_def ContextWithScope_def)
qed

end
