(* ===== verification/Memo_Table.thy ===== *)
theory Memo_Table
  imports Runtime_Keys
begin

unbundle bit_operations_syntax

text \<open>
  The scope-local memoisation table (runtime/memo.go). Records are shared between the hash
  index and the insertion-order list, so they live in a store addressed by pointers:
  \<open>m_recs\<close> is the store, \<open>m_order\<close> and the buckets of \<open>m_byHash\<close> hold addresses, and Go's
  pointer comparison is equality of addresses. The mutex makes each method one atomic
  step. A bounded first-in first-out list of records is the abstract specification; \<open>memo_abs\<close>
  maps a table to it and every operation is shown to refine it.
\<close>

record ('k, 'v) memoRecord =
  r_part :: string
  r_key :: 'k
  r_value :: "'v option"
  r_found :: bool
  r_bytes :: int

record ('k, 'v) memoTable =
  m_byHash :: "(u64, addr list) gomap"
  m_order :: "addr list"
  m_bytes :: int
  m_recs :: "addr \<Rightarrow> ('k, 'v) memoRecord"
  m_next :: addr

record memoConfig =
  memoMaxItems :: int
  memoMaxBytes :: int

definition hashOf :: "'k KeyStrategy \<Rightarrow> Partition \<Rightarrow> 'k \<Rightarrow> u64" where
  "hashOf ks part key = phash part XOR Hash ks key"

definition memoMatch :: "'k KeyStrategy \<Rightarrow> string \<Rightarrow> 'k \<Rightarrow> ('k, 'v) memoRecord \<Rightarrow> bool" where
  "memoMatch ks enc key r \<longleftrightarrow> r_part r = enc \<and> Equal ks (r_key r) key"

fun memoScan ::
  "'k KeyStrategy \<Rightarrow> string \<Rightarrow> 'k \<Rightarrow> (addr \<Rightarrow> ('k, 'v) memoRecord) \<Rightarrow> addr list \<Rightarrow>
   ('k, 'v) memoRecord option" where
  "memoScan ks enc key recs [] = None"
| "memoScan ks enc key recs (a # as) =
     (if memoMatch ks enc key (recs a) then Some (recs a) else memoScan ks enc key recs as)"

definition memo_get ::
  "'k KeyStrategy \<Rightarrow> ('k, 'v) memoTable \<Rightarrow> Partition \<Rightarrow> 'k \<Rightarrow> ('v option \<times> bool) option" where
  "memo_get ks t part key =
     map_option (\<lambda>r. (r_value r, r_found r))
       (memoScan ks (encoded part) key (m_recs t) (goget (m_byHash t) (hashOf ks part key)))"

definition partitionEncodedHash :: "(string \<Rightarrow> u64) \<Rightarrow> string \<Rightarrow> u64" where
  "partitionEncodedHash mh enc = phash (newPartition mh enc)"

definition bucketKeyFor :: "(string \<Rightarrow> u64) \<Rightarrow> 'k KeyStrategy \<Rightarrow> ('k, 'v) memoRecord \<Rightarrow> u64" where
  "bucketKeyFor mh ks r = partitionEncodedHash mh (r_part r) XOR Hash ks (r_key r)"

definition evictOldest ::
  "(string \<Rightarrow> u64) \<Rightarrow> 'k KeyStrategy \<Rightarrow> ('k, 'v) memoTable \<Rightarrow> ('k, 'v) memoTable" where
  "evictOldest mh ks t =
     (case m_order t of
        [] \<Rightarrow> t
      | old # rest \<Rightarrow>
          (let bk = bucketKeyFor mh ks (m_recs t old);
               bucket = remove1 old (goget (m_byHash t) bk)
           in t\<lparr>m_order := rest,
                m_bytes := m_bytes t - r_bytes (m_recs t old),
                m_byHash := (if bucket = [] then AList.delete bk (m_byHash t)
                             else AList.update bk bucket (m_byHash t))\<rparr>))"

definition memoOver :: "memoConfig \<Rightarrow> ('k, 'v) memoTable \<Rightarrow> bool" where
  "memoOver cfg t \<longleftrightarrow>
     int (length (m_order t)) > memoMaxItems cfg \<or>
     (memoMaxBytes cfg > 0 \<and> m_bytes t > memoMaxBytes cfg)"

function memoEvictLoop ::
  "(string \<Rightarrow> u64) \<Rightarrow> 'k KeyStrategy \<Rightarrow> memoConfig \<Rightarrow> ('k, 'v) memoTable \<Rightarrow> ('k, 'v) memoTable" where
  "memoEvictLoop mh ks cfg t =
     (if memoOver cfg t then
        (if m_order t = [] then t else memoEvictLoop mh ks cfg (evictOldest mh ks t))
      else t)"
  by pat_completeness auto
termination
  by (relation "measure (\<lambda>(mh, ks, cfg, t). length (m_order t))")
    (auto simp: evictOldest_def Let_def split: list.splits)

declare memoEvictLoop.simps [simp del]

definition memo_insert ::
  "'k KeyStrategy \<Rightarrow> ('k, 'v) memoTable \<Rightarrow> Partition \<Rightarrow> 'k \<Rightarrow> 'v option \<Rightarrow> bool \<Rightarrow> ('k, 'v) memoTable" where
  "memo_insert ks t part key v found =
     (let h = hashOf ks part key; a = m_next t;
          rec = \<lparr>r_part = encoded part, r_key = key, r_value = v, r_found = found,
                 r_bytes = EstimateBytes ks key\<rparr>
      in t\<lparr>m_recs := (m_recs t)(a := rec),
           m_next := Suc a,
           m_byHash := AList.update h (goget (m_byHash t) h @ [a]) (m_byHash t),
           m_order := m_order t @ [a],
           m_bytes := m_bytes t + r_bytes rec\<rparr>)"

definition memo_put ::
  "(string \<Rightarrow> u64) \<Rightarrow> 'k KeyStrategy \<Rightarrow> memoConfig \<Rightarrow> ('k, 'v) memoTable \<Rightarrow> Partition \<Rightarrow> 'k \<Rightarrow>
   'v option \<Rightarrow> bool \<Rightarrow> ('k, 'v) memoTable" where
  "memo_put mh ks cfg t part key v found =
     (if memoScan ks (encoded part) key (m_recs t) (goget (m_byHash t) (hashOf ks part key)) \<noteq> None
      then t
      else memoEvictLoop mh ks cfg (memo_insert ks t part key v found))"

definition memo_empty :: "('k, 'v) memoTable" where
  "memo_empty = \<lparr>m_byHash = [], m_order = [], m_bytes = 0, m_recs = (\<lambda>_. undefined), m_next = 0\<rparr>"

section \<open>Abstract specification: a bounded FIFO list of records\<close>

definition memo_abs :: "('k, 'v) memoTable \<Rightarrow> ('k, 'v) memoRecord list" where
  "memo_abs t = map (m_recs t) (m_order t)"

definition spec_get ::
  "'k KeyStrategy \<Rightarrow> ('k, 'v) memoRecord list \<Rightarrow> Partition \<Rightarrow> 'k \<Rightarrow> ('v option \<times> bool) option" where
  "spec_get ks rs part key =
     map_option (\<lambda>r. (r_value r, r_found r)) (List.find (memoMatch ks (encoded part) key) rs)"

fun spec_trim :: "memoConfig \<Rightarrow> ('k, 'v) memoRecord list \<Rightarrow> ('k, 'v) memoRecord list" where
  "spec_trim cfg [] = []"
| "spec_trim cfg (r # rs) =
     (if int (length (r # rs)) > memoMaxItems cfg \<or>
         (memoMaxBytes cfg > 0 \<and> (\<Sum>x\<leftarrow>r # rs. r_bytes x) > memoMaxBytes cfg)
      then spec_trim cfg rs else r # rs)"

definition spec_put ::
  "'k KeyStrategy \<Rightarrow> memoConfig \<Rightarrow> ('k, 'v) memoRecord list \<Rightarrow> Partition \<Rightarrow> 'k \<Rightarrow> 'v option \<Rightarrow> bool \<Rightarrow>
   ('k, 'v) memoRecord list" where
  "spec_put ks cfg rs part key v found =
     (if \<exists>r\<in>set rs. memoMatch ks (encoded part) key r then rs
      else spec_trim cfg (rs @ [\<lparr>r_part = encoded part, r_key = key, r_value = v,
             r_found = found, r_bytes = EstimateBytes ks key\<rparr>]))"

section \<open>Representation invariant\<close>

definition memo_inv :: "(string \<Rightarrow> u64) \<Rightarrow> 'k KeyStrategy \<Rightarrow> ('k, 'v) memoTable \<Rightarrow> bool" where
  "memo_inv mh ks t \<longleftrightarrow>
     distinct (m_order t) \<and> (\<forall>a\<in>set (m_order t). a < m_next t) \<and>
     m_bytes t = (\<Sum>x\<leftarrow>memo_abs t. r_bytes x) \<and>
     (\<forall>h. goget (m_byHash t) h = filter (\<lambda>a. bucketKeyFor mh ks (m_recs t a) = h) (m_order t))"

lemma memo_invD:
  assumes "memo_inv mh ks t"
  shows "distinct (m_order t)" "a \<in> set (m_order t) \<Longrightarrow> a < m_next t"
    "m_bytes t = (\<Sum>x\<leftarrow>memo_abs t. r_bytes x)"
    "goget (m_byHash t) h = filter (\<lambda>a. bucketKeyFor mh ks (m_recs t a) = h) (m_order t)"
  using assms by (auto simp: memo_inv_def)

lemma memo_inv_empty: "memo_inv mh ks memo_empty"
  by (simp add: memo_inv_def memo_empty_def memo_abs_def goget_def)

lemma memo_abs_empty [simp]: "memo_abs memo_empty = []"
  by (simp add: memo_abs_def memo_empty_def)

lemma goget_delete [simp]: "goget (AList.delete k m) k' = (if k' = k then [] else goget m k')"
  by (simp add: goget_def)

lemma remove1_filter_hd:
  "distinct (a # as) \<Longrightarrow> remove1 a (filter P (a # as)) = filter P as"
  by (auto simp: remove1_idem)

lemma evictOldest_refines:
  assumes "memo_inv mh ks t" and "m_order t = a # as"
  shows "memo_inv mh ks (evictOldest mh ks t)" and "memo_abs (evictOldest mh ks t) = tl (memo_abs t)"
proof -
  have b: "goget (m_byHash t) h = filter (\<lambda>a. bucketKeyFor mh ks (m_recs t a) = h) (a # as)" for h
    using memo_invD(4) [OF assms(1)] assms(2) by simp
  have d: "distinct (a # as)" using memo_invD(1) [OF assms(1)] assms(2) by simp
  show abs: "memo_abs (evictOldest mh ks t) = tl (memo_abs t)"
    using assms(2) by (simp add: evictOldest_def memo_abs_def Let_def)
  have "goget (m_byHash (evictOldest mh ks t)) h =
      filter (\<lambda>a. bucketKeyFor mh ks (m_recs t a) = h) as" for h
    using assms(2) d by (simp add: evictOldest_def Let_def b)
  then show "memo_inv mh ks (evictOldest mh ks t)"
    using assms abs by (auto simp: memo_inv_def evictOldest_def Let_def memo_abs_def)
qed

lemma evictLoop_refines:
  "memo_inv mh ks t \<Longrightarrow>
     memo_inv mh ks (memoEvictLoop mh ks cfg t) \<and>
     memo_abs (memoEvictLoop mh ks cfg t) = spec_trim cfg (memo_abs t)"
proof (induction mh ks cfg t rule: memoEvictLoop.induct)
  case (1 mh ks cfg t)
  show ?case
  proof (cases "m_order t")
    case Nil
    then show ?thesis
      using "1.prems" by (simp add: memoEvictLoop.simps [of mh ks cfg t] memo_abs_def)
  next
    case (Cons a as)
    have over: "memoOver cfg t \<longleftrightarrow> int (length (memo_abs t)) > memoMaxItems cfg \<or>
        (memoMaxBytes cfg > 0 \<and> (\<Sum>x\<leftarrow>memo_abs t. r_bytes x) > memoMaxBytes cfg)"
      using memo_invD(3) [OF "1.prems"] by (simp add: memoOver_def memo_abs_def)
    have abs: "memo_abs t = m_recs t a # tl (memo_abs t)"
      using Cons by (simp add: memo_abs_def)
    note ev = evictOldest_refines [OF "1.prems" Cons]
    show ?thesis
    proof (cases "memoOver cfg t")
      case True
      then have "spec_trim cfg (memo_abs t) = spec_trim cfg (tl (memo_abs t))"
        using over abs by (metis spec_trim.simps(2))
      then show ?thesis
        using "1.IH" [OF True] ev Cons True by (simp add: memoEvictLoop.simps [of mh ks cfg t])
    next
      case False
      then have "spec_trim cfg (memo_abs t) = memo_abs t"
        using over abs by (metis spec_trim.simps(2))
      then show ?thesis
        using False "1.prems" by (simp add: memoEvictLoop.simps [of mh ks cfg t])
    qed
  qed
qed

lemma memo_insert_refines:
  assumes inv: "memo_inv mh ks t" and part: "wf_partition mh part"
  shows "memo_inv mh ks (memo_insert ks t part key v found)"
    and "memo_abs (memo_insert ks t part key v found) =
      memo_abs t @ [\<lparr>r_part = encoded part, r_key = key, r_value = v, r_found = found,
                     r_bytes = EstimateBytes ks key\<rparr>]"
proof -
  let ?rec = "\<lparr>r_part = encoded part, r_key = key, r_value = v, r_found = found,
               r_bytes = EstimateBytes ks key\<rparr>"
  have fresh: "m_next t \<notin> set (m_order t)"
    using memo_invD(2) [OF inv] by auto
  then have keep: "map ((m_recs t)(m_next t := ?rec)) (m_order t) = map (m_recs t) (m_order t)"
    by simp
  show abs: "memo_abs (memo_insert ks t part key v found) = memo_abs t @ [?rec]"
    using keep by (simp add: memo_insert_def memo_abs_def Let_def)
  have bk: "bucketKeyFor mh ks ?rec = hashOf ks part key"
    using part by (simp add: wf_partition_def bucketKeyFor_def hashOf_def partitionEncodedHash_def newPartition_def)
  have "filter (\<lambda>a. bucketKeyFor mh ks (((m_recs t)(m_next t := ?rec)) a) = h) (m_order t) =
      filter (\<lambda>a. bucketKeyFor mh ks (m_recs t a) = h) (m_order t)" for h
    using fresh by (intro filter_cong) auto
  then have buckets: "goget (m_byHash (memo_insert ks t part key v found)) h =
      filter (\<lambda>a. bucketKeyFor mh ks (m_recs (memo_insert ks t part key v found) a) = h)
        (m_order (memo_insert ks t part key v found))" for h
    using memo_invD(4) [OF inv] bk by (simp add: memo_insert_def Let_def)
  have order: "m_order (memo_insert ks t part key v found) = m_order t @ [m_next t]"
    "m_next (memo_insert ks t part key v found) = Suc (m_next t)"
    "m_bytes (memo_insert ks t part key v found) = m_bytes t + EstimateBytes ks key"
    by (simp_all add: memo_insert_def Let_def)
  show "memo_inv mh ks (memo_insert ks t part key v found)"
    unfolding memo_inv_def
  proof (intro conjI allI buckets)
    show "distinct (m_order (memo_insert ks t part key v found))"
      using memo_invD(1) [OF inv] fresh order by simp
    show "\<forall>a\<in>set (m_order (memo_insert ks t part key v found)).
        a < m_next (memo_insert ks t part key v found)"
      using memo_invD(2) [OF inv] order by (auto intro: less_SucI)
    show "m_bytes (memo_insert ks t part key v found) =
        (\<Sum>x\<leftarrow>memo_abs (memo_insert ks t part key v found). r_bytes x)"
      using memo_invD(3) [OF inv] order abs by simp
  qed
qed

lemma memoScan_find: "memoScan ks enc key recs as = List.find (memoMatch ks enc key) (map recs as)"
  by (induction as) auto

lemma find_map_filter:
  assumes "\<And>a. a \<in> set as \<Longrightarrow> P (f a) \<Longrightarrow> Q a"
  shows "List.find P (map f (filter Q as)) = List.find P (map f as)"
  using assms by (induction as) auto

text \<open>
  The scan of one bucket finds what a scan of the whole table would find: a matching
  record has the same partition and an equal key, hence the same bucket. This is where the
  key strategy's contract is needed.
\<close>

context key_strategy
begin

lemma bucket_scan:
  assumes inv: "memo_inv mh ks t" and part: "wf_partition mh part"
  shows "memoScan ks (encoded part) key (m_recs t) (goget (m_byHash t) (hashOf ks part key)) =
    List.find (memoMatch ks (encoded part) key) (memo_abs t)"
proof -
  have "bucketKeyFor mh ks (m_recs t a) = hashOf ks part key"
    if "memoMatch ks (encoded part) key (m_recs t a)" for a
    using that part equal_hash
    by (auto simp: wf_partition_def memoMatch_def bucketKeyFor_def hashOf_def partitionEncodedHash_def newPartition_def)
  then show ?thesis
    unfolding memoScan_find memo_invD(4) [OF inv] memo_abs_def
    by (intro find_map_filter) blast
qed

lemma get_refines:
  "memo_inv mh ks t \<Longrightarrow> wf_partition mh part \<Longrightarrow>
     memo_get ks t part key = spec_get ks (memo_abs t) part key"
  by (simp add: memo_get_def spec_get_def bucket_scan)

lemma put_refines:
  assumes "memo_inv mh ks t" and "wf_partition mh part"
  shows "memo_inv mh ks (memo_put mh ks cfg t part key v found) \<and>
    memo_abs (memo_put mh ks cfg t part key v found) =
      spec_put ks cfg (memo_abs t) part key v found"
proof -
  have "List.find (memoMatch ks (encoded part) key) (memo_abs t) \<noteq> None \<longleftrightarrow>
      (\<exists>r\<in>set (memo_abs t). memoMatch ks (encoded part) key r)"
    by (auto simp: find_None_iff)
  then show ?thesis
    using assms evictLoop_refines [OF memo_insert_refines(1) [OF assms]]
    by (auto simp: memo_put_def spec_put_def bucket_scan memo_insert_refines(2) [OF assms])
qed

end

section \<open>What the specification promises\<close>

lemma spec_trim_suffix: "\<exists>dropped. rs = dropped @ spec_trim cfg rs"
proof (induction rs)
  case (Cons r rs)
  then obtain d where "rs = d @ spec_trim cfg rs" by auto
  then have "r # rs = (r # d) @ spec_trim cfg rs" by simp
  then show ?case by (metis append_Nil spec_trim.simps(2))
qed simp

lemma spec_trim_bounds:
  "0 \<le> memoMaxItems cfg \<Longrightarrow> int (length (spec_trim cfg rs)) \<le> memoMaxItems cfg \<and>
     (memoMaxBytes cfg > 0 \<longrightarrow> (\<Sum>x\<leftarrow>spec_trim cfg rs. r_bytes x) \<le> memoMaxBytes cfg)"
  by (induction cfg rs rule: spec_trim.induct) auto

lemma spec_trim_keeps_last:
  assumes "1 \<le> memoMaxItems cfg" "memoMaxBytes cfg > 0 \<longrightarrow> r_bytes r \<le> memoMaxBytes cfg"
  shows "r \<in> set (spec_trim cfg (rs @ [r]))"
  using assms by (induction rs) auto


section \<open>The interface Do relies on\<close>

text \<open>
  A bound operation reads and fills one table per scope. It needs three laws: a put keeps
  the table well formed, a put never changes an existing answer, and an answer after a put
  was there before or is the one just stored under an equal identity.
\<close>

locale scope_memo =
  fixes inv :: "'t \<Rightarrow> bool"
    and okp :: "'p \<Rightarrow> bool"
    and same :: "'p \<Rightarrow> 'k \<Rightarrow> 'p \<Rightarrow> 'k \<Rightarrow> bool"
    and get :: "'t \<Rightarrow> 'p \<Rightarrow> 'k \<Rightarrow> 'r option"
    and put :: "'t \<Rightarrow> 'p \<Rightarrow> 'k \<Rightarrow> 'r \<Rightarrow> 't"
  assumes inv_put: "inv t \<Longrightarrow> okp p \<Longrightarrow> inv (put t p k r)"
    and put_present: "inv t \<Longrightarrow> okp p \<Longrightarrow> get t p k = Some r' \<Longrightarrow> put t p k r = t"
    and get_put: "inv t \<Longrightarrow> okp p \<Longrightarrow> okp p' \<Longrightarrow> get (put t p k r) p' k' = Some r' \<Longrightarrow>
      get t p' k' = Some r' \<or> same p k p' k' \<and> r' = r"
begin

definition put_all :: "'t \<Rightarrow> ('p \<times> 'k \<times> 'r) list \<Rightarrow> 't" where
  "put_all t ops = fold (\<lambda>(p, k, r) t. put t p k r) ops t"

lemma put_all_inv:
  "inv t \<Longrightarrow> \<forall>(p, k, r)\<in>set ops. okp p \<Longrightarrow> inv (put_all t ops)"
  by (induction ops arbitrary: t) (auto simp: put_all_def intro: inv_put)

lemma get_put_all:
  assumes "inv t" "\<forall>(p, k, r)\<in>set ops. okp p" "okp p'" "get (put_all t ops) p' k' = Some r'"
  shows "get t p' k' = Some r' \<or> (\<exists>(p, k, r)\<in>set ops. same p k p' k' \<and> r' = r)"
  using assms
proof (induction ops arbitrary: t)
  case Nil
  then show ?case by (simp add: put_all_def)
next
  case (Cons x ops)
  obtain p k r where x: "x = (p, k, r)" by (cases x) auto
  have "inv (put t p k r)" using Cons.prems x by (auto intro: inv_put)
  moreover have "get (put_all (put t p k r) ops) p' k' = Some r'"
    using Cons.prems(4) x by (simp add: put_all_def)
  ultimately have "get (put t p k r) p' k' = Some r' \<or>
      (\<exists>(p, k, r)\<in>set ops. same p k p' k' \<and> r' = r)"
    using Cons.IH Cons.prems by simp
  then show ?case
  proof
    assume "get (put t p k r) p' k' = Some r'"
    then have "get t p' k' = Some r' \<or> same p k p' k' \<and> r' = r"
      using Cons.prems x by (intro get_put) auto
    then show ?thesis using x by auto
  qed auto
qed

end

text \<open>
  The table holds at most one record per identity, so a match determines the answer, and
  dropping old records can only lose answers.
\<close>

definition memo_unique :: "'k KeyStrategy \<Rightarrow> ('k, 'v) memoRecord list \<Rightarrow> bool" where
  "memo_unique ks rs \<longleftrightarrow> sorted_wrt (\<lambda>x y. \<not> memoMatch ks (r_part x) (r_key x) y) rs"

lemma memo_unique_trim:
  assumes "memo_unique ks rs"
  shows "memo_unique ks (spec_trim cfg rs)"
proof -
  obtain dropped where "rs = dropped @ spec_trim cfg rs"
    using spec_trim_suffix by blast
  with assms have "memo_unique ks (dropped @ spec_trim cfg rs)" by simp
  then show ?thesis by (simp add: memo_unique_def sorted_wrt_append)
qed

lemma set_spec_trim: "x \<in> set (spec_trim cfg rs) \<Longrightarrow> x \<in> set rs"
  using spec_trim_suffix [of rs cfg] by (metis Un_iff set_append)

context key_strategy
begin

lemma match_determines:
  assumes "memo_unique ks rs" "x \<in> set rs" "memoMatch ks enc key x"
  shows "List.find (memoMatch ks enc key) rs = Some x"
  using assms
proof (induction rs)
  case Nil
  then show ?case by simp
next
  case (Cons r rs)
  have "r = x" if r: "memoMatch ks enc key r" and "x \<noteq> r"
  proof -
    have "memoMatch ks (r_part r) (r_key r) x"
      using r Cons.prems(3) by (auto simp: memoMatch_def intro: equal_trans equal_sym)
    then show ?thesis using Cons.prems(1,2) \<open>x \<noteq> r\<close> by (auto simp: memo_unique_def)
  qed
  then show ?case using Cons by (auto simp: memo_unique_def)
qed

lemma spec_put_unique:
  assumes "memo_unique ks rs"
  shows "memo_unique ks (spec_put ks cfg rs part key v found)"
proof -
  have "memo_unique ks (rs @ [\<lparr>r_part = encoded part, r_key = key, r_value = v,
        r_found = found, r_bytes = EstimateBytes ks key\<rparr>])"
    if "\<not> (\<exists>r\<in>set rs. memoMatch ks (encoded part) key r)"
    using assms that equal_sym
    by (fastforce simp: memo_unique_def sorted_wrt_append memoMatch_def)
  then show ?thesis using assms by (simp add: spec_put_def memo_unique_trim)
qed

lemma spec_get_put:
  assumes u: "memo_unique ks rs"
    and hit: "spec_get ks (spec_put ks cfg rs part key v found) part' key' = Some r"
  shows "spec_get ks rs part' key' = Some r \<or>
    (encoded part = encoded part' \<and> Equal ks key key') \<and> r = (v, found)"
proof (cases "\<exists>r\<in>set rs. memoMatch ks (encoded part) key r")
  case True
  then show ?thesis using hit by (simp add: spec_put_def)
next
  case False
  let ?new = "\<lparr>r_part = encoded part, r_key = key, r_value = v, r_found = found,
               r_bytes = EstimateBytes ks key\<rparr>"
  from hit False obtain x where x: "List.find (memoMatch ks (encoded part') key')
      (spec_trim cfg (rs @ [?new])) = Some x" and r: "r = (r_value x, r_found x)"
    by (auto simp: spec_get_def spec_put_def)
  from find_SomeD [OF x] have m: "memoMatch ks (encoded part') key' x"
    and "x \<in> set (rs @ [?new])" by (auto dest: set_spec_trim)
  then consider "x \<in> set rs" | "x = ?new" by auto
  then show ?thesis
  proof cases
    case 1
    then show ?thesis using match_determines [OF u 1 m] r by (simp add: spec_get_def)
  next
    case 2
    then show ?thesis using m r by (simp add: memoMatch_def)
  qed
qed

lemma memo_is_scope_memo:
  "scope_memo (\<lambda>t. memo_inv mh ks t \<and> memo_unique ks (memo_abs t))
     (\<lambda>p. wf_partition mh p)
     (\<lambda>p k p' k'. encoded p = encoded p' \<and> Equal ks k k')
     (memo_get ks) (\<lambda>t p k (v, found). memo_put mh ks cfg t p k v found)"
proof
  fix t :: "('k, 'v) memoTable" and p :: Partition and k :: 'k and r :: "'v option \<times> bool"
  assume "memo_inv mh ks t \<and> memo_unique ks (memo_abs t)" and "wf_partition mh p"
  then show "memo_inv mh ks (case r of (v, found) \<Rightarrow> memo_put mh ks cfg t p k v found) \<and>
      memo_unique ks (memo_abs (case r of (v, found) \<Rightarrow> memo_put mh ks cfg t p k v found))"
    by (cases r) (simp add: put_refines spec_put_unique)
next
  fix t :: "('k, 'v) memoTable" and p :: Partition and k :: 'k and r r' :: "'v option \<times> bool"
  assume "memo_get ks t p k = Some r'"
  then show "(case r of (v, found) \<Rightarrow> memo_put mh ks cfg t p k v found) = t"
    by (cases r) (auto simp: memo_put_def memo_get_def)
next
  fix t :: "('k, 'v) memoTable" and p p' :: Partition and k k' :: 'k
    and r r' :: "'v option \<times> bool"
  assume t: "memo_inv mh ks t \<and> memo_unique ks (memo_abs t)"
    and p: "wf_partition mh p" and p': "wf_partition mh p'"
    and hit: "memo_get ks (case r of (v, found) \<Rightarrow> memo_put mh ks cfg t p k v found) p' k' = Some r'"
  obtain v found where r: "r = (v, found)" by (cases r) auto
  have "memo_inv mh ks (memo_put mh ks cfg t p k v found)"
    using put_refines t p by blast
  then have "spec_get ks (spec_put ks cfg (memo_abs t) p k v found) p' k' = Some r'"
    using hit r p' t p
      get_refines [of mh "memo_put mh ks cfg t p k v found" p' k']
      put_refines [of mh t p cfg k v found] by simp
  then have "spec_get ks (memo_abs t) p' k' = Some r' \<or>
      (encoded p = encoded p' \<and> Equal ks k k') \<and> r' = r"
    using t r by (auto dest: spec_get_put)
  then show "memo_get ks t p' k' = Some r' \<or>
      (encoded p = encoded p' \<and> Equal ks k k') \<and> r' = r"
    using get_refines [of mh t p' k'] t p' by simp
qed

end

interpretation string_memo: scope_memo
  "\<lambda>t. memo_inv mh (stringStrategy mh') t \<and> memo_unique (stringStrategy mh') (memo_abs t)"
  "\<lambda>p. wf_partition mh p"
  "\<lambda>p k p' k'. encoded p = encoded p' \<and> Equal (stringStrategy mh') k k'"
  "memo_get (stringStrategy mh')"
  "\<lambda>t p k (v, found). memo_put mh (stringStrategy mh') cfg t p k v found" for mh mh' cfg
  by (rule stringKeys.memo_is_scope_memo)

section \<open>Properties\<close>

text \<open>The sequence of puts a scope's calls make on its table.\<close>

fun memo_run ::
  "(string \<Rightarrow> u64) \<Rightarrow> 'k KeyStrategy \<Rightarrow> memoConfig \<Rightarrow> ('k, 'v) memoTable \<Rightarrow>
   (Partition \<times> 'k \<times> 'v option \<times> bool) list \<Rightarrow> ('k, 'v) memoTable" where
  "memo_run mh ks cfg t [] = t"
| "memo_run mh ks cfg t ((p, k, v, found) # ops) =
     memo_run mh ks cfg (memo_put mh ks cfg t p k v found) ops"

lemma memo_run_fold:
  "memo_run mh ks cfg t ops =
     fold (\<lambda>(p, k, r) t. (\<lambda>t p k (v, found). memo_put mh ks cfg t p k v found) t p k r) ops t"
  by (induction mh ks cfg t ops rule: memo_run.induct) auto



text \<open>Whatever calls fill a scope's table, a hit returns a result that some call stored
  under the same encoded partition and an equal key: neither hash collisions nor eviction
  can return another request's result.\<close>

theorem memo_hits_are_genuine:
  fixes ops :: "(Partition \<times> 'k \<times> 'v option \<times> bool) list"
  assumes ks: "key_strategy ks"
    and ops: "\<forall>(p, k, r)\<in>set ops. wf_partition mh p"
    and part: "wf_partition mh part"
    and hit: "memo_get ks (memo_run mh ks cfg memo_empty ops) part key = Some (v, found)"
  shows "\<exists>p k. (p, k, v, found) \<in> set ops \<and> encoded p = encoded part \<and> Equal ks k key"
proof -
  let ?inv = "\<lambda>t. memo_inv mh ks t \<and> memo_unique ks (memo_abs t)"
  note sm = key_strategy.memo_is_scope_memo [OF ks, of mh cfg]
  have e: "?inv memo_empty"
    by (simp add: memo_inv_empty memo_unique_def)
  have none: "memo_get ks (memo_empty :: ('k, 'v) memoTable) part key = None"
    by (simp add: memo_get_def memo_empty_def goget_def)
  have "scope_memo.put_all (\<lambda>t p k (v, found). memo_put mh ks cfg t p k v found) memo_empty ops =
      memo_run mh ks cfg memo_empty ops"
    by (simp add: scope_memo.put_all_def [OF sm] memo_run_fold)
  with hit have "memo_get ks (scope_memo.put_all
      (\<lambda>t p k (v, found). memo_put mh ks cfg t p k v found) memo_empty ops) part key = Some (v, found)"
    by simp
  from scope_memo.get_put_all [OF sm e ops part this] none show ?thesis by auto
qed

theorem memo_hits_are_genuine_witness:
  "\<exists>p k. (p, k, Some 8, True) \<in> set [(SinglePartition (\<lambda>_. 3), ''k'', Some (8 :: nat), True)] \<and>
     encoded p = encoded (SinglePartition (\<lambda>_. 3)) \<and> Equal (stringStrategy (\<lambda>_. 5)) k ''k''"
proof (rule memo_hits_are_genuine [where mh = "\<lambda>_. 3" and cfg = "\<lparr>memoMaxItems = 2, memoMaxBytes = 0\<rparr>"])
  show "key_strategy (stringStrategy (\<lambda>_. 5))" by (rule stringKeys.key_strategy_axioms)
qed (simp_all add: wf_partition_def SinglePartition_def newPartition_def memo_put_def memo_get_def goget_def
      memo_empty_def memo_insert_def memoEvictLoop.simps memoOver_def memoMatch_def hashOf_def
      stringStrategy_def Let_def)

text \<open>A result stored for an identity that has none is found by the next lookup of it,
  provided one record fits the configured limits; and a store never exceeds those limits.\<close>

theorem memo_put_then_get:
  assumes ks: "key_strategy ks" and inv: "memo_inv mh ks t" "memo_unique ks (memo_abs t)"
    and part: "wf_partition mh part" and new: "memo_get ks t part key = None"
    and lim: "1 \<le> memoMaxItems cfg"
      "memoMaxBytes cfg \<le> 0 \<or> EstimateBytes ks key \<le> memoMaxBytes cfg"
  shows "memo_get ks (memo_put mh ks cfg t part key v found) part key = Some (v, found) \<and>
    int (length (m_order (memo_put mh ks cfg t part key v found))) \<le> memoMaxItems cfg \<and>
    (memoMaxBytes cfg > 0 \<longrightarrow> m_bytes (memo_put mh ks cfg t part key v found) \<le> memoMaxBytes cfg)"
proof -
  let ?t = "memo_put mh ks cfg t part key v found"
  let ?new = "\<lparr>r_part = encoded part, r_key = key, r_value = v, r_found = found,
               r_bytes = EstimateBytes ks key\<rparr>"
  note put = key_strategy.put_refines [OF ks inv(1) part, of cfg key v found]
  have nomatch: "\<not> (\<exists>r\<in>set (memo_abs t). memoMatch ks (encoded part) key r)"
    using new key_strategy.get_refines [OF ks inv(1) part, of key]
    by (auto simp: spec_get_def find_None_iff)
  then have abs: "memo_abs ?t = spec_trim cfg (memo_abs t @ [?new])"
    using put by (simp add: spec_put_def)
  have in_t: "?new \<in> set (memo_abs ?t)"
    unfolding abs using lim by (intro spec_trim_keeps_last) auto
  have "memo_unique ks (memo_abs ?t)"
    using put key_strategy.spec_put_unique [OF ks inv(2)] by simp
  moreover have "memoMatch ks (encoded part) key ?new"
    by (simp add: memoMatch_def key_strategy.equal_refl [OF ks])
  ultimately have "List.find (memoMatch ks (encoded part) key) (memo_abs ?t) = Some ?new"
    using key_strategy.match_determines [OF ks _ in_t] by blast
  then have "memo_get ks ?t part key = Some (v, found)"
    using key_strategy.get_refines [OF ks _ part, of ?t key] put by (simp add: spec_get_def)
  moreover have "length (m_order ?t) = length (memo_abs ?t)"
    by (simp add: memo_abs_def)
  moreover have "m_bytes ?t = (\<Sum>x\<leftarrow>memo_abs ?t. r_bytes x)"
    using put memo_invD(3) by blast
  ultimately show ?thesis
    using spec_trim_bounds [of cfg "memo_abs t @ [?new]"] lim abs by simp
qed

theorem memo_put_then_get_witness:
  "memo_get (stringStrategy (\<lambda>_. 5)) (memo_put (\<lambda>_. 3) (stringStrategy (\<lambda>_. 5))
      \<lparr>memoMaxItems = 2, memoMaxBytes = 0\<rparr> (memo_empty :: (string, nat) memoTable)
      (SinglePartition (\<lambda>_. 3)) ''k'' (Some 8) True) (SinglePartition (\<lambda>_. 3)) ''k'' = Some (Some 8, True)"
proof -
  have "memo_unique (stringStrategy (\<lambda>_. 5)) (memo_abs (memo_empty :: (string, nat) memoTable))"
    by (simp add: memo_unique_def)
  moreover have "memo_get (stringStrategy (\<lambda>_. 5)) (memo_empty :: (string, nat) memoTable)
      (SinglePartition (\<lambda>_. 3)) ''k'' = None"
    by (simp add: memo_get_def memo_empty_def goget_def)
  ultimately show ?thesis
    using memo_put_then_get [OF stringKeys.key_strategy_axioms memo_inv_empty
        _ wf_partition_constructors(2) [of "\<lambda>_. 3"], of "\<lambda>_. 5" "''k''"
        "\<lparr>memoMaxItems = 2, memoMaxBytes = 0\<rparr>" "Some (8 :: nat)" True] by simp
qed

end
