(* ===== verification/Coordinator_Batches.thy ===== *)
theory Coordinator_Batches
  imports Coordinator_Ledger
begin

text \<open>
  What a dispatched batch looks like: how dispatchBatch selects from a partition's queue, the
  hard limits every provider call respects, and the bound on concurrent provider calls.
\<close>

section \<open>Limits of a selection\<close>










section \<open>Provider calls of a run\<close>

text \<open>
  A provider call as the provider contract wants it: a non-empty request of valid items with
  distinct ids, no longer than the configured batch size, made for this operation.
\<close>

definition call_ok :: "'k bindingConfig \<Rightarrow> 'k workerCall \<Rightarrow> bool" where
  "call_ok cfg k \<longleftrightarrow> k_opID k = cf_opID cfg \<and> BatchRequest_Validate (k_req k) = None \<and>
     1 \<le> BatchRequest_Len (k_req k) \<and> int (BatchRequest_Len (k_req k)) \<le> sc_maxBatchSize (cf_sched cfg)"

definition calls_ok :: "'k bindingConfig \<Rightarrow> ('k, 'v) coordinator \<Rightarrow> bool" where
  "calls_ok cfg c \<longleftrightarrow> dyn_ok (cf_sched cfg) (c_dyn c) \<and>
     c_activeProvider c \<le> sc_maxConcurrency (cf_sched cfg) \<and> list_all (call_ok cfg) (o_workers c)"

lemma calls_ok_idle: "idle c d \<Longrightarrow> calls_ok cfg c \<Longrightarrow> calls_ok cfg d"
  by (simp add: idle_def calls_ok_def)

lemma idle_selectLoop: "idle c (snd (selectLoop cfg pk as s c))"
  by (simp add: idle_def selectLoop_frame)

lemma launchBatch_calls:
  "c_activeProvider (launchBatch cfg pk reason s req c) = c_activeProvider c + 1"
  "c_dyn (launchBatch cfg pk reason s req c) = c_dyn c"
  "\<exists>wk. o_workers (launchBatch cfg pk reason s req c) = o_workers c @ [wk] \<and> k_req wk = req \<and>
     k_opID wk = cf_opID cfg"
proof -
  have "idle c (takeSelected pk s c)" "idle c (announceBatch cfg pk reason bid n c)" for bid n
    and c :: "('a, 'b) coordinator"
    unfolding takeSelected_def announceBatch_def Let_def by (intro idle_step idle_refl)+
  then show "c_activeProvider (launchBatch cfg pk reason s req c) = c_activeProvider c + 1"
      "c_dyn (launchBatch cfg pk reason s req c) = c_dyn c"
      "\<exists>wk. o_workers (launchBatch cfg pk reason s req c) = o_workers c @ [wk] \<and> k_req wk = req \<and>
         k_opID wk = cf_opID cfg"
    by (simp_all add: launchBatch_def Let_def nextBatchID_def registerBatch_def heap_markDispatched
        startWorker_def idle_def)
qed

lemma selectLoop_count:
  assumes r: "selectLoop cfg pk as noSelection c = (s, c')" and "sl_selected s \<noteq> []"
    and dyn: "1 \<le> effectiveMaxBatchSize (cf_sched cfg) (c_dyn c)"
  shows "int (length (sl_selected s)) \<le> effectiveMaxBatchSize (cf_sched cfg) (c_dyn c)"
proof -
  let ?mbs = "\<lambda>c. effectiveMaxBatchSize (cf_sched cfg) (c_dyn c)"
  have "selectLoop cfg pk as s0 c = (s, c') \<Longrightarrow> sl_count s0 = int (length (sl_selected s0)) \<Longrightarrow>
      sl_count s0 \<le> ?mbs c \<Longrightarrow> 1 \<le> ?mbs c \<Longrightarrow> int (length (sl_selected s)) \<le> ?mbs c" for s0
  proof (induction as arbitrary: s0 c)
    case (Cons a as)
    note drop = same_items_drop [of c pk a]
    have dyn: "c_dyn (decQueued (decLive pk (removeActive pk a c))) = c_dyn c"
        "c_dyn (decQueued (failItem pk a ErrItemTooLarge c)) = c_dyn c"
      using drop by (simp_all add: same_items_def)
    note IH = Cons.IH [of s0 "decQueued (decLive pk (removeActive pk a c))"]
      Cons.IH [of s0 "decQueued (failItem pk a ErrItemTooLarge c)"]
      Cons.IH [of "s0\<lparr>sl_remaining := sl_remaining s0 @ [a]\<rparr>" c]
      Cons.IH [of "selectItem a (c_heap c a) s0" c]
    have fit: "sl_count s0 + 1 \<le> ?mbs c"
      if "sl_selected s0 = [] \<or> fits cfg (c_dyn c) (sl_count s0) (sl_weight s0) (sl_bytes s0) (c_heap c a)"
      using that Cons.prems(2,4) by (auto simp: fits_def Let_def split: if_splits)
    show ?case
      using Cons.prems IH fit by (auto simp: Let_def dyn selectItem_def split: if_splits)
  qed simp
  from this [OF r] dyn show ?thesis
    by (simp add: noSelection_def)
qed

lemma batchItemOf_id: "BatchItem_Validate (batchItemOf it) = None \<longleftrightarrow> q_id it \<noteq> 0"
  by (auto simp: BatchItem_Validate_def batchItemOf_def Let_def WithWeight_def WithDeadline_def
      NewBatchItem_def RequestID_IsValid_def MinPriority_def MaxPriority_def split_beta)

lemma NewBatchRequest_valid:
  "NewBatchRequest its = Inr req \<Longrightarrow>
     BatchRequest_Validate req = None \<and> BatchRequest_Len req = length its \<and> 1 \<le> length its"
  by (auto simp: NewBatchRequest_Inr_iff BatchRequest_Validate_def requestValidateLoop_None_iff
      BatchRequest_Len_def list_all_iff Suc_le_eq)

lemma calls_ok_dispatchBatch:
  assumes ok: "calls_ok cfg c" and free: "c_activeProvider c < effectiveMaxConcurrency (cf_sched cfg) (c_dyn c)"
  shows "calls_ok cfg (dispatchBatch cfg pk reason c)"
proof -
  obtain s c1 where sel: "selectLoop cfg pk (pendingOf c pk) noSelection c = (s, c1)"
    by fastforce
  define c2 where "c2 = updPart pk (\<lambda>p. p\<lparr>p_pending := sl_remaining s\<rparr>) c1"
  have "idle c c1"
    using idle_selectLoop [of c cfg pk "pendingOf c pk" noSelection] sel by simp
  then have idle: "idle c c2"
    unfolding c2_def by (intro idle_step)
  then have c2: "calls_ok cfg c2" "c_activeProvider c2 < effectiveMaxConcurrency (cf_sched cfg) (c_dyn c2)"
    using ok free by (simp_all add: calls_ok_idle idle_def calls_ok_def)
  have dyn: "dyn_ok (cf_sched cfg) (c_dyn c)"
    using ok by (simp add: calls_ok_def)
  have "length (sl_items s) = length (sl_selected s)"
    using selectLoop_ok [OF sel selection_ok_none] unfolding selection_ok_def by (metis length_map)
  then have len: "int (length (sl_items s)) \<le> sc_maxBatchSize (cf_sched cfg)" if "sl_selected s \<noteq> []"
    using selectLoop_count [OF sel that] dyn by (simp add: dyn_ok_def)
  have launch: "calls_ok cfg (launchBatch cfg pk reason s req c2)"
    if "sl_selected s \<noteq> []" "NewBatchRequest (sl_items s) = Inr req" for req
    using launchBatch_calls [of cfg pk reason s req c2] c2 len [OF that(1)]
      NewBatchRequest_valid [OF that(2)]
    by (auto simp: calls_ok_def call_ok_def dyn_ok_def)
  show ?thesis
    using sel c2(1) launch calls_ok_idle [OF idle_failRequest c2(1)]
    by (auto simp: dispatchBatch_def simp flip: c2_def split: sum.split)
qed

lemma calls_ok_drainPartition: "calls_ok cfg c \<Longrightarrow> calls_ok cfg (drainPartition cfg pk force now c)"
proof (induction cfg pk force now c rule: drainPartition.induct)
  case (1 cfg pk force now c)
  have p: "calls_ok cfg (prune pk c)"
    using calls_ok_idle [OF idle_prune "1.prems"] .
  have free: "c_activeProvider (prune pk c) < effectiveMaxConcurrency (cf_sched cfg) (c_dyn (prune pk c))"
    if "c_activeProvider c < effectiveMaxConcurrency (cf_sched cfg) (c_dyn c)"
    using that idle_prune [of c pk] by (simp add: idle_def)
  show ?case
    using 1 p calls_ok_dispatchBatch [OF p free]
    by (subst drainPartition.simps) (auto simp: Let_def split: option.splits)
qed

lemma calls_ok_schedule: "calls_ok cfg c \<Longrightarrow> calls_ok cfg (schedule cfg clk force c)"
proof -
  have "calls_ok cfg c \<Longrightarrow> calls_ok cfg (schedulePartitions cfg force now pks c)" for now pks
    and c :: "('a, 'b) coordinator"
    by (induction pks arbitrary: c)
      (simp_all add: calls_ok_drainPartition calls_ok_idle [OF idle_small(1)])
  from this [of "c\<lparr>e_reads := Suc (e_reads c)\<rparr>"] show "calls_ok cfg c \<Longrightarrow> ?thesis"
    by (simp add: schedule_def clockNow_def computeNextTimer_def calls_ok_def split: option.split)
qed

lemma calls_ok_handleEvent:
  assumes ok: "calls_ok cfg c"
  shows "calls_ok cfg (handleEvent cfg clk ev c)"
proof (cases ev)
  case (EvSubmit req)
  then show ?thesis using calls_ok_idle [OF idle_handleSubmit ok] by simp
next
  case (EvCancel cr)
  then show ?thesis
    using ok calls_ok_idle [OF idle_cancelWaiter ok]
    by (simp add: handleCancel_def split: option.split) (simp add: calls_ok_def)
next
  case (EvComplete d)
  have "calls_ok cfg (releaseBatch b i c)" for b i
    using ok by (simp add: releaseBatch_def Let_def calls_ok_def tally_def cancelBatchContext_def)
  then have "calls_ok cfg (retryBlocked cfg clk (settleBatch cfg b d (releaseBatch b i c)))" for b i
    by (intro calls_ok_idle [OF idle_retryBlocked] calls_ok_idle [OF idle_settleBatch])
  then show ?thesis
    using EvComplete ok by (simp add: handleComplete_def split: option.split)
next
  case (EvControl ctrl)
  then show ?thesis
    using ok calls_ok_schedule [of cfg "c\<lparr>c_closing := True\<rparr>" clk True] calls_ok_schedule [OF ok, of clk True]
    by (simp add: handleControl_def Let_def calls_ok_def)
next
  case EvTimer
  then show ?thesis
    using ok calls_ok_schedule [of cfg "c\<lparr>c_timerActive := False\<rparr>" clk False] by (simp add: calls_ok_def)
next
  case EvEngineDone
  then show ?thesis
    using ok handleEngineCancel_frame [of c] calls_ok_idle
      [OF idle_deliverItems, of cfg "c\<lparr>c_closing := True\<rparr>" "indexedItems c" "errRes ErrEngineClosed"]
    by (auto simp: calls_ok_def)
qed

lemma calls_ok_iteration:
  assumes "calls_ok cfg c"
  shows "calls_ok cfg (iteration cfg clk ctxErr ev c)"
proof -
  have bars: "calls_ok cfg (tryCompleteBarriers ctxErr d)" "calls_ok cfg ((failBarriers None d)\<lparr>c_done := True\<rparr>)"
      "calls_ok cfg (d\<lparr>c_done := True\<rparr>)" if "calls_ok cfg d" for d :: "('a, 'b) coordinator"
    using that tryCompleteBarriers_frame [of ctxErr d] failBarriers_frame [of None d]
    by (auto simp: calls_ok_def)
  note h = calls_ok_handleEvent [OF assms, of clk ev]
  from bars [OF h] bars [OF bars(1) [OF calls_ok_schedule [OF h, of clk False]]]
    bars(1) [OF calls_ok_schedule [OF h, of clk False]]
  show ?thesis
    by (simp add: iteration_def finishIteration_def Let_def)
qed

lemma calls_ok_served:
  assumes "served cfg clk c A C" "1 \<le> sc_maxBatchSize (cf_sched cfg)" "1 \<le> sc_maxConcurrency (cf_sched cfg)"
  shows "calls_ok cfg c"
  using assms
proof (induction rule: served.induct)
  case (start memory r)
  then show ?case by (simp add: calls_ok_def newCoordinator_def dyn_ok_def)
next
  case (adapt c A C s)
  then show ?case using dyn_ok_apply [of "cf_sched cfg" s] by (simp add: calls_ok_def)
next
  case (unadapt c A C)
  then show ?case by (simp add: calls_ok_def dyn_ok_def ClearAdaptiveSettings_def)
next
  case (others c A C r)
  then show ?case by (simp add: calls_ok_def)
qed (simp add: calls_ok_iteration)

text \<open>C7: Provider calls are well formed and bounded. In every run of a binding whose batch size and
  concurrency are at least one (Bind makes them so), whatever adaptive settings are applied,
  every provider call started so far is for this operation with a valid request of between
  one and the configured maximum number of items, and at most the configured number of calls
  are in flight at once, which is exactly the size of the in-flight table.\<close>

theorem provider_calls_bounded:
  assumes "served cfg clk c A C" "1 \<le> sc_maxBatchSize (cf_sched cfg)" "1 \<le> sc_maxConcurrency (cf_sched cfg)"
  shows "list_all (call_ok cfg) (o_workers c) \<and>
    int (length (c_inflight c)) \<le> sc_maxConcurrency (cf_sched cfg) \<and>
    c_activeProvider c = int (length (c_inflight c))"
proof -
  have "inflight_ok c"
    using served_inv [OF assms(1)] by (auto simp: coord_inv_def dest: cinvD)
  then show ?thesis
    using calls_ok_served [OF assms] by (simp add: calls_ok_def inflight_ok_def)
qed

theorem provider_calls_bounded_witness:
  "\<exists>c :: (nat, nat) coordinator. served demoCfg demoClock c {#11, 12#} {#} \<and>
     list_all (call_ok demoCfg) (o_workers c) \<and> int (length (c_inflight c)) \<le> 1 \<and>
     c_activeProvider c = int (length (c_inflight c))"
proof -
  obtain c :: "(nat, nat) coordinator" where c: "served demoCfg demoClock c {#11, 12#} {#}"
    using demo_served by blast
  have "1 \<le> sc_maxBatchSize (cf_sched demoCfg)" "sc_maxConcurrency (cf_sched demoCfg) = 1"
    by (simp_all add: demoCfg_def)
  then show ?thesis
    using c provider_calls_bounded [OF c] by auto
qed

text \<open>C4: Ownership. In every run, each partition's hash index holds exactly the items that are
  either queued in that partition or in one in-flight batch of that partition, each once;
  \<open>live\<close> counts them, and an item belongs to the index of one partition only. So a batch never
  mixes partitions and no item is in two batches, or both queued and in flight.\<close>

theorem items_owned_once:
  assumes "served cfg clk c A C"
  shows "indexOf c pk = mset (pendingOf c pk) + owned c pk \<and>
    (a \<in># indexOf c pk \<longrightarrow> Multiset.count (indexOf c pk) a = 1) \<and>
    (a \<in># indexOf c pk \<and> a \<in># indexOf c pk' \<longrightarrow> pk = pk') \<and>
    (case partOf c pk of None \<Rightarrow> True | Some p \<Rightarrow> p_live p = int (size (indexOf c pk)))"
proof -
  have "coord_inv c"
    using served_inv [OF assms] by simp
  note cD = cinvD [OF this [unfolded coord_inv_def]]
  have "case partOf c pk of None \<Rightarrow> True | Some p \<Rightarrow> p_live p = int (size (indexOf c pk))"
    using cD(1) by (auto simp: parts_ok_def indexOf_def split: option.split)
  then show ?thesis
    using cD(2,5) unfolding separated_def balanced_def queued_def by blast
qed

theorem items_owned_once_witness:
  "\<exists>c :: (nat, nat) coordinator. served demoCfg demoClock c {#11, 12#} {#} \<and>
     indexOf c ''p'' = mset (pendingOf c ''p'') + owned c ''p''"
proof -
  obtain c :: "(nat, nat) coordinator" where c: "served demoCfg demoClock c {#11, 12#} {#}"
    using demo_served by blast
  then show ?thesis
    using items_owned_once [OF c] by blast
qed

end
