(* ===== verification/Runtime_Binding.thy ===== *)
theory Runtime_Binding
  imports Runtime_Engine Memo_Table Op_Spec Coordinator_Batches
begin

text \<open>
  Bound operations (runtime/binding.go): Bind, the caller's side of a request (Do, finish, the
  fallback, panic isolation of callbacks, recursion detection), control requests, the
  per-scope memo tables, and the statistics snapshots (runtime/statistics.go).

  Do talks to the coordinator over channels. \<open>Do_prepare\<close> is everything up to the first select: it
  either has the answer or a request to submit. What the three selects of Do observe is
  given by the parameter \<open>sel\<close>; a select that sees the context end and then finds the value
  in the channel behaves as one that received it, and is that case here. The user's callbacks are
  parameters that return a panic value or a result. The clone, hash and size functions of the key
  strategy panic where \<open>oc_panics\<close> says so; its equality does not panic here. Where the code calls
  them without recoverCallback (the memo table does), the panic leaves Do.
\<close>

section \<open>Configuration and Bind\<close>

record ('k, 'v) opConfig =
  oc_coord :: "'k bindingConfig"
  oc_partitioner :: "Ctx \<Rightarrow> 'k \<Rightarrow> panicValue + (rt_error + Partition)"
  oc_weight :: "('k \<Rightarrow> panicValue + int) option"
  oc_panics :: "string \<Rightarrow> 'k \<Rightarrow> panicValue option"
  oc_fallback :: "(Ctx \<Rightarrow> 'k \<Rightarrow> 'v option \<times> rt_error option) option"
  oc_memoEnabled :: bool
  oc_memoNegative :: bool
  oc_memo :: memoConfig
  oc_requireScope :: bool
  oc_panicPolicy :: PanicPolicy

record ('k, 'v) Binding =
  bg_Provider :: bool
  bg_Keys :: "'k KeyStrategy option"
  bg_panics :: "string \<Rightarrow> 'k \<Rightarrow> panicValue option"
  bg_Partitioner :: "(Ctx \<Rightarrow> 'k \<Rightarrow> panicValue + (rt_error + Partition)) option"
  bg_Weight :: "('k \<Rightarrow> panicValue + int) option"
  bg_Fallback :: "(Ctx \<Rightarrow> 'k \<Rightarrow> 'v option \<times> rt_error option) option"
  bg_Limits :: QueueLimits
  bg_Overflow :: "OverflowPolicy option"
  bg_RequireScope :: bool
  bg_EnableMemoization :: bool

definition normalizeFlushMode :: "u8 \<Rightarrow> flushMode" where
  "normalizeFlushMode m =
     (if m = SchedulerImmediateWave then flushImmediate
      else if m = SchedulerManual then flushManual
      else if m = SchedulerDeadlineAware then flushDeadlineAware
      else flushFixedWindow)"

definition bindOverflow :: "OverflowPolicy \<Rightarrow> u8 \<Rightarrow> OverflowPolicy option \<Rightarrow> OverflowPolicy" where
  "bindOverflow dflt specOverflow own =
     (case own of
        Some p \<Rightarrow> p
      | None \<Rightarrow>
          if specOverflow = BehaviorReject then OverflowReject
          else if specOverflow = BehaviorBlock then OverflowBlock
          else if specOverflow = BehaviorFallback then OverflowFallback
          else dflt)"

definition specLimits :: "SchedulerParams \<Rightarrow> QueueLimits" where
  "specLimits sp = \<lparr>MaxItems = sp_QueueItems sp, MaxWaiters = 0, MaxBytes = sp_QueueBytes sp,
     MaxWeight = sp_MaxBatchWeight sp, MaxPartitions = sp_ActivePartitions sp\<rparr>"

definition bindCoord ::
  "Engine \<Rightarrow> Spec \<Rightarrow> 'k KeyStrategy \<Rightarrow> QueueLimits \<Rightarrow> OverflowPolicy option \<Rightarrow> 'k bindingConfig" where
  "bindCoord e spec keys limits own =
     (let sp = schedulerPolicy spec in
      \<lparr>cf_opID = spec_id spec,
       cf_limits = QueueLimits_merge (QueueLimits_merge limits (specLimits sp)) (en_defaultLimits e),
       cf_overflow = bindOverflow (en_defaultOverflow e) (sp_Overflow sp) own,
       cf_flushMode = normalizeFlushMode (sp_Mode sp),
       cf_sched = \<lparr>sc_maxWait = sp_MaxWait sp,
         sc_maxBatchSize = (if sp_MaxBatchSize sp < 1 then 1 else sp_MaxBatchSize sp),
         sc_maxConcurrency = (if sp_MaxConcurrency sp < 1 then 1 else sp_MaxConcurrency sp)\<rparr>,
       cf_maxBatchWeight = sp_MaxBatchWeight sp, cf_maxBatchBytes = sp_MaxPayloadBytes sp,
       cf_deadlineMargin = sp_DeadlineMargin sp,
       cf_dedupEnabled = dp_InFlight (deduplicationPolicy spec), cf_keys = keys, cf_hooks = en_hooks e\<rparr>)"

text \<open>
  Bind: \<open>mh\<close> hashes partitions, \<open>msg\<close> renders the errors of the spec's validation, \<open>h\<close> is the
  handle of the new operation.
\<close>

definition Bind ::
  "(string \<Rightarrow> u64) \<Rightarrow> (op_error \<Rightarrow> string) \<Rightarrow> nat \<Rightarrow> Spec \<Rightarrow> ('k, 'v) Binding \<Rightarrow> Engine \<Rightarrow>
   rt_error + ('k, 'v) opConfig \<times> Engine" where
  "Bind mh msg h spec b e =
     (case ensureOpen e of
        Some err \<Rightarrow> Inl err
      | None \<Rightarrow>
          if Spec_ValidationError msg spec \<noteq> None then Inl (ErrInvalidBinding ''operation is invalid'')
          else if \<not> bg_Provider b then Inl (ErrInvalidBinding ''provider is nil'')
          else
            (case bg_Keys b of
               None \<Rightarrow> Inl (ErrInvalidBinding ''key strategy is nil'')
             | Some keys \<Rightarrow>
                 if \<not> QueueLimits_Validate (bg_Limits b) then Inl limitsError
                 else
                   (let sem = spec_semantics spec; dedup = deduplicationPolicy spec;
                        cc = bindCoord e spec keys (bg_Limits b) (bg_Overflow b);
                        memo = dp_ScopeMemoization dedup \<or> bg_EnableMemoization b;
                        cfg = \<lparr>oc_coord = cc,
                          oc_partitioner = (case bg_Partitioner b of
                              Some p \<Rightarrow> p
                            | None \<Rightarrow> (\<lambda>_ k. Inr (singlePartitioner mh k))),
                          oc_weight = bg_Weight b, oc_panics = bg_panics b, oc_fallback = bg_Fallback b,
                          oc_memoEnabled = memo,
                          oc_memoNegative = (memo \<and> dp_NegativeMemoization dedup),
                          oc_memo = (if memo then
                              \<lparr>memoMaxItems = (if dp_MaxItems dedup < 1 then 1024 else dp_MaxItems dedup),
                               memoMaxBytes = dp_MaxBytes dedup\<rparr>
                            else \<lparr>memoMaxItems = 0, memoMaxBytes = 0\<rparr>),
                          oc_requireScope = bg_RequireScope b, oc_panicPolicy = en_panicPolicy e\<rparr>
                    in if dp_InFlight dedup \<and> \<not> sem_deduplicationAllowed sem
                         then Inl (ErrInvalidBinding ''in-flight deduplication is not permitted'')
                       else if memo \<and> (sem_effect sem \<noteq> EffectRead \<or> sem_freshnessDependent sem)
                         then Inl (ErrInvalidBinding ''memoization is not permitted'')
                       else if cf_overflow cc = OverflowFallback \<and> bg_Fallback b = None
                         then Inl (ErrInvalidBinding ''fallback overflow policy requires a scalar fallback'')
                       else
                         (case registerController (spec_id spec) h e of
                            Inl err \<Rightarrow> Inl err
                          | Inr e' \<Rightarrow> Inr (cfg, e')))))"

section \<open>Callbacks with panic isolation\<close>

datatype 'a called = CValue 'a | CError rt_error | CPanic panicValue

definition recoverCallback :: "('k, 'v) opConfig \<Rightarrow> string \<Rightarrow> panicValue + (rt_error + 'a) \<Rightarrow> 'a called" where
  "recoverCallback cfg name r =
     (case r of
        Inl p \<Rightarrow>
          if oc_panicPolicy cfg = PanicPolicyRepanic then CPanic p
          else CError (CallbackPanicError (cf_opID (oc_coord cfg)) name (sanitizePanic p))
      | Inr (Inl e) \<Rightarrow> CError e
      | Inr (Inr v) \<Rightarrow> CValue v)"

definition callPartitioner :: "('k, 'v) opConfig \<Rightarrow> Ctx \<Rightarrow> 'k \<Rightarrow> Partition called" where
  "callPartitioner cfg ctx key = recoverCallback cfg ''partitioner'' (oc_partitioner cfg ctx key)"

definition keyCall :: "('k, 'v) opConfig \<Rightarrow> string \<Rightarrow> 'k \<Rightarrow> 'a \<Rightarrow> 'a called" where
  "keyCall cfg name key v =
     recoverCallback cfg name (case oc_panics cfg name key of Some p \<Rightarrow> Inl p | None \<Rightarrow> Inr (Inr v))"

definition callClone :: "('k, 'v) opConfig \<Rightarrow> 'k \<Rightarrow> 'k called" where
  "callClone cfg key = keyCall cfg ''key clone'' key (Clone (cf_keys (oc_coord cfg)) key)"

definition callHash :: "('k, 'v) opConfig \<Rightarrow> 'k \<Rightarrow> u64 called" where
  "callHash cfg key = keyCall cfg ''key hash'' key (Hash (cf_keys (oc_coord cfg)) key)"

definition callWeight :: "('k, 'v) opConfig \<Rightarrow> 'k \<Rightarrow> int called" where
  "callWeight cfg key =
     (case oc_weight cfg of
        None \<Rightarrow> CValue 1
      | Some weight \<Rightarrow>
          recoverCallback cfg ''weight''
            (case weight key of
               Inl p \<Rightarrow> Inl p
             | Inr w \<Rightarrow>
                 if w < 0 then Inr (Inl (ErrInvalidBinding ''weight callback returned a negative value''))
                 else Inr (Inr w)))"

definition callBytes :: "('k, 'v) opConfig \<Rightarrow> 'k \<Rightarrow> int called" where
  "callBytes cfg key =
     (let n = EstimateBytes (cf_keys (oc_coord cfg)) key
      in keyCall cfg ''key size'' key (if n < 0 then 0 else n))"

section \<open>Recursion detection\<close>

definition markExec :: "Ctx \<Rightarrow> string \<Rightarrow> string \<Rightarrow> Ctx" where
  "markExec ctx opID part = ctx\<lparr>cx_exec := (opID, part) # cx_exec ctx\<rparr>"

definition executing :: "Ctx \<Rightarrow> string \<Rightarrow> string \<Rightarrow> bool" where
  "executing ctx opID part \<longleftrightarrow> list_ex (\<lambda>(i, p). i = opID \<and> p = part) (cx_exec ctx)"

section \<open>Do\<close>

record ('k, 'v) opState =
  op_coord :: "('k, 'v) coordinator"
  op_memo :: "(u64, ('k, 'v) memoTable) gomap"
  op_nextCh :: chan
  op_cancels :: "cancelReq list"
  op_controls :: "controlReq list"

record ('k, 'v) world =
  wd_rt :: rt
  wd_op :: "('k, 'v) opState"

datatype 'v doResult = DoReturn "'v option" "rt_error option" | DoPanic panicValue

datatype ('k, 'v) doStep = DoDone "'v doResult" | DoSubmit addr Partition 'k "'k submitReq"

abbreviation failWith :: "rt_error \<Rightarrow> ('k, 'v) doStep" where
  "failWith e \<equiv> DoDone (DoReturn None (Some e))"

fun withCall :: "'a called \<Rightarrow> ('a \<Rightarrow> ('k, 'v) doStep \<times> 'w) \<Rightarrow> 'w \<Rightarrow> ('k, 'v) doStep \<times> 'w" where
  "withCall (CValue v) k w = k v"
| "withCall (CError e) k w = (failWith e, w)"
| "withCall (CPanic p) k w = (DoDone (DoPanic p), w)"

definition updOp :: "(('k, 'v) opState \<Rightarrow> ('k, 'v) opState) \<Rightarrow> ('k, 'v) world \<Rightarrow> ('k, 'v) world" where
  "updOp f w = w\<lparr>wd_op := f (wd_op w)\<rparr>"

definition updCoord :: "('k, 'v) coord_op \<Rightarrow> ('k, 'v) world \<Rightarrow> ('k, 'v) world" where
  "updCoord f = updOp (\<lambda>o1. o1\<lparr>op_coord := f (op_coord o1)\<rparr>)"

definition worldEmit :: "('k, 'v) opConfig \<Rightarrow> EventKind \<Rightarrow> string \<Rightarrow> string \<Rightarrow> ('k, 'v) world \<Rightarrow> ('k, 'v) world" where
  "worldEmit cfg kind part scopeID w =
     w\<lparr>wd_rt := updEngine (engineEmit kind (cf_opID (oc_coord cfg)) part scopeID) (wd_rt w)\<rparr>"

definition memoTableFor :: "u64 \<Rightarrow> ('k, 'v) opState \<Rightarrow> ('k, 'v) memoTable \<times> ('k, 'v) opState" where
  "memoTableFor sid o1 =
     (case map_of (op_memo o1) sid of
        Some t \<Rightarrow> (t, o1)
      | None \<Rightarrow> (memo_empty, o1\<lparr>op_memo := AList.update sid memo_empty (op_memo o1)\<rparr>))"

definition dropMemo :: "u64 \<Rightarrow> ('k, 'v) opState \<Rightarrow> ('k, 'v) opState" where
  "dropMemo sid o1 = o1\<lparr>op_memo := AList.delete sid (op_memo o1)\<rparr>"

definition runFallback ::
  "('k, 'v) opConfig \<Rightarrow> Ctx \<Rightarrow> 'k \<Rightarrow> ('k, 'v) world \<Rightarrow> 'v doResult \<times> ('k, 'v) world" where
  "runFallback cfg ctx key w =
     (case oc_fallback cfg of
        None \<Rightarrow> (DoReturn None (Some ErrScopeRequired), w)
      | Some fb \<Rightarrow>
          (let w = updCoord (tally (\<lambda>n. n\<lparr>n_fallbacks := Suc (n_fallbacks n),
                 n_totalFallbacks := Suc (n_totalFallbacks n)\<rparr>)) w;
               w = worldEmit cfg EventFallbackStarted [] [] w;
               (v, err) = fb ctx key
           in (DoReturn v err, worldEmit cfg EventFallbackCompleted [] [] w)))"

definition finishMemo :: "'v option \<times> bool \<Rightarrow> 'v doResult" where
  "finishMemo r = (case r of (v, found) \<Rightarrow>
     if found then DoReturn v None else DoReturn None (Some ErrMissingResult))"

definition scopeIDOf :: "addr \<Rightarrow> ('k, 'v) world \<Rightarrow> u64" where
  "scopeIDOf a w = so_id (rt_scopes (wd_rt w) ! a)"

text \<open>The memo lookup of Do: \<open>Inl\<close> is an answer, \<open>Inr\<close> the world to go on with.\<close>

definition memoLookup ::
  "('k, 'v) opConfig \<Rightarrow> addr \<Rightarrow> Partition \<Rightarrow> 'k \<Rightarrow> ('k, 'v) world \<Rightarrow> 'v doResult option \<times> ('k, 'v) world" where
  "memoLookup cfg a part key w =
     (if \<not> oc_memoEnabled cfg then (None, w)
      else
        (let (t, o1) = memoTableFor (scopeIDOf a w) (wd_op w); w = w\<lparr>wd_op := o1\<rparr> in
         case oc_panics cfg ''key hash'' key of
           Some p \<Rightarrow> (Some (DoPanic p), w)
         | None \<Rightarrow>
             (case memo_get (cf_keys (oc_coord cfg)) t part key of
                None \<Rightarrow> (None, w)
              | Some r \<Rightarrow>
                  (let w = updCoord (tally (\<lambda>n. n\<lparr>n_memoHits := Suc (n_memoHits n),
                         n_totalCallsSaved := Suc (n_totalCallsSaved n)\<rparr>)) w
                   in (Some (finishMemo r),
                       worldEmit cfg EventMemoHit (encoded part) (ScopeID_String (scopeIDOf a w)) w)))))"

definition newWaiter :: "Ctx \<Rightarrow> ('k, 'v) world \<Rightarrow> waiter \<times> ('k, 'v) world" where
  "newWaiter ctx w =
     (let (i, c) = nextRequestID (op_coord (wd_op w)); ch = op_nextCh (wd_op w);
          w = updOp (\<lambda>o1. o1\<lparr>op_coord := c, op_nextCh := Suc ch\<rparr>) w;
          (dl, has) = (case cx_deadline ctx of Some d \<Rightarrow> (d, True) | None \<Rightarrow> (0, False))
      in (\<lparr>w_id = i, w_ch = ch, w_active = True, w_deadline = dl, w_hasDeadline = has\<rparr>, w))"

definition Do_submit ::
  "nat \<Rightarrow> ('k, 'v) opConfig \<Rightarrow> Ctx \<Rightarrow> addr \<Rightarrow> Partition \<Rightarrow> 'k \<Rightarrow> ('k, 'v) world \<Rightarrow> ('k, 'v) doStep \<times> ('k, 'v) world" where
  "Do_submit h cfg ctx a part keyClone w =
     withCall (callHash cfg keyClone) (\<lambda>hash.
     withCall (callWeight cfg keyClone) (\<lambda>weight.
     withCall (callBytes cfg keyClone) (\<lambda>bytes.
       (let (wt, w) = newWaiter ctx w;
            w = w\<lparr>wd_rt := trackOp a h (wd_rt w)\<rparr>;
            rc = op_nextCh (wd_op w);
            w = updOp (\<lambda>o1. o1\<lparr>op_nextCh := Suc rc\<rparr>) w
        in (DoSubmit a part keyClone \<lparr>s_part = part, s_key = keyClone, s_hash = hash, s_weight = weight,
              s_bytes = bytes, s_waiter = wt, s_reply = rc\<rparr>, w))) w) w) w"

definition Do_scoped ::
  "nat \<Rightarrow> ('k, 'v) opConfig \<Rightarrow> Ctx \<Rightarrow> 'k \<Rightarrow> addr \<Rightarrow> Partition \<Rightarrow> ('k, 'v) world \<Rightarrow> ('k, 'v) doStep \<times> ('k, 'v) world" where
  "Do_scoped h cfg ctx key a part w =
     withCall (callClone cfg key) (\<lambda>keyClone.
       (case memoLookup cfg a part keyClone w of
          (Some r, w) \<Rightarrow> (DoDone r, w)
        | (None, w) \<Rightarrow>
            if executing ctx (cf_opID (oc_coord cfg)) (encoded part) then
              (if oc_fallback cfg \<noteq> None then apfst DoDone (runFallback cfg ctx key w)
               else (failWith ErrRecursiveOperation, w))
            else Do_submit h cfg ctx a part keyClone w)) w"

definition Do_prepare ::
  "nat \<Rightarrow> ('k, 'v) opConfig \<Rightarrow> Ctx \<Rightarrow> 'k \<Rightarrow> ('k, 'v) world \<Rightarrow> ('k, 'v) doStep \<times> ('k, 'v) world" where
  "Do_prepare h cfg ctx key w =
     (case cx_err ctx of
        Some e \<Rightarrow> (failWith e, w)
      | None \<Rightarrow>
          withCall (callPartitioner cfg ctx key) (\<lambda>part.
            (let direct = oc_fallback cfg \<noteq> None \<and> \<not> oc_requireScope cfg in
             case ScopeFromContext ctx of
               None \<Rightarrow>
                 if direct then apfst DoDone (runFallback cfg ctx key w) else (failWith ErrScopeRequired, w)
             | Some a \<Rightarrow>
                 (case checkOpen a (wd_rt w) of
                    Some e \<Rightarrow> (failWith e, w)
                  | None \<Rightarrow>
                      (case acceptingSubmissions (rt_engine (wd_rt w)) of
                         Some e \<Rightarrow>
                           if direct then apfst DoDone (runFallback cfg ctx key w) else (failWith e, w)
                       | None \<Rightarrow> Do_scoped h cfg ctx key a part w)))) w)"

definition finish ::
  "(string \<Rightarrow> u64) \<Rightarrow> ('k, 'v) opConfig \<Rightarrow> addr \<Rightarrow> Partition \<Rightarrow> 'k \<Rightarrow> 'v res \<Rightarrow> ('k, 'v) world \<Rightarrow>
   'v doResult \<times> ('k, 'v) world" where
  "finish mh cfg a part key r w =
     (let put = (\<lambda>v found.
            (let (t, o1) = memoTableFor (scopeIDOf a w) (wd_op w);
                 t = memo_put mh (cf_keys (oc_coord cfg)) (oc_memo cfg) t part key v found
             in w\<lparr>wd_op := o1\<lparr>op_memo := AList.update (scopeIDOf a w) t (op_memo o1)\<rparr>\<rparr>))
      in case res_err r of
           Some e \<Rightarrow> (DoReturn None (Some e), w)
         | None \<Rightarrow>
             if res_found r then
               (DoReturn (res_value r) None, if oc_memoEnabled cfg then put (res_value r) True else w)
             else
               (DoReturn None (Some ErrMissingResult),
                if oc_memoEnabled cfg \<and> oc_memoNegative cfg then put None False else w))"

definition sendCancel :: "cancelReq \<Rightarrow> ('k, 'v) world \<Rightarrow> ('k, 'v) world" where
  "sendCancel cr w =
     (if c_done (op_coord (wd_op w)) then w else updOp (\<lambda>o1. o1\<lparr>op_cancels := op_cancels o1 @ [cr]\<rparr>) w)"

datatype 'a observed = Received 'a | CtxEnded rt_error | CoordDone

record 'v selects =
  sel_submit :: "unit observed"
  sel_admit :: "rt_error option observed"
  sel_result :: "'v res observed"

text \<open>errors.Is against the internal fallback sentinel, which nothing wraps.\<close>

definition isFallbackSentinel :: "rt_error \<Rightarrow> bool" where
  "isFallbackSentinel e \<longleftrightarrow> e = errFallbackSentinel"

definition Do_await ::
  "(string \<Rightarrow> u64) \<Rightarrow> ('k, 'v) opConfig \<Rightarrow> Ctx \<Rightarrow> 'k \<Rightarrow> 'v selects \<Rightarrow> addr \<Rightarrow> Partition \<Rightarrow> 'k \<Rightarrow> 'k submitReq \<Rightarrow>
   ('k, 'v) world \<Rightarrow> 'v doResult \<times> ('k, 'v) world" where
  "Do_await mh cfg ctx key sel a part keyClone req w =
     (case sel_submit sel of
        CtxEnded e \<Rightarrow> (DoReturn None (Some e), w)
      | CoordDone \<Rightarrow> (DoReturn None (Some ErrEngineClosed), w)
      | Received _ \<Rightarrow>
          (case sel_admit sel of
             CtxEnded e \<Rightarrow>
               (DoReturn None (Some e),
                sendCancel \<lparr>x_part = [], x_waiterID = w_id (s_waiter req), x_blocked = True\<rparr> w)
           | CoordDone \<Rightarrow> (DoReturn None (Some ErrEngineClosed), w)
           | Received (Some e) \<Rightarrow>
               if isFallbackSentinel e then runFallback cfg ctx key w else (DoReturn None (Some e), w)
           | Received None \<Rightarrow>
               (case sel_result sel of
                  Received r \<Rightarrow> finish mh cfg a part keyClone r w
                | CtxEnded e \<Rightarrow>
                    (DoReturn None (Some e),
                     sendCancel \<lparr>x_part = encoded part, x_waiterID = w_id (s_waiter req), x_blocked = False\<rparr> w)
                | CoordDone \<Rightarrow> (DoReturn None (Some ErrEngineClosed), w))))"

definition Do ::
  "(string \<Rightarrow> u64) \<Rightarrow> nat \<Rightarrow> ('k, 'v) opConfig \<Rightarrow> Ctx \<Rightarrow> 'k \<Rightarrow> 'v selects \<Rightarrow> ('k, 'v) world \<Rightarrow>
   'v doResult \<times> ('k, 'v) world" where
  "Do mh h cfg ctx key sel w =
     (case Do_prepare h cfg ctx key w of
        (DoDone r, w) \<Rightarrow> (r, w)
      | (DoSubmit a part keyClone req, w) \<Rightarrow> Do_await mh cfg ctx key sel a part keyClone req w)"

section \<open>Control requests\<close>

text \<open>The two selects of control: \<open>sent\<close> and \<open>answer\<close> are what they observe.\<close>

definition control ::
  "controlKind \<Rightarrow> nat option \<Rightarrow> unit observed \<Rightarrow> rt_error option observed \<Rightarrow> ('k, 'v) opState \<Rightarrow>
   rt_error option \<times> ('k, 'v) opState" where
  "control kind ctx sent answer o1 =
     (let ch = op_nextCh o1; o1 = o1\<lparr>op_nextCh := Suc ch\<rparr> in
      case sent of
        CoordDone \<Rightarrow> (None, o1)
      | CtxEnded e \<Rightarrow> (Some e, o1)
      | Received _ \<Rightarrow>
          (let o1 = o1\<lparr>op_controls := op_controls o1 @ [\<lparr>t_kind = kind, t_reply = ch, t_ctx = ctx\<rparr>]\<rparr> in
           case answer of
             Received err \<Rightarrow> (err, o1)
           | CoordDone \<Rightarrow> (None, o1)
           | CtxEnded e \<Rightarrow> (Some e, o1)))"

definition op_flush where "op_flush = control controlFlush"

definition op_drain where "op_drain = control controlDrain"

definition closeController where "closeController = control controlClose"

section \<open>Statistics (statistics.go)\<close>

definition flushReasonNames :: "(FlushReason \<times> string) list" where
  "flushReasonNames = [(FlushManual, ''manual''), (FlushSize, ''size''), (FlushWeight, ''weight''),
     (FlushBytes, ''bytes''), (FlushWait, ''wait''), (FlushDeadline, ''deadline''),
     (FlushScopeClose, ''scope-close''), (FlushEngineClose, ''engine-close''), (FlushOverflow, ''overflow'')]"

record OperationStats =
  os_Operation :: string
  os_ActivePartitions :: int
  os_QueuedItems :: int
  os_QueuedWaiters :: int
  os_ActiveProviderCalls :: int
  os_Batches :: nat
  os_TotalBatchItems :: nat
  os_MaxBatchSize :: int
  os_InFlightJoins :: nat
  os_MemoHits :: nat
  os_Fallbacks :: nat
  os_ProviderErrors :: nat
  os_ItemErrors :: nat
  os_QueueRejections :: nat
  os_FlushReasons :: "(string, nat) gomap"

text \<open>The array of sixteen counters has nine reasons; the others stay zero and are skipped.\<close>

definition opSnapshot :: "string \<Rightarrow> counters \<Rightarrow> OperationStats" where
  "opSnapshot operation n = \<lparr>os_Operation = operation, os_ActivePartitions = n_activePartitions n,
     os_QueuedItems = n_queuedItems n, os_QueuedWaiters = n_queuedWaiters n,
     os_ActiveProviderCalls = n_activeProviderCalls n, os_Batches = n_batches n,
     os_TotalBatchItems = n_totalBatchItems n, os_MaxBatchSize = n_maxBatchSize n,
     os_InFlightJoins = n_inFlightJoins n, os_MemoHits = n_memoHits n, os_Fallbacks = n_fallbacks n,
     os_ProviderErrors = n_providerErrors n, os_ItemErrors = n_itemErrors n,
     os_QueueRejections = n_queueRejections n,
     os_FlushReasons = [(name, n_flushReasons n r). (r, name) \<leftarrow> flushReasonNames, n_flushReasons n r > 0]\<rparr>"

record StatisticsSnapshot =
  ss_State :: EngineState
  ss_ActiveScopes :: int
  ss_BoundOperations :: nat
  ss_ActivePartitions :: int
  ss_QueuedItems :: int
  ss_QueuedWaiters :: int
  ss_ActiveProviderCalls :: int
  ss_TotalProviderCalls :: nat
  ss_TotalRequests :: nat
  ss_TotalBackendItems :: nat
  ss_TotalCallsSaved :: nat
  ss_TotalFallbacks :: nat
  ss_TotalCancellations :: nat
  ss_TotalContractViolations :: nat
  ss_Operations :: "OperationStats list"

text \<open>
  Engine.Snapshot with the gauges it sums over the operations; \<open>stats\<close> is the interface call, and
  \<open>tot\<close> holds the cumulative counters that the operations of the engine share.
\<close>

primrec addStats :: "OperationStats list \<Rightarrow> StatisticsSnapshot \<Rightarrow> StatisticsSnapshot" where
  "addStats [] s = s"
| "addStats (x # xs) s = addStats xs (s\<lparr>ss_Operations := ss_Operations s @ [x],
     ss_ActivePartitions := ss_ActivePartitions s + os_ActivePartitions x,
     ss_QueuedItems := ss_QueuedItems s + os_QueuedItems x,
     ss_QueuedWaiters := ss_QueuedWaiters s + os_QueuedWaiters x,
     ss_ActiveProviderCalls := ss_ActiveProviderCalls s + os_ActiveProviderCalls x\<rparr>)"

definition Engine_Snapshot :: "(nat \<Rightarrow> OperationStats) \<Rightarrow> counters \<Rightarrow> Engine \<Rightarrow> StatisticsSnapshot" where
  "Engine_Snapshot stats tot e =
     (let ops = controllersSnapshot e
      in addStats (map stats ops) \<lparr>ss_State = en_state e, ss_ActiveScopes = en_activeScopes e,
           ss_BoundOperations = length ops, ss_ActivePartitions = 0, ss_QueuedItems = 0, ss_QueuedWaiters = 0,
           ss_ActiveProviderCalls = 0, ss_TotalProviderCalls = n_totalProviderCalls tot,
           ss_TotalRequests = n_totalRequests tot, ss_TotalBackendItems = n_totalBackendItems tot,
           ss_TotalCallsSaved = n_totalCallsSaved tot, ss_TotalFallbacks = n_totalFallbacks tot,
           ss_TotalCancellations = n_totalCancellations tot,
           ss_TotalContractViolations = n_totalContractViolations tot, ss_Operations = []\<rparr>)"

lemma addStats_sums:
  "ss_Operations (addStats xs s) = ss_Operations s @ xs"
  "ss_QueuedWaiters (addStats xs s) = ss_QueuedWaiters s + (\<Sum>x\<leftarrow>xs. os_QueuedWaiters x)"
  "ss_ActiveProviderCalls (addStats xs s) = ss_ActiveProviderCalls s + (\<Sum>x\<leftarrow>xs. os_ActiveProviderCalls x)"
  "ss_BoundOperations (addStats xs s) = ss_BoundOperations s"
  by (induction xs arbitrary: s) simp_all

end
