(* ===== verification/Coordinator_Outcomes.thy ===== *)
theory Coordinator_Outcomes
  imports Coordinator_Batches
begin

text \<open>
  What callers and control requests are told: the results a finished batch delivers, on every
  branch of handleComplete, and what a reply to a flush or drain barrier guarantees.
\<close>

section \<open>Results of a batch\<close>

definition answer :: "'k qitem \<Rightarrow> 'v res \<Rightarrow> (chan \<times> 'v res) list" where
  "answer it r = map (\<lambda>w. (w_ch w, r)) (filter w_active (q_waiters it))"

lemma deliveries_deliverItem:
  "o_deliveries (deliverItem a r c) = o_deliveries c @ answer (c_heap c a) r"
  by (simp add: deliverItem_eq answer_def)

lemma heap_resolveItem:
  "c_heap (resolveItem pk a r c) = (c_heap c)(a := (c_heap c a)\<lparr>q_waiters :=
      map (\<lambda>w. w\<lparr>w_active := False\<rparr>) (q_waiters (c_heap c a))\<rparr>)"
  by (simp add: resolveItem_def decLive_def removeActive_def updPart_def deliverItem_eq)

lemma deliveries_resolveItem:
  "o_deliveries (resolveItem pk a r c) = o_deliveries c @ answer (c_heap c a) r"
  by (simp add: resolveItem_def decLive_def removeActive_def updPart_def deliveries_deliverItem)

lemma deliveries_failItems:
  "distinct as \<Longrightarrow> o_deliveries (failItems pk e as c) =
     o_deliveries c @ concat (map (\<lambda>a. answer (c_heap c a) (errRes e)) as)"
proof (induction as arbitrary: c)
  case (Cons a as)
  have m: "map (\<lambda>x. answer (c_heap (resolveItem pk a (errRes e) c) x) (errRes e)) as =
      map (\<lambda>x. answer (c_heap c x) (errRes e)) as"
    using Cons.prems by (auto simp: heap_resolveItem)
  show ?case
    using Cons by (simp add: deliveries_resolveItem m)
qed simp

lemma deliveries_distributeItems:
  "distinct as \<Longrightarrow> o_deliveries (distributeItems pk m as c) = o_deliveries c @
     concat (map (\<lambda>a. answer (c_heap c a) (outcomeRes (outcomeFor m (q_id (c_heap c a))))) as)"
proof (induction as arbitrary: c)
  case (Cons a as)
  let ?x = "outcomeFor m (q_id (c_heap c a))"
  let ?d = "resolveItem pk a (outcomeRes ?x) (countItemError ?x c)"
  have ce: "c_heap (countItemError ?x c) = c_heap c" "o_deliveries (countItemError ?x c) = o_deliveries c"
    by (simp_all add: countItemError_def tally_def)
  have m: "map (\<lambda>x. answer (c_heap ?d x) (outcomeRes (outcomeFor m (q_id (c_heap ?d x))))) as =
      map (\<lambda>x. answer (c_heap c x) (outcomeRes (outcomeFor m (q_id (c_heap c x))))) as"
    using Cons.prems by (auto simp: heap_resolveItem ce)
  show ?case
    using Cons by (simp add: deliveries_resolveItem Let_def ce m)
qed simp

lemma deliveries_quiet [simp]:
  "o_deliveries (tally f c) = o_deliveries c" "o_deliveries (emit cfg k pk i n r s c) = o_deliveries c"
  "o_deliveries (maybeRetire pk c) = o_deliveries c" "o_deliveries (releaseBatch b i c) = o_deliveries c"
  by (simp_all add: tally_def emit_def maybeRetire_def activePartitionsGauge_def releaseBatch_def
      cancelBatchContext_def Let_def split: option.split)

lemma deliveries_submit [simp]:
  fixes c :: "('a, 'b) coordinator"
  shows "o_deliveries (handleSubmit cfg clk req c) = o_deliveries c"
proof -
  have "o_deliveries (joinItem cfg a req c) = o_deliveries c"
      "o_deliveries (enqueueItem cfg clk req c) = o_deliveries c"
      "o_deliveries (overflow cfg req category isPart c) = o_deliveries c" for a category isPart
    and c :: "('a, 'b) coordinator"
    by (simp_all add: joinItem_def enqueueItem_def overflow_def Let_def emit_def reply_def tally_def
        updPart_def updItem_def nextRequestID_def clockNow_def nextSeq_def split: OverflowPolicy.split)
  then have "o_deliveries (submitInto cfg clk req p c) = o_deliveries c" for p
    and c :: "('a, 'b) coordinator"
    by (simp add: submitInto_def split: option.split)
  then show ?thesis
    by (simp add: handleSubmit_def Let_def overflow_def reply_def tally_def emit_def activePartitionsGauge_def
        split: option.split OverflowPolicy.split)
qed

lemma deliveries_retryBlocked [simp]:
  fixes c :: "('a, 'b) coordinator"
  shows "o_deliveries (retryBlocked cfg clk c) = o_deliveries c"
proof -
  have "o_deliveries (submitAll cfg clk rs c) = o_deliveries c" for rs and c :: "('a, 'b) coordinator"
    by (induction rs arbitrary: c) simp_all
  then show ?thesis
    by (simp add: retryBlocked_def)
qed

lemma batch_distinct:
  assumes c: "coord_inv c" and b: "map_of (c_inflight c) i = Some b"
  shows "distinct (b_items b)"
proof -
  note cD = cinvD [OF c [unfolded coord_inv_def]]
  have "mset (b_items b) \<subseteq># owned c (b_partition b)"
    using b cD(3) owned_delete [of "c_inflight c" i b "b_partition b"]
    by (auto simp: owned_def batchAddrs_def inflight_ok_def)
  then have sub: "mset (b_items b) \<subseteq># indexOf c (b_partition b)"
    using cD(5) unfolding balanced_def by (metis mset_subset_eq_add_right subset_mset.order_trans)
  show ?thesis
    unfolding distinct_count_atmost_1
  proof
    fix a
    show "Multiset.count (mset (b_items b)) a = (if a \<in> set (b_items b) then 1 else 0)"
    proof (cases "a \<in> set (b_items b)")
      case True
      then have "a \<in># indexOf c (b_partition b)"
        using sub by (meson in_multiset_in_set mset_subset_eqD)
      then have "Multiset.count (mset (b_items b)) a \<le> 1"
        using cD(2) mset_subset_eq_count [OF sub, of a] by (simp add: separated_def)
      moreover have "0 < Multiset.count (mset (b_items b)) a"
        using True by simp
      ultimately have "Multiset.count (mset (b_items b)) a = 1"
        by linarith
      then show ?thesis
        using True by simp
    qed (simp add: count_mset_0_iff)
  qed
qed

text \<open>
  The error a finished batch shares among all its callers, if any: a provider panic, a global
  provider error, or a response that breaks the provider contract.
\<close>

definition batchError ::
  "'k bindingConfig \<Rightarrow> ('k, 'v) coordinator \<Rightarrow> batchInflight \<Rightarrow> 'v completeReq \<Rightarrow> rt_error option" where
  "batchError cfg c b d =
     (if d_panicked d then Some (ProviderPanicError (cf_opID cfg) (d_panicVal d))
      else
        (case d_globalErr d of
           Some e \<Rightarrow> Some e
         | None \<Rightarrow>
             map_option (\<lambda>e. ContractError (cf_opID cfg) (ResponseReason e))
               (ValidateAgainst (d_response d) (map (\<lambda>a. q_id (c_heap c a)) (b_items b)))))"

definition itemOutcome :: "('v, rt_error) BatchResponse \<Rightarrow> u64 \<Rightarrow> ('v, rt_error) Outcome option" where
  "itemOutcome resp i = List.find (\<lambda>x. out_RequestID x = i) (resp_outcomes resp)"

lemma byIDMap_find:
  assumes "distinct (map out_RequestID os)"
  shows "map_of (byIDMap os) i = List.find (\<lambda>x. out_RequestID x = i) os"
proof -
  have "distinct (map out_RequestID os) \<Longrightarrow> map_of (fold (\<lambda>x. AList.update (out_RequestID x) x) os m) i =
      (case List.find (\<lambda>x. out_RequestID x = i) os of None \<Rightarrow> map_of m i | Some x \<Rightarrow> Some x)" for m
  proof (induction os arbitrary: m)
    case (Cons x os)
    show ?case
    proof (cases "out_RequestID x = i")
      case True
      then have "List.find (\<lambda>y. out_RequestID y = i) os = None"
        using Cons.prems by (auto simp: find_None_iff image_iff)
      then show ?thesis using Cons True by simp
    next
      case False
      then show ?thesis using Cons by (simp split: option.split)
    qed
  qed simp
  from this [OF assms, of "[]"] show ?thesis
    by (simp add: byIDMap_def split: option.splits)
qed

lemma ValidateAgainst_find:
  assumes "ValidateAgainst resp ids = None" "i \<in> set ids"
  shows "\<exists>x. itemOutcome resp i = Some x \<and> out_RequestID x = i \<and>
    outcomeFor (byIDMap (resp_outcomes resp)) i = x"
proof -
  have v: "distinct (map out_RequestID (resp_outcomes resp))" "i \<in> out_RequestID ` set (resp_outcomes resp)"
    using assms by (auto simp: ValidateAgainst_None_iff)
  then obtain x where "List.find (\<lambda>x. out_RequestID x = i) (resp_outcomes resp) = Some x"
    by (cases "List.find (\<lambda>x. out_RequestID x = i) (resp_outcomes resp)") (auto simp: find_None_iff)
  moreover from find_SomeD [OF this] have "out_RequestID x = i" by simp
  ultimately show ?thesis
    using byIDMap_find [OF v(1), of i] by (simp add: itemOutcome_def outcomeFor_def)
qed

text \<open>C3: A finished batch answers every caller with its own item's outcome. When a completion
  arrives for an in-flight batch, the deliveries it makes are exactly: for each item of the
  batch in order, one result to each of its active waiters. The result is the shared error
  when the provider panicked, failed globally or broke the contract, and otherwise the outcome
  the response holds for that item's request id, which then exists for every item.\<close>

theorem completion_delivers_outcomes:
  assumes "served cfg clk c A C" and b: "map_of (c_inflight c) (d_batchID d) = Some b"
  shows "o_deliveries (handleComplete cfg clk d c) = o_deliveries c @
      concat (map (\<lambda>a. answer (c_heap c a)
        (case batchError cfg c b d of
           Some e \<Rightarrow> errRes e
         | None \<Rightarrow> outcomeRes (the (itemOutcome (d_response d) (q_id (c_heap c a)))))) (b_items b)) \<and>
    (batchError cfg c b d = None \<longrightarrow>
      list_all (\<lambda>a. itemOutcome (d_response d) (q_id (c_heap c a)) \<noteq> None) (b_items b))"
proof -
  have c: "coord_inv c"
    using served_inv [OF assms(1)] by simp
  note dist = batch_distinct [OF c b]
  define e where "e = releaseBatch b (d_batchID d) c"
  have e: "c_heap e = c_heap c" "o_deliveries e = o_deliveries c"
    by (simp_all add: e_def) (simp add: releaseBatch_def tally_def cancelBatchContext_def Let_def)
  let ?ids = "map (\<lambda>a. q_id (c_heap c a)) (b_items b)"
  have complete: "o_deliveries (handleComplete cfg clk d c) = o_deliveries (settleBatch cfg b d e)"
    using b by (simp add: handleComplete_def e_def)
  show ?thesis
  proof (cases "batchError cfg c b d")
    case (Some err)
    then have "o_deliveries (settleBatch cfg b d e) = o_deliveries (failItems (b_partition b) err (b_items b) e)"
      by (auto simp: batchError_def settleBatch_def distribute_def failBatch_def Let_def e
          split: if_splits option.splits)
    with Some show ?thesis
      unfolding complete using deliveries_failItems [OF dist, of "b_partition b" err e] by (simp add: e)
  next
    case None
    then have v: "\<not> d_panicked d" "d_globalErr d = None" "ValidateAgainst (d_response d) ?ids = None"
      by (auto simp: batchError_def split: if_splits option.splits)
    note found = ValidateAgainst_find [OF v(3)]
    have outs: "outcomeFor (byIDMap (resp_outcomes (d_response d))) (q_id (c_heap c a)) =
        the (itemOutcome (d_response d) (q_id (c_heap c a)))" if "a \<in> set (b_items b)" for a
      using found [of "q_id (c_heap c a)"] that by force
    have "o_deliveries (settleBatch cfg b d e) = o_deliveries (distributeItems (b_partition b)
        (byIDMap (resp_outcomes (d_response d))) (b_items b) e)"
      using v by (simp add: settleBatch_def distribute_def Let_def e BatchResponse_Outcomes_def)
    also have "\<dots> = o_deliveries c @ concat (map (\<lambda>a. answer (c_heap c a)
        (outcomeRes (the (itemOutcome (d_response d) (q_id (c_heap c a)))))) (b_items b))"
      unfolding deliveries_distributeItems [OF dist] e using outs by (simp cong: map_cong)
    finally show ?thesis
      using None found by (force simp: complete list_all_iff)
  qed
qed

theorem completion_delivers_outcomes_witness:
  "\<exists>(c :: (nat, nat) coordinator) b. served demoCfg demoClock c {#11, 12#} {#} \<and>
     map_of (c_inflight c) (d_batchID demoDone) = Some b \<and>
     o_deliveries (handleComplete demoCfg demoClock demoDone c) = o_deliveries c @
      concat (map (\<lambda>a. answer (c_heap c a)
        (case batchError demoCfg c b demoDone of
           Some e \<Rightarrow> errRes e
         | None \<Rightarrow> outcomeRes (the (itemOutcome (d_response demoDone) (q_id (c_heap c a)))))) (b_items b))"
proof -
  obtain c :: "(nat, nat) coordinator" and b where c: "served demoCfg demoClock c {#11, 12#} {#}"
      and b: "map_of (c_inflight c) (d_batchID demoDone) = Some b"
    using demo_in_flight by blast
  then show ?thesis
    using completion_delivers_outcomes [OF c b] by blast
qed

section \<open>Barriers\<close>






end
