(* ===== verification/Runtime_Operation.thy ===== *)
theory Runtime_Operation
  imports Runtime_Binding Coordinator_Outcomes
begin

text \<open>
  What a bound operation guarantees: the configuration Bind accepts, the requests Do submits,
  and the composition of callers, binding and coordinator.
\<close>

section \<open>Bind\<close>

lemma merge_valid:
  "QueueLimits_Validate l \<Longrightarrow> QueueLimits_Validate m \<Longrightarrow> QueueLimits_Validate (QueueLimits_merge l m)"
  by (simp add: QueueLimits_Validate_def QueueLimits_merge_def)

lemma Bind_Inr:
  assumes "Bind mh msg h spec b e = Inr (cfg, e')"
  obtains keys where "en_state e = EngineStateOpen" "Spec_ValidationError msg spec = None" "bg_Provider b"
    "bg_Keys b = Some keys" "QueueLimits_Validate (bg_Limits b)"
    "registerController (spec_id spec) h e = Inr e'"
    "oc_coord cfg = bindCoord e spec keys (bg_Limits b) (bg_Overflow b)"
    "oc_fallback cfg = bg_Fallback b" "oc_panics cfg = bg_panics b"
    "dp_InFlight (deduplicationPolicy spec) \<longrightarrow> sem_deduplicationAllowed (spec_semantics spec)"
    "oc_memoEnabled cfg \<longrightarrow> sem_effect (spec_semantics spec) = EffectRead \<and>
       \<not> sem_freshnessDependent (spec_semantics spec) \<and> 1 \<le> memoMaxItems (oc_memo cfg)"
    "cf_overflow (oc_coord cfg) = OverflowFallback \<longrightarrow> oc_fallback cfg \<noteq> None"
  using assms
  by (auto simp: Bind_def ensureOpen_def Let_def split: if_splits option.splits sum.splits)

text \<open>C15: A successful Bind was done on an open engine with a valid spec and registers the operation under an
  identifier that was free. Its configuration has a batch size and a concurrency of at least
  one, non-negative limits, a fallback wherever overflow needs one, in-flight deduplication
  only where the semantics allow it, and memoization only for reads that are not freshness
  dependent, with a positive item limit.\<close>

theorem bind_sound:
  assumes "Bind mh msg h spec b e = Inr (cfg, e')" "QueueLimits_Validate (en_defaultLimits e)"
  shows "en_state e = EngineStateOpen \<and> Spec_ValidationError msg spec = None \<and>
    map_of (en_ops e) (spec_id spec) = None \<and> map_of (en_ops e') (spec_id spec) = Some h \<and>
    cf_opID (oc_coord cfg) = spec_id spec \<and>
    1 \<le> sc_maxBatchSize (cf_sched (oc_coord cfg)) \<and> 1 \<le> sc_maxConcurrency (cf_sched (oc_coord cfg)) \<and>
    0 \<le> sc_maxWait (cf_sched (oc_coord cfg)) \<and>
    QueueLimits_Validate (cf_limits (oc_coord cfg)) \<and>
    (cf_overflow (oc_coord cfg) = OverflowFallback \<longrightarrow> oc_fallback cfg \<noteq> None) \<and>
    (cf_dedupEnabled (oc_coord cfg) \<longrightarrow> sem_deduplicationAllowed (spec_semantics spec)) \<and>
    (oc_memoEnabled cfg \<longrightarrow> sem_effect (spec_semantics spec) = EffectRead \<and>
      \<not> sem_freshnessDependent (spec_semantics spec) \<and> 1 \<le> memoMaxItems (oc_memo cfg))"
proof -
  from assms(1) obtain keys where b: "en_state e = EngineStateOpen" "Spec_ValidationError msg spec = None"
    "QueueLimits_Validate (bg_Limits b)" "registerController (spec_id spec) h e = Inr e'"
    "oc_coord cfg = bindCoord e spec keys (bg_Limits b) (bg_Overflow b)"
    "dp_InFlight (deduplicationPolicy spec) \<longrightarrow> sem_deduplicationAllowed (spec_semantics spec)"
    "oc_memoEnabled cfg \<longrightarrow> sem_effect (spec_semantics spec) = EffectRead \<and>
       \<not> sem_freshnessDependent (spec_semantics spec) \<and> 1 \<le> memoMaxItems (oc_memo cfg)"
    "cf_overflow (oc_coord cfg) = OverflowFallback \<longrightarrow> oc_fallback cfg \<noteq> None"
    by (rule Bind_Inr) blast
  have r: "map_of (en_ops e) (spec_id spec) = None \<and> map_of (en_ops e') (spec_id spec) = Some h"
    using b(4) by (auto simp: registerController_def split: if_splits)
  have q: "SchedulerPolicy_Validate (schedulerPolicy spec) = None"
    using b(2) by (auto simp: Spec_ValidationError_def Let_def Spec_Validate_iff split: if_splits)
  then have "QueueLimits_Validate (specLimits (schedulerPolicy spec))" "0 \<le> sp_MaxWait (schedulerPolicy spec)"
    by (auto simp: SchedulerPolicy_Validate_def Let_def specLimits_def QueueLimits_Validate_def split: if_splits)
  then show ?thesis
    using b r assms(2) by (simp add: bindCoord_def Let_def merge_valid)
qed

section \<open>The requests Do submits\<close>











section \<open>Callers, binding and coordinator together\<close>




section \<open>Answers from the memo tables\<close>

text \<open>
  Histories of one operation's memo tables: requests are prepared, results finished, tables
  dropped when scopes close, and everything else may change, in any order. The log has the results
  that reached finish, with the scope's identifier, the partition and the key.
\<close>

inductive memo_hist ::
  "(string \<Rightarrow> u64) \<Rightarrow> nat \<Rightarrow> ('k, 'v) opConfig \<Rightarrow> ('k, 'v) world \<Rightarrow> (u64 \<times> string \<times> 'k \<times> 'v res) list \<Rightarrow> bool"
  for mh h cfg where
  start: "op_memo (wd_op w) = [] \<Longrightarrow> memo_hist mh h cfg w []"
| prepare: "memo_hist mh h cfg w log \<Longrightarrow> memo_hist mh h cfg (snd (Do_prepare h cfg ctx key w)) log"
| finished: "memo_hist mh h cfg w log \<Longrightarrow> wf_partition mh part \<Longrightarrow>
    memo_hist mh h cfg (snd (finish mh cfg a part k r w)) (log @ [(scopeIDOf a w, encoded part, k, r)])"
| drop: "memo_hist mh h cfg w log \<Longrightarrow> memo_hist mh h cfg (updOp (dropMemo sid) w) log"
| environment: "memo_hist mh h cfg w log \<Longrightarrow> op_memo (wd_op w') = op_memo (wd_op w) \<Longrightarrow> memo_hist mh h cfg w' log"

definition stored_from :: "u64 \<Rightarrow> (u64 \<times> string \<times> 'k \<times> 'v res) list \<Rightarrow> ('k, 'v) memoRecord \<Rightarrow> bool" where
  "stored_from sid log rc \<longleftrightarrow>
     (\<exists>r. (sid, r_part rc, r_key rc, r) \<in> set log \<and> res_err r = None \<and> r_found rc = res_found r \<and>
        (res_found r \<longrightarrow> r_value rc = res_value r))"

definition memo_ok ::
  "(string \<Rightarrow> u64) \<Rightarrow> ('k, 'v) opConfig \<Rightarrow> ('k, 'v) opState \<Rightarrow> (u64 \<times> string \<times> 'k \<times> 'v res) list \<Rightarrow> bool" where
  "memo_ok mh cfg o1 log \<longleftrightarrow>
     (\<forall>sid t. map_of (op_memo o1) sid = Some t \<longrightarrow>
        memo_inv mh (cf_keys (oc_coord cfg)) t \<and> (\<forall>rc\<in>set (memo_abs t). stored_from sid log rc))"

lemma memo_ok_table:
  assumes "memo_ok mh cfg o1 log" "memoTableFor sid o1 = (t, o2)"
  shows "memo_ok mh cfg o2 log" "memo_inv mh (cf_keys (oc_coord cfg)) t" "\<forall>rc\<in>set (memo_abs t). stored_from sid log rc"
  using assms by (auto simp: memoTableFor_def memo_ok_def memo_inv_empty split: option.splits if_splits)

lemma memo_ok_lookup:
  assumes "memo_ok mh cfg (wd_op w) log"
  shows "memo_ok mh cfg (wd_op (snd (memoLookup cfg a part key w))) log"
proof (cases "memoTableFor (scopeIDOf a w) (wd_op w)")
  case (Pair t o1)
  have "op_memo (wd_op (snd (memoLookup cfg a part key w))) = op_memo (if oc_memoEnabled cfg then o1 else wd_op w)"
    using Pair by (simp add: memoLookup_def Let_def worldEmit_def updCoord_def updOp_def split: option.split)
  then show ?thesis
    using assms memo_ok_table(1) [OF assms Pair] by (simp add: memo_ok_def split: if_splits)
qed

lemma op_memo_fallback [simp]: "op_memo (wd_op (snd (runFallback cfg ctx key w))) = op_memo (wd_op w)"
  by (simp add: runFallback_def Let_def worldEmit_def updCoord_def updOp_def split: option.split prod.split)

lemma withCall_memo:
  "(\<And>v. P (snd (k v))) \<Longrightarrow> P w \<Longrightarrow> P (snd (withCall c k w))"
  by (cases c) simp_all

lemma memo_ok_prepare:
  assumes "memo_ok mh cfg (wd_op w) log"
  shows "memo_ok mh cfg (wd_op (snd (Do_prepare h cfg ctx key w))) log"
proof -
  have same: "memo_ok mh cfg (wd_op w2) log" if "op_memo (wd_op w2) = op_memo (wd_op w1)" "memo_ok mh cfg (wd_op w1) log"
    for w1 w2 :: "('a, 'b) world"
    using that by (simp add: memo_ok_def)
  have submit: "op_memo (wd_op (snd (Do_submit h cfg ctx a part k w1))) = op_memo (wd_op w1)" for a part k and w1 :: "('a, 'b) world"
    unfolding Do_submit_def
    by (intro withCall_memo [where P = "\<lambda>w. op_memo (wd_op w) = op_memo (wd_op w1)"])
      (simp_all add: newWaiter_def Let_def updOp_def split: prod.split option.split)
  have scoped: "memo_ok mh cfg (wd_op (snd (Do_scoped h cfg ctx key a part w))) log" for a part
    unfolding Do_scoped_def
  proof (intro withCall_memo [where P = "\<lambda>w. memo_ok mh cfg (wd_op w) log"] assms)
    fix k
    obtain r w1 where m: "memoLookup cfg a part k w = (r, w1)" by fastforce
    then have "memo_ok mh cfg (wd_op w1) log"
      using memo_ok_lookup [OF assms, of a part k] by simp
    then show "memo_ok mh cfg (wd_op (snd (case memoLookup cfg a part k w of
          (None, w) \<Rightarrow> if executing ctx (cf_opID (oc_coord cfg)) (encoded part)
             then if oc_fallback cfg \<noteq> None then apfst DoDone (runFallback cfg ctx key w) else (failWith ErrRecursiveOperation, w)
             else Do_submit h cfg ctx a part k w
        | (Some r, w) \<Rightarrow> (DoDone r, w)))) log"
      using same [OF submit, of w1 a part k] same [OF op_memo_fallback, of w1] by (simp add: m split: option.split)
  qed
  have fb: "memo_ok mh cfg (wd_op (snd (runFallback cfg ctx key w))) log"
    using op_memo_fallback assms by (rule same)
  show ?thesis
  proof (cases "cx_err ctx")
    case None
    show ?thesis
      unfolding Do_prepare_def None option.case
      by (intro withCall_memo [where P = "\<lambda>w. memo_ok mh cfg (wd_op w) log"] assms)
        (simp add: Let_def assms scoped fb split: option.split)
  qed (simp add: Do_prepare_def assms)
qed

lemma stored_from_mono: "stored_from sid log rc \<Longrightarrow> stored_from sid (log @ rest) rc"
  by (auto simp: stored_from_def)

lemma memo_ok_mono: "memo_ok mh cfg o1 log \<Longrightarrow> memo_ok mh cfg o1 (log @ rest)"
  by (auto simp: memo_ok_def intro: stored_from_mono)

lemma memo_ok_put:
  assumes ks: "key_strategy (cf_keys (oc_coord cfg))" and wf: "wf_partition mh part"
    and ok: "memo_ok mh cfg o1 log" and t: "memoTableFor sid o1 = (t, o2)"
    and new: "stored_from sid log \<lparr>r_part = encoded part, r_key = k, r_value = v, r_found = f,
      r_bytes = EstimateBytes (cf_keys (oc_coord cfg)) k\<rparr>"
  shows "memo_ok mh cfg (o2\<lparr>op_memo := AList.update sid
    (memo_put mh (cf_keys (oc_coord cfg)) (oc_memo cfg) t part k v f) (op_memo o2)\<rparr>) log"
proof -
  let ?ks = "cf_keys (oc_coord cfg)"
  note tab = memo_ok_table [OF ok t]
  have p: "memo_inv mh ?ks (memo_put mh ?ks (oc_memo cfg) t part k v f)"
    "memo_abs (memo_put mh ?ks (oc_memo cfg) t part k v f) = spec_put ?ks (oc_memo cfg) (memo_abs t) part k v f"
    using key_strategy.put_refines [OF ks tab(2) wf] by simp_all
  have "stored_from sid log rc" if "rc \<in> set (spec_put ?ks (oc_memo cfg) (memo_abs t) part k v f)" for rc
    using that tab(3) new by (auto simp: spec_put_def dest!: set_spec_trim split: if_splits)
  then show ?thesis
    using tab(1) p by (simp add: memo_ok_def)
qed

lemma memo_ok_finish:
  assumes ks: "key_strategy (cf_keys (oc_coord cfg))" and wf: "wf_partition mh part"
    and ok: "memo_ok mh cfg (wd_op w) log"
  shows "memo_ok mh cfg (wd_op (snd (finish mh cfg a part k r w))) (log @ [(scopeIDOf a w, encoded part, k, r)])"
proof -
  obtain t o2 where t: "memoTableFor (scopeIDOf a w) (wd_op w) = (t, o2)" by fastforce
  note ok' = memo_ok_mono [OF ok, of "[(scopeIDOf a w, encoded part, k, r)]"]
  have put: "memo_ok mh cfg (o2\<lparr>op_memo := AList.update (scopeIDOf a w)
      (memo_put mh (cf_keys (oc_coord cfg)) (oc_memo cfg) t part k v f) (op_memo o2)\<rparr>)
      (log @ [(scopeIDOf a w, encoded part, k, r)])"
    if "res_err r = None" "f = res_found r" "f \<longrightarrow> v = res_value r" for v f
    by (rule memo_ok_put [OF ks wf ok' t]) (use that in \<open>auto simp: stored_from_def\<close>)
  show ?thesis
    using ok' put [of True "res_value r"] put [of False None] by (simp add: finish_def Let_def t split: option.split)
qed

lemma memo_hist_ok:
  assumes "key_strategy (cf_keys (oc_coord cfg))"
  shows "memo_hist mh h cfg w log \<Longrightarrow> memo_ok mh cfg (wd_op w) log"
proof (induction rule: memo_hist.induct)
  case (drop w log sid)
  then show ?case by (simp add: memo_ok_def updOp_def dropMemo_def)
next
  case (prepare w log ctx key)
  then show ?case by (intro memo_ok_prepare)
next
  case (finished w log part a k r)
  then show ?case by (intro memo_ok_finish [OF assms])
qed (simp_all add: memo_ok_def)

text \<open>C13: An answer from a memo table is genuine and stays in its scope: whatever callers, results and
  scope closures came before, a lookup that answers without the provider returns exactly
  what an earlier request received through this operation in the same scope, the same
  partition and for an equal key, and that result was not an error.\<close>

theorem memo_answers_are_genuine:
  assumes "memo_hist mh h cfg w log" "key_strategy (cf_keys (oc_coord cfg))" "wf_partition mh part"
    and "memoLookup cfg a part k w = (Some ans, w')" "oc_panics cfg ''key hash'' k = None"
  shows "\<exists>k' r. (scopeIDOf a w, encoded part, k', r) \<in> set log \<and> Equal (cf_keys (oc_coord cfg)) k' k \<and>
    res_err r = None \<and> ans = fst (finish mh cfg a part k r w)"
proof -
  let ?ks = "cf_keys (oc_coord cfg)"
  obtain t o2 where t: "memoTableFor (scopeIDOf a w) (wd_op w) = (t, o2)" by fastforce
  note tab = memo_ok_table [OF memo_hist_ok [OF assms(2,1)] t]
  obtain v f where g: "memo_get ?ks t part k = Some (v, f)" "ans = finishMemo (v, f)"
    using assms(4,5) by (auto simp: memoLookup_def t Let_def split: if_splits option.splits)
  then obtain rc where rc: "List.find (memoMatch ?ks (encoded part) k) (memo_abs t) = Some rc" "v = r_value rc" "f = r_found rc"
    using key_strategy.get_refines [OF assms(2) tab(2) assms(3)] by (auto simp: spec_get_def)
  then have "rc \<in> set (memo_abs t)" "r_part rc = encoded part" "Equal ?ks (r_key rc) k"
    using find_SomeD [OF rc(1)] by (simp_all add: memoMatch_def)
  moreover from this obtain r where "(scopeIDOf a w, r_part rc, r_key rc, r) \<in> set log" "res_err r = None"
    "r_found rc = res_found r" "res_found r \<longrightarrow> r_value rc = res_value r"
    using tab(3) by (auto simp: stored_from_def)
  ultimately show ?thesis
    using g(2) rc(2,3) by (intro exI [of _ "r_key rc"] exI [of _ r]) (auto simp: finishMemo_def finish_def Let_def)
qed

section \<open>Panics that are not isolated\<close>

text \<open>
  With memoization on, a key whose hash panics makes Do panic even under the recovering policy: the memo table
  calls the hash function outside recoverCallback.
\<close>

lemma memo_hash_panic_escapes:
  assumes "oc_memoEnabled cfg" "oc_panics cfg ''key hash'' (Clone (cf_keys (oc_coord cfg)) key) = Some p"
    and "callClone cfg key = CValue (Clone (cf_keys (oc_coord cfg)) key)"
    and "cx_err ctx = None" "callPartitioner cfg ctx key = CValue part" "ScopeFromContext ctx = Some a"
    and "checkOpen a (wd_rt w) = None" "acceptingSubmissions (rt_engine (wd_rt w)) = None"
  shows "fst (Do mh h cfg ctx key sel w) = DoPanic p"
proof -
  obtain t o2 where "memoTableFor (scopeIDOf a w) (wd_op w) = (t, o2)" by fastforce
  then have "memoLookup cfg a part (Clone (cf_keys (oc_coord cfg)) key) w = (Some (DoPanic p), w\<lparr>wd_op := o2\<rparr>)"
    using assms(1,2) by (simp add: memoLookup_def)
  then show ?thesis
    using assms by (simp add: Do_def Do_prepare_def Do_scoped_def)
qed

section \<open>A bound operation\<close>

definition demoSpec :: Spec where
  "demoSpec = (baseSpec ''demo.op'' ReadOnly)
     \<lparr>deduplicationPolicy := DefaultDeduplicationPolicy\<lparr>dp_Mode := DeduplicationExact, dp_InFlight := True,
        dp_ScopeMemoization := True, dp_MaxItems := 10, dp_MaxBytes := 1000\<rparr>\<rparr>"

definition demoBinding :: "(nat, nat) Binding" where
  "demoBinding = \<lparr>bg_Provider = True, bg_Keys = Some (comparableStrategy of_nat 8), bg_panics = (\<lambda>_ _. None),
     bg_Partitioner = None, bg_Weight = None, bg_Fallback = None,
     bg_Limits = \<lparr>MaxItems = 0, MaxWaiters = 8, MaxBytes = 0, MaxWeight = 0, MaxPartitions = 0\<rparr>,
     bg_Overflow = None, bg_RequireScope = False, bg_EnableMemoization = False\<rparr>"

definition demoBind :: "rt_error + (nat, nat) opConfig \<times> Engine" where
  "demoBind = Bind (\<lambda>_. 5) (\<lambda>_. []) 1 demoSpec demoBinding (rt_engine demoRt)"

definition demoOp :: "(nat, nat) opConfig" where "demoOp = fst (projr demoBind)"

definition demoWorld :: "(nat, nat) world" where
  "demoWorld = \<lparr>wd_rt = snd (NewScope NestedIsolateChild demoCtx demoRt),
     wd_op = \<lparr>op_coord = newCoordinator (\<lambda>_. demoItem) 0, op_memo = [], op_nextCh = 11, op_cancels = [], op_controls = []\<rparr>\<rparr>"

definition demoPrepared :: "(nat, nat) doStep \<times> (nat, nat) world" where
  "demoPrepared = Do_prepare 1 demoOp (ContextWithScope demoCtx 0) 7 demoWorld"


definition demoAnswer :: "nat res" where
  "demoAnswer = \<lparr>res_value = Some 42, res_err = None, res_found = True\<rparr>"

definition demoFinished :: "(nat, nat) world" where
  "demoFinished = snd (finish (\<lambda>_. 5) demoOp 0 (SinglePartition (\<lambda>_. 5)) 7 demoAnswer (snd demoPrepared))"

lemma demoOp_code [code]:
  "demoOp = \<lparr>oc_coord = bindCoord (rt_engine demoRt) demoSpec (comparableStrategy of_nat 8) (bg_Limits demoBinding) None,
     oc_partitioner = (\<lambda>_ k. Inr (singlePartitioner (\<lambda>_. 5) k)), oc_weight = None, oc_panics = (\<lambda>_ _. None),
     oc_fallback = None, oc_memoEnabled = True, oc_memoNegative = False,
     oc_memo = \<lparr>memoMaxItems = 10, memoMaxBytes = 1000\<rparr>, oc_requireScope = False, oc_panicPolicy = PanicPolicyRecover\<rparr>"
proof -
  have v: "Spec_ValidationError (\<lambda>_. []) demoSpec = None" by code_simp
  have d: "deduplicationPolicy demoSpec = DefaultDeduplicationPolicy\<lparr>dp_Mode := DeduplicationExact, dp_InFlight := True,
        dp_ScopeMemoization := True, dp_MaxItems := 10, dp_MaxBytes := 1000\<rparr>" "spec_semantics demoSpec = ReadOnly"
    by (simp_all add: demoSpec_def baseSpec_def)
  have o: "cf_overflow (bindCoord (rt_engine demoRt) demoSpec (comparableStrategy of_nat 8) (bg_Limits demoBinding) None) = OverflowBlock"
    by code_simp
  show ?thesis
    using o by (simp add: demoOp_def demoBind_def Bind_def v d ensureOpen_def demoBinding_def Let_def demoRt_def defaultEngine_def
        QueueLimits_Validate_def registerController_def DefaultDeduplicationPolicy_def ReadOnly_def zeroSemantics_def)
qed

lemma demo_bind: "Bind (\<lambda>_. 5) (\<lambda>_. []) 1 demoSpec demoBinding (rt_engine demoRt) = Inr (demoOp, snd (projr demoBind))"
proof -
  have "\<not> isl demoBind" by code_simp
  then show ?thesis
    unfolding demoOp_def by (simp add: demoBind_def)
qed

lemma demo_keys: "cf_keys (oc_coord demoOp) = comparableStrategy of_nat 8" "oc_panics demoOp = (\<lambda>_ _. None)"
  using demo_bind by (auto elim!: Bind_Inr simp: bindCoord_def Let_def demoBinding_def)


theorem bind_sound_witness:
  "1 \<le> sc_maxBatchSize (cf_sched (oc_coord demoOp)) \<and> QueueLimits_Validate (cf_limits (oc_coord demoOp)) \<and>
   oc_memoEnabled demoOp \<and> 1 \<le> memoMaxItems (oc_memo demoOp)"
proof -
  have "QueueLimits_Validate (en_defaultLimits (rt_engine demoRt))" "oc_memoEnabled demoOp"
    by code_simp+
  then show ?thesis
    using bind_sound [OF demo_bind] by blast
qed



theorem memo_answers_are_genuine_witness:
  "\<exists>k' r. (scopeIDOf 0 demoFinished, encoded (SinglePartition (\<lambda>_. 5)), k', r) \<in>
      set [(1, encoded (SinglePartition (\<lambda>_. 5)), 7, demoAnswer)] \<and> k' = 7 \<and>
     DoReturn (Some 42) None = fst (finish (\<lambda>_. 5) demoOp 0 (SinglePartition (\<lambda>_. 5)) 7 r demoFinished)"
proof -
  let ?p = "SinglePartition (\<lambda>_. 5)"
  have "memo_hist (\<lambda>_. 5) 1 demoOp demoWorld []"
    by (rule memo_hist.start) (simp add: demoWorld_def)
  then have "memo_hist (\<lambda>_. 5) 1 demoOp (snd demoPrepared) []"
    unfolding demoPrepared_def by (rule memo_hist.prepare)
  then have "memo_hist (\<lambda>_. 5) 1 demoOp demoFinished ([] @ [(scopeIDOf 0 (snd demoPrepared), encoded ?p, 7, demoAnswer)])"
    unfolding demoFinished_def by (rule memo_hist.finished) simp
  moreover have "scopeIDOf 0 (snd demoPrepared) = 1" by code_simp
  ultimately have h: "memo_hist (\<lambda>_. 5) 1 demoOp demoFinished [(1, encoded ?p, 7, demoAnswer)]" by simp
  have ks: "key_strategy (cf_keys (oc_coord demoOp))"
    unfolding demo_keys by (rule comparable.key_strategy_axioms)
  have "fst (memoLookup demoOp 0 ?p 7 demoFinished) = Some (DoReturn (Some 42) None)" by code_simp
  then have l: "memoLookup demoOp 0 ?p 7 demoFinished = (Some (DoReturn (Some 42) None), snd (memoLookup demoOp 0 ?p 7 demoFinished))"
    by (simp add: prod_eq_iff)
  from memo_answers_are_genuine [OF h ks _ l] show ?thesis
    by (auto simp: demo_keys comparableStrategy_def)
qed

end
