(* ===== verification/Coordinator_Dedup.thy ===== *)
theory Coordinator_Dedup
  imports Coordinator_Schedule
begin

text \<open>
  In-flight deduplication: no two items of a partition's index have equal keys, so concurrent
  requests for one key are one backend item. The key strategy is used through its contract
  \<open>key_strategy\<close>. Everything but a submission only shrinks the indexes and keeps the identity of
  items, which is the relation \<open>shrinks\<close>.
\<close>

section \<open>Operations that only shrink the indexes\<close>

definition shrinks :: "('k, 'v) coordinator \<Rightarrow> ('k, 'v) coordinator \<Rightarrow> bool" where
  "shrinks c d \<longleftrightarrow> (\<forall>pk. set_mset (indexOf d pk) \<subseteq> set_mset (indexOf c pk)) \<and>
     (\<forall>a. q_key (c_heap d a) = q_key (c_heap c a) \<and> q_hash (c_heap d a) = q_hash (c_heap c a))"

lemma shrinks_refl [simp]: "shrinks c c"
  by (simp add: shrinks_def)

lemma shrinks_trans: "shrinks c d \<Longrightarrow> shrinks d e \<Longrightarrow> shrinks c e"
  unfolding shrinks_def by (metis subset_trans)

lemma addrs_update_subset:
  "set_mset (addrsOf (AList.update h as m)) \<subseteq> set as \<union> set_mset (addrsOf m)"
  by (induction m) (auto simp: addrsOf_def)

lemma addrs_delete_subset: "set_mset (addrsOf (AList.delete h m)) \<subseteq> set_mset (addrsOf m)"
  by (induction m) (auto simp: addrsOf_def)

lemma goget_addrs: "set (goget m h) \<subseteq> set_mset (addrsOf m)"
  by (cases "map_of m h") (auto simp: goget_def intro: addrsOf_bucket)

lemma addrs_bucketRemove_subset:
  "set_mset (addrsOf (bucketRemove a h m)) \<subseteq> set_mset (addrsOf m)"
  using addrs_update_subset [of h "remove1 a (goget m h)" m] addrs_delete_subset [of h m]
    goget_addrs [of m h] set_remove1_subset [of a "goget m h"]
  by (auto simp: bucketRemove_def Let_def)

lemma indexOf_updPart:
  "indexOf (updPart pk f c) k = (if k = pk then (case partOf c pk of None \<Rightarrow> {#} | Some p \<Rightarrow> addrsOf (p_active (f p)))
     else indexOf c k)"
  by (simp add: indexOf_def split: option.split)

lemma indexOf_frame [simp]:
  "indexOf (tally f c) = indexOf c" "indexOf (emit cfg ek pk i n r s c) = indexOf c"
  "indexOf (updItem a h c) = indexOf c" "indexOf (cancelBatchContext i c) = indexOf c"
  "indexOf (c\<lparr>c_heap := hp\<rparr>) = indexOf c" "indexOf (c\<lparr>c_inflight := m\<rparr>) = indexOf c"
  "indexOf (c\<lparr>c_activeProvider := n'\<rparr>) = indexOf c" "indexOf (c\<lparr>c_batchSeq := b\<rparr>) = indexOf c"
  "indexOf (c\<lparr>o_workers := ws\<rparr>) = indexOf c" "indexOf (c\<lparr>e_reads := b\<rparr>) = indexOf c"
  "indexOf (c\<lparr>c_closing := cl\<rparr>) = indexOf c" "indexOf (c\<lparr>c_done := cl\<rparr>) = indexOf c"
  "indexOf (c\<lparr>c_timerActive := cl\<rparr>) = indexOf c" "indexOf (c\<lparr>c_timer := ti\<rparr>) = indexOf c"
  "indexOf (c\<lparr>o_replies := rs\<rparr>) = indexOf c" "indexOf (c\<lparr>c_barriers := bs\<rparr>) = indexOf c"
  "indexOf (c\<lparr>o_cancels := cs\<rparr>) = indexOf c" "indexOf (c\<lparr>c_blocked := bl\<rparr>) = indexOf c"
  "indexOf (c\<lparr>c_dyn := dy\<rparr>) = indexOf c" "indexOf (c\<lparr>e_requestSeq := rq\<rparr>) = indexOf c"
  by (simp_all add: fun_eq_iff indexOf_def tally_def emit_def updItem_def cancelBatchContext_def)

lemma shrinks_basic:
  "shrinks c (tally f c)" "shrinks c (emit cfg ek pk i n r s c)" "shrinks c (cancelBatchContext i c)"
  "shrinks c (removeActive pk a c)" "shrinks c (decLive pk c)" "shrinks c (decQueued c)"
  "shrinks c (deliverItem a r' c)" "shrinks c (maybeRetire pk c)"
  "shrinks c (updPart pk (\<lambda>p. p\<lparr>p_pending := f1 p\<rparr>) c)" "shrinks c (updPart pk (\<lambda>p. p\<lparr>p_bytes := f2 p\<rparr>) c)"
  "shrinks c (updPart pk (\<lambda>p. p\<lparr>p_weight := f2 p\<rparr>) c)" "shrinks c (updPart pk (\<lambda>p. p\<lparr>p_live := f2 p\<rparr>) c)"
  "shrinks c (updPart pk (\<lambda>p. p\<lparr>p_waiters := f2 p\<rparr>) c)"
  "shrinks c (updPart pk (\<lambda>p. p\<lparr>p_bytes := f2 p, p_weight := f3 p\<rparr>) c)"
  "shrinks c (updItem a (\<lambda>it. it\<lparr>q_waiters := g1 it, q_activeWaiters := g2 it\<rparr>) c)"
  "shrinks c (c\<lparr>c_inflight := m\<rparr>)"
proof -
  have idx: "indexOf (updPart pk f c) k = indexOf c k" if "\<And>p. p_active (f p) = p_active p" for f k
    using that by (auto simp: indexOf_def split: option.split)
  show "shrinks c (removeActive pk a c)"
    using addrs_bucketRemove_subset [of a "q_hash (c_heap c a)"]
    by (auto simp: shrinks_def removeActive_def indexOf_updPart indexOf_def split: option.splits)
  show "shrinks c (maybeRetire pk c)"
    by (auto simp: shrinks_def maybeRetire_def activePartitionsGauge_def tally_def indexOf_def partOf_def
        split: option.splits)
  show "shrinks c (deliverItem a r' c)"
    by (simp add: shrinks_def deliverItem_eq indexOf_def)
  show "shrinks c (updItem a (\<lambda>it. it\<lparr>q_waiters := g1 it, q_activeWaiters := g2 it\<rparr>) c)"
    by (simp add: shrinks_def) (simp add: updItem_def)
  show "shrinks c (updPart pk (\<lambda>p. p\<lparr>p_pending := f1 p\<rparr>) c)" "shrinks c (updPart pk (\<lambda>p. p\<lparr>p_bytes := f2 p\<rparr>) c)"
    "shrinks c (updPart pk (\<lambda>p. p\<lparr>p_weight := f2 p\<rparr>) c)" "shrinks c (updPart pk (\<lambda>p. p\<lparr>p_live := f2 p\<rparr>) c)"
    "shrinks c (updPart pk (\<lambda>p. p\<lparr>p_waiters := f2 p\<rparr>) c)"
    "shrinks c (updPart pk (\<lambda>p. p\<lparr>p_bytes := f2 p, p_weight := f3 p\<rparr>) c)" "shrinks c (decLive pk c)"
    by (simp_all add: shrinks_def idx decLive_def)
qed (simp_all add: shrinks_def, simp_all add: tally_def emit_def cancelBatchContext_def decQueued_def indexOf_def)

lemmas shrinks_step = shrinks_basic [THEN [2] shrinks_trans]

lemma shrinks_failItem: "shrinks c (failItem pk a e c)" "shrinks c (resolveItem pk a r c)"
    "shrinks c (countItemError x c)" "shrinks c (takeSelected pk s c)" "shrinks c (announceBatch cfg pk reason bid n c)"
    "shrinks c (removePendingItem pk a c)"
  unfolding failItem_def resolveItem_def countItemError_def takeSelected_def announceBatch_def
    removePendingItem_def Let_def
  by (simp_all del: indexOf_frame) (intro conjI impI shrinks_step shrinks_refl)+

lemma shrinks_registerBatch: "shrinks c (registerBatch pk s bid c)"
  by (simp add: shrinks_def registerBatch_def Let_def heap_markDispatched indexOf_def)

lemma shrinks_launchBatch: "shrinks c (launchBatch cfg pk reason s req c)"
proof -
  have "shrinks c (snd (nextBatchID c))" "shrinks c (startWorker wk c)" for wk and c :: "('a, 'b) coordinator"
    by (simp_all add: shrinks_def nextBatchID_def startWorker_def)
  note step = this [THEN [2] shrinks_trans] shrinks_registerBatch [THEN [2] shrinks_trans]
    shrinks_failItem(4,5) [THEN [2] shrinks_trans]
  show ?thesis
    unfolding launchBatch_def Let_def split_beta by (intro step shrinks_refl)
qed

lemmas shrinks_steps = shrinks_step shrinks_failItem [THEN [2] shrinks_trans]

lemma shrinks_prune: "shrinks c (prune pk c)"
proof (induction pk c rule: prune.induct)
  case (1 pk c)
  show ?case
    using "1.IH" shrinks_trans [OF shrinks_failItem(6)]
    by (subst prune.simps) (auto split: list.split)
qed

lemma shrinks_selectLoop: "shrinks c (snd (selectLoop cfg pk as s c))"
proof (induction as arbitrary: s c)
  case (Cons a as)
  have "shrinks c (decQueued (decLive pk (removeActive pk a c)))"
      "shrinks c (decQueued (failItem pk a ErrItemTooLarge c))"
    by (intro shrinks_steps shrinks_refl)+
  then show ?case
    using shrinks_trans [OF _ Cons] shrinks_trans [OF shrinks_refl Cons] by (simp add: Let_def)
qed simp

lemma shrinks_loops:
  "shrinks c (failRequest cfg pk e' as c)" "shrinks c (failItems pk e as c)"
  "shrinks c (distributeItems pk m as c)" "shrinks c (deliverItems as r c)"
proof -
  show "shrinks c (failRequest cfg pk e' as c)"
  proof (induction as arbitrary: c)
    case (Cons a as)
    show ?case by (simp, rule shrinks_trans [OF _ Cons], intro shrinks_steps shrinks_refl)
  qed simp
  show "shrinks c (failItems pk e as c)"
  proof (induction as arbitrary: c)
    case (Cons a as)
    show ?case by (simp, rule shrinks_trans [OF _ Cons], intro shrinks_steps shrinks_refl)
  qed simp
  show "shrinks c (distributeItems pk m as c)"
  proof (induction as arbitrary: c)
    case (Cons a as)
    show ?case by (simp add: Let_def, rule shrinks_trans [OF _ Cons], intro shrinks_steps shrinks_refl)
  qed simp
  show "shrinks c (deliverItems as r c)"
  proof (induction as arbitrary: c)
    case (Cons a as)
    show ?case by (simp, rule shrinks_trans [OF _ Cons], intro shrinks_steps shrinks_refl)
  qed simp
qed

lemma shrinks_dispatchBatch: "shrinks c (dispatchBatch cfg pk reason c)"
proof -
  obtain s c1 where sel: "selectLoop cfg pk (pendingOf c pk) noSelection c = (s, c1)"
    by fastforce
  have "shrinks c (updPart pk (\<lambda>p. p\<lparr>p_pending := sl_remaining s\<rparr>) c1)"
    using shrinks_selectLoop [of c cfg pk "pendingOf c pk" noSelection] sel
    by (intro shrinks_step) simp
  then show ?thesis
    using sel by (auto simp: dispatchBatch_def Let_def split: sum.split
        intro!: shrinks_trans [OF _ shrinks_loops(1)] shrinks_trans [OF _ shrinks_launchBatch])
qed

lemma shrinks_drainPartition: "shrinks c (drainPartition cfg pk force now c)"
proof (induction cfg pk force now c rule: drainPartition.induct)
  case (1 cfg pk force now c)
  then show ?case
    by (subst drainPartition.simps)
      (auto simp: Let_def shrinks_prune split: option.splits
        intro: shrinks_trans [OF shrinks_prune shrinks_trans [OF shrinks_dispatchBatch]])
qed

lemma shrinks_schedulePartitions: "shrinks c (schedulePartitions cfg force now pks c)"
proof (induction pks arbitrary: c)
  case (Cons pk pks)
  have "shrinks c (maybeRetire pk (drainPartition cfg pk force now c))"
    by (intro shrinks_step shrinks_drainPartition)
  from shrinks_trans [OF this Cons] Cons show ?case by simp
qed simp

lemma shrinks_schedule: "shrinks c (schedule cfg clk force c)"
  using shrinks_schedulePartitions [of "c\<lparr>e_reads := Suc (e_reads c)\<rparr>" cfg force "clk (e_reads c)"
    "partitionKeys (c\<lparr>e_reads := Suc (e_reads c)\<rparr>)"]
  by (simp add: schedule_def clockNow_def computeNextTimer_def shrinks_def split: option.split)

lemma shrinks_settleBatch: "shrinks c (settleBatch cfg b d c)"
  unfolding settleBatch_def distribute_def failBatch_def Let_def
  by (simp split: option.split)
    (intro conjI impI allI shrinks_step shrinks_loops)

lemma shrinks_releaseBatch: "shrinks c (releaseBatch b i c)"
  by (simp add: releaseBatch_def shrinks_def Let_def) (simp add: tally_def cancelBatchContext_def)

lemma shrinks_cancelWaiter: "shrinks c (cancelWaiter cfg pk a i c)"
  unfolding cancelWaiter_def Let_def by (auto split: option.split intro!: shrinks_steps)

lemma shrinks_handleCancel: "shrinks c (handleCancel cfg cr c)"
  by (simp add: handleCancel_def shrinks_cancelWaiter split: option.split)
    (simp add: shrinks_def)

lemma shrinks_barriers:
  "shrinks c (tryCompleteBarriers ctxErr c)" "shrinks c (failBarriers e c)" "shrinks c (handleEngineCancel c)"
proof -
  show "shrinks c (tryCompleteBarriers ctxErr c)"
    using tryCompleteBarriers_frame [of ctxErr c] by (auto simp: shrinks_def)
  show "shrinks c (failBarriers e c)"
    using failBarriers_frame [of e c] by (auto simp: shrinks_def)
  obtain rs cs where eq: "handleEngineCancel c =
     (deliverItems (indexedItems c) (errRes ErrEngineClosed) (c\<lparr>c_closing := True\<rparr>))
       \<lparr>o_cancels := cs, o_replies := rs, c_barriers := []\<rparr>"
    using handleEngineCancel_frame by blast
  show "shrinks c (handleEngineCancel c)"
    using shrinks_loops(4) [of "c\<lparr>c_closing := True\<rparr>" "indexedItems c" "errRes ErrEngineClosed"]
    unfolding eq by (simp add: shrinks_def)
qed

lemma shrinks_finishIteration: "shrinks c (finishIteration cfg clk ctxErr c)"
proof -
  have "shrinks c (tryCompleteBarriers ctxErr (schedule cfg clk False c))"
    by (rule shrinks_trans [OF shrinks_schedule shrinks_barriers(1)])
  from this shrinks_trans [OF this shrinks_barriers(2)] show ?thesis
    by (simp add: finishIteration_def Let_def) (simp add: shrinks_def)
qed

section \<open>One item per key\<close>

definition dedup_ok :: "'k bindingConfig \<Rightarrow> ('k, 'v) coordinator \<Rightarrow> bool" where
  "dedup_ok cfg c \<longleftrightarrow>
     (\<forall>pk a. a \<in># indexOf c pk \<longrightarrow> q_hash (c_heap c a) = Hash (cf_keys cfg) (q_key (c_heap c a))) \<and>
     (\<forall>pk a b. a \<in># indexOf c pk \<longrightarrow> b \<in># indexOf c pk \<longrightarrow>
        Equal (cf_keys cfg) (q_key (c_heap c a)) (q_key (c_heap c b)) \<longrightarrow> a = b)"

lemma dedup_shrinks: "dedup_ok cfg c \<Longrightarrow> shrinks c d \<Longrightarrow> dedup_ok cfg d"
  unfolding dedup_ok_def shrinks_def by (metis subsetD)

lemma indexOf_updPart_same:
  "(\<And>p. p_active (f p) = p_active p) \<Longrightarrow> indexOf (updPart pk f c) = indexOf c"
  by (auto simp: fun_eq_iff indexOf_updPart indexOf_def split: option.split)

lemma indexOf_admission:
  "indexOf (reply ch e c) = indexOf c" "indexOf (joinItem cfg a req c) = indexOf c"
  "indexOf (overflow cfg req category isPart c) = indexOf c"
proof -
  show reply: "indexOf (reply ch e c) = indexOf c" for ch e and c :: "('a, 'b) coordinator"
    by (simp add: fun_eq_iff indexOf_def reply_def)
  show "indexOf (joinItem cfg a req c) = indexOf c" "indexOf (overflow cfg req category isPart c) = indexOf c"
    by (simp_all add: joinItem_def overflow_def Let_def reply indexOf_updPart_same split: OverflowPolicy.split)
qed

lemma heap_admission:
  "q_key (c_heap (joinItem cfg a req c) b) = q_key (c_heap c b)"
  "q_hash (c_heap (joinItem cfg a req c) b) = q_hash (c_heap c b)"
  "c_heap (overflow cfg req category isPart c) = c_heap c" "c_heap (reply ch e c) = c_heap c"
  by (simp_all add: joinItem_def overflow_def Let_def reply_def emit_def tally_def updPart_def updItem_def
      split: OverflowPolicy.split)

lemma heap_enqueueItem:
  "c_heap (enqueueItem cfg clk req c) = (c_heap c)(c_next c :=
     \<lparr>q_id = nextRequestIDLoop (e_requestSeq c), q_seq = c_submitSeq c + 1, q_key = s_key req, q_hash = s_hash req,
      q_weight = s_weight req, q_bytes = s_bytes req, q_enqueue = clk (e_reads c),
      q_waiters = [s_waiter req], q_activeWaiters = 1, q_dispatched = False, q_batchID = 0\<rparr>)"
  by (simp add: enqueueItem_def Let_def nextRequestID_def clockNow_def nextSeq_def emit_def reply_def
      tally_def updPart_def)

lemma indexOf_enqueueItem:
  "indexOf (enqueueItem cfg clk req c) pk =
     (if pk = encoded (s_part req) then
        (case partOf c pk of
           None \<Rightarrow> {#}
         | Some p \<Rightarrow> addrsOf (AList.update (s_hash req) (goget (p_active p) (s_hash req) @ [c_next c]) (p_active p)))
      else indexOf c pk)"
  by (simp add: enqueueItem_def Let_def nextRequestID_def clockNow_def nextSeq_def indexOf_admission indexOf_updPart)
    (simp add: indexOf_def partOf_def split: option.split)

lemma findJoin_None_new:
  assumes "key_strategy (cf_keys cfg)" "cf_dedupEnabled cfg" "dedup_ok cfg c" "coord_inv c"
    and "partOf c (encoded (s_part req)) = Some p" "findJoin cfg c p req = None" "request_ok cfg req"
    and "b \<in># indexOf c (encoded (s_part req))"
  shows "\<not> Equal (cf_keys cfg) (q_key (c_heap c b)) (s_key req)"
proof
  assume eq: "Equal (cf_keys cfg) (q_key (c_heap c b)) (s_key req)"
  have "q_hash (c_heap c b) = s_hash req"
    using assms(3,7,8) key_strategy.equal_hash [OF assms(1) eq] by (auto simp: dedup_ok_def request_ok_def)
  moreover have "index_ok (c_heap c) (p_active p)"
    using assms(4,5) cinvD(1) [of "{}" "queued c" c] by (auto simp: coord_inv_def parts_ok_def)
  ultimately have "b \<in> set (goget (p_active p) (s_hash req))"
    using assms(5,8) index_member [of "c_heap c" "p_active p" b] by (simp add: indexOf_def)
  with eq assms(2,6) show False
    by (auto simp: findJoin_def find_None_iff)
qed

lemma dedup_enqueueItem:
  assumes "key_strategy (cf_keys cfg)" "dedup_ok cfg c" "coord_inv c" "request_ok cfg req"
    and new: "\<And>b. b \<in># indexOf c (encoded (s_part req)) \<Longrightarrow>
      \<not> Equal (cf_keys cfg) (q_key (c_heap c b)) (s_key req)"
  shows "dedup_ok cfg (enqueueItem cfg clk req c)"
proof -
  let ?d = "enqueueItem cfg clk req c"
  have old: "b \<noteq> c_next c" if "b \<in># indexOf c pk" for b pk
    using that cinvD(2) [of "{}" "queued c" c] assms(3) by (force simp: coord_inv_def separated_def)
  have sub: "a = c_next c \<and> pk = encoded (s_part req) \<or> a \<in># indexOf c pk" if asm: "a \<in># indexOf ?d pk" for a pk
  proof (cases "pk = encoded (s_part req)")
    case True
    then obtain p where p: "partOf c pk = Some p"
        "a \<in># addrsOf (AList.update (s_hash req) (goget (p_active p) (s_hash req) @ [c_next c]) (p_active p))"
      using asm by (auto simp: indexOf_enqueueItem split: option.splits)
    from subsetD [OF addrs_update_subset p(2)] subsetD [OF goget_addrs] p(1) True show ?thesis
      by (auto simp: indexOf_def)
  next
    case False
    with asm show ?thesis by (simp add: indexOf_enqueueItem)
  qed
  have no: "\<not> Equal (cf_keys cfg) (s_key req) (q_key (c_heap c b))" if "b \<in># indexOf c (encoded (s_part req))" for b
    using new [OF that] key_strategy.equal_sym [OF assms(1)] by blast
  show ?thesis
    unfolding dedup_ok_def
  proof (intro conjI allI impI)
    fix pk a assume "a \<in># indexOf ?d pk"
    from sub [OF this] show "q_hash (c_heap ?d a) = Hash (cf_keys cfg) (q_key (c_heap ?d a))"
      using assms(2,4) old by (auto simp: heap_enqueueItem dedup_ok_def request_ok_def)
  next
    fix pk a b
    assume a: "a \<in># indexOf ?d pk" and b: "b \<in># indexOf ?d pk"
      and eq: "Equal (cf_keys cfg) (q_key (c_heap ?d a)) (q_key (c_heap ?d b))"
    show "a = b"
      using sub [OF a] sub [OF b] eq old new no assms(2)
      by (auto simp: heap_enqueueItem dedup_ok_def split: if_splits)
  qed
qed

lemma dedup_submitInto:
  assumes "key_strategy (cf_keys cfg)" "cf_dedupEnabled cfg" "dedup_ok cfg c" "coord_inv c" "request_ok cfg req"
    and "partOf c (encoded (s_part req)) = Some p"
  shows "dedup_ok cfg (submitInto cfg clk req p c)"
proof -
  have "dedup_ok cfg (joinItem cfg a req c)" "dedup_ok cfg (overflow cfg req cat isPart c)" for a cat isPart
    using assms(3) by (simp_all add: dedup_ok_def indexOf_admission heap_admission)
  moreover have "dedup_ok cfg (enqueueItem cfg clk req c)" if "findJoin cfg c p req = None"
    using dedup_enqueueItem [OF assms(1,3,4,5)] findJoin_None_new [OF assms(1-4,6) that assms(5)] by blast
  ultimately show ?thesis
    by (simp add: submitInto_def split: option.split)
qed

lemma dedup_handleSubmit:
  assumes "key_strategy (cf_keys cfg)" "cf_dedupEnabled cfg" "dedup_ok cfg c" "coord_inv c" "request_ok cfg req"
  shows "dedup_ok cfg (handleSubmit cfg clk req c)"
proof -
  let ?pk = "encoded (s_part req)"
  let ?p = "newPartitionState (s_part req)"
  let ?c = "activePartitionsGauge (c\<lparr>c_partitions := AList.update ?pk ?p (c_partitions c)\<rparr>)"
  have over: "dedup_ok cfg (overflow cfg req cat isPart c)"
      "dedup_ok cfg (reply (s_reply req) e (tally f c))" for cat isPart e f
    using assms(3) by (simp_all add: dedup_ok_def indexOf_admission heap_admission) (simp add: tally_def)
  have new: "dedup_ok cfg (submitInto cfg clk req ?p ?c)" if none: "partOf c ?pk = None"
  proof (rule dedup_submitInto [OF assms(1,2) _ _ assms(5)])
    show "partOf ?c ?pk = Some ?p"
      by (simp add: partOf_def activePartitionsGauge_def tally_def)
    show "coord_inv ?c"
      using coord_inv_newPartition [OF assms(4) none] .
    have "shrinks c ?c"
      by (auto simp: shrinks_def activePartitionsGauge_def tally_def indexOf_def partOf_def newPartitionState_def
          addrsOf_def split: option.splits if_splits)
    with assms(3) show "dedup_ok cfg ?c" by (rule dedup_shrinks)
  qed
  show ?thesis
    using new over dedup_submitInto [OF assms] by (simp add: handleSubmit_def Let_def split: option.split)
qed

lemma dedup_submitAll:
  assumes "key_strategy (cf_keys cfg)" "cf_dedupEnabled cfg" "dedup_ok cfg c" "coord_inv c"
    and "list_all (request_ok cfg) rs"
  shows "dedup_ok cfg (submitAll cfg clk rs c)"
  using assms(3-) by (induction rs arbitrary: c) (simp_all add: dedup_handleSubmit [OF assms(1,2)] coord_inv_handleSubmit)

lemma dedup_handleComplete:
  assumes "key_strategy (cf_keys cfg)" "cf_dedupEnabled cfg" "dedup_ok cfg c" "coord_inv c" "blocked_ok cfg c"
  shows "dedup_ok cfg (handleComplete cfg clk d c)"
proof (cases "map_of (c_inflight c) (d_batchID d)")
  case (Some b)
  let ?c = "settleBatch cfg b d (releaseBatch b (d_batchID d) c)"
  have "dedup_ok cfg (?c\<lparr>c_blocked := bl\<rparr>)" for bl
    using dedup_shrinks [OF assms(3) shrinks_trans [OF shrinks_releaseBatch shrinks_settleBatch]]
    by (simp add: dedup_ok_def)
  moreover have "coord_inv (?c\<lparr>c_blocked := []\<rparr>)"
    using coord_inv_settle [OF assms(4) Some, of cfg] by (rule coord_inv_view) (simp_all add: same_view_def fun_eq_iff queued_def pendingOf_def)
  moreover have "c_blocked ?c = c_blocked c"
    using quiet_trans [OF quiet_releaseBatch quiet_settleBatch, of c cfg b d b "d_batchID d"] by (simp add: quiet_def)
  ultimately have "dedup_ok cfg (retryBlocked cfg clk ?c)"
    using assms(5) dedup_shrinks [OF assms(3) shrinks_trans [OF shrinks_releaseBatch shrinks_settleBatch]]
    by (simp add: retryBlocked_def blocked_ok_def dedup_submitAll [OF assms(1,2)])
  with Some show ?thesis by (simp add: handleComplete_def)
qed (simp add: handleComplete_def assms)

lemma dedup_handleEvent:
  assumes "key_strategy (cf_keys cfg)" "cf_dedupEnabled cfg" "dedup_ok cfg c" "coord_inv c" "blocked_ok cfg c"
    and "event_ok cfg ev"
  shows "dedup_ok cfg (handleEvent cfg clk ev c)"
proof (cases ev)
  case (EvControl ctrl)
  have "shrinks c (schedule cfg clk True (if t_kind ctrl = controlClose then c\<lparr>c_closing := True\<rparr> else c))"
    using shrinks_schedule [of c] shrinks_schedule [of "c\<lparr>c_closing := True\<rparr>"] by (simp add: shrinks_def)
  from dedup_shrinks [OF assms(3) this] EvControl show ?thesis
    by (simp add: handleControl_def Let_def dedup_ok_def)
next
  case EvTimer
  have "shrinks c (schedule cfg clk False (c\<lparr>c_timerActive := False\<rparr>))"
    using shrinks_schedule [of "c\<lparr>c_timerActive := False\<rparr>"] by (simp add: shrinks_def)
  from dedup_shrinks [OF assms(3) this] EvTimer show ?thesis by simp
qed (use assms in \<open>auto simp: event_ok_def dedup_handleSubmit dedup_handleComplete
    intro: dedup_shrinks shrinks_handleCancel shrinks_barriers\<close>)

lemma dedup_iteration:
  assumes "key_strategy (cf_keys cfg)" "cf_dedupEnabled cfg" "dedup_ok cfg c" "coord_inv c" "blocked_ok cfg c"
    and "event_ok cfg ev"
  shows "dedup_ok cfg (iteration cfg clk ctxErr ev c)"
  using dedup_handleEvent [OF assms, of clk] dedup_shrinks [OF dedup_handleEvent [OF assms] shrinks_finishIteration]
  by (simp add: iteration_def Let_def) (simp add: dedup_ok_def)

lemma dedup_served:
  assumes "served cfg clk c A C" "key_strategy (cf_keys cfg)" "cf_dedupEnabled cfg"
  shows "dedup_ok cfg c"
  using assms(1)
proof (induction rule: served.induct)
  case (start memory r)
  show ?case by (simp add: dedup_ok_def newCoordinator_def indexOf_def partOf_def)
next
  case (event c A C ev ctxErr)
  then show ?case
    using dedup_iteration [OF assms(2,3) event.IH] served_inv [OF event.hyps(1)] by blast
qed (simp_all add: dedup_ok_def)

text \<open>C11: Deduplication. With in-flight deduplication enabled and a key strategy that keeps its
  contract, no two items a partition knows (queued or in flight) have equal keys, in any run:
  concurrent requests for a key of a partition always share one backend item.\<close>

theorem one_item_per_key:
  assumes "served cfg clk c A C" "cf_dedupEnabled cfg" "key_strategy (cf_keys cfg)"
    and "a \<in># indexOf c pk" "b \<in># indexOf c pk"
    and "Equal (cf_keys cfg) (q_key (c_heap c a)) (q_key (c_heap c b))"
  shows "a = b"
  using dedup_served [OF assms(1,3,2)] assms(4-) by (auto simp: dedup_ok_def)

lemma demo_index:
  "case serve demoCfg demoClock demoContexts (take 2 demoEvents) (demo0, {#}, {#}) of
     None \<Rightarrow> False
   | Some (c, A, C) \<Rightarrow>
       (case map_of (c_partitions c) ''p'' of
          None \<Rightarrow> False
        | Some p \<Rightarrow> concat (map snd (p_active p)) = [0] \<and> q_key (c_heap c 0) = 7)"
  by code_simp

theorem one_item_per_key_witness:
  "\<exists>c :: (nat, nat) coordinator. 0 \<in># indexOf c ''p'' \<and> (\<forall>b. b \<in># indexOf c ''p'' \<longrightarrow> q_key (c_heap c b) = 7 \<longrightarrow> b = 0)"
proof -
  obtain c p A C where run: "serve demoCfg demoClock demoContexts (take 2 demoEvents) (demo0, {#}, {#}) = Some (c, A, C)"
    and p: "map_of (c_partitions c) ''p'' = Some p" "concat (map snd (p_active p)) = [0]" and k: "q_key (c_heap c 0) = 7"
    using demo_index by (auto split: option.splits)
  from serve_served [OF run] have c: "served demoCfg demoClock c A C"
    by (simp add: demo0_def served.start)
  have i: "0 \<in># indexOf c ''p''"
    using p by (simp add: indexOf_def partOf_def addrsOf_def)
  have ks: "cf_dedupEnabled demoCfg" "key_strategy (cf_keys demoCfg)"
    using comparable.key_strategy_axioms by (simp_all add: demoCfg_def)
  have "b = 0" if "b \<in># indexOf c ''p''" "q_key (c_heap c b) = 7" for b
    using one_item_per_key [OF c ks that(1) i] that(2) k by (simp add: demoCfg_def comparableStrategy_def)
  with i show ?thesis by blast
qed

end
