(* ===== verification/Op_Catalog.thy ===== *)
theory Op_Catalog
  imports Op_Spec
begin

text \<open>
  The catalog of operation specs (catalog.go): the builder, the sorted catalog with its index, and
  the merge of two catalogs under a conflict behavior. The theorems show that catalogs are finite
  maps from identifiers to specs. A spec list has distinct identifiers wherever it is sorted, so
  Go's unstable sort has one possible result.
\<close>

section \<open>Catalogs\<close>

abbreviation ConflictError :: u8 where "ConflictError \<equiv> 0"
abbreviation ConflictReplace :: u8 where "ConflictReplace \<equiv> 1"
abbreviation ConflictKeepExisting :: u8 where "ConflictKeepExisting \<equiv> 2"

record Catalog =
  cat_specs :: "Spec list"
  cat_index :: "(string, nat) gomap"

record CatalogBuilder =
  cb_specs :: "Spec list"
  cb_index :: "(string, nat) gomap"
  cb_diags :: Collection

definition NewCatalogBuilder :: CatalogBuilder where
  "NewCatalogBuilder = \<lparr>cb_specs = [], cb_index = [], cb_diags = []\<rparr>"

definition Builder_Add :: "Spec \<Rightarrow> CatalogBuilder \<Rightarrow> CatalogBuilder" where
  "Builder_Add sp b =
     (case map_of (cb_index b) (spec_id sp) of
        Some prev \<Rightarrow>
          (let prevRange = spec_source (cb_specs b ! prev);
               d = (finding sp ''BWOP017'' (''duplicate operation id '' @ spec_id sp))
                 \<lparr>dg_Related := (if Range_IsZero prevRange then []
                   else [\<lparr>rel_Message = ''previous declaration'', rel_Range = prevRange\<rparr>])\<rparr>
           in b\<lparr>cb_diags := Collection_Add d (cb_diags b)\<rparr>)
      | None \<Rightarrow> b\<lparr>cb_index := AList.update (spec_id sp) (length (cb_specs b)) (cb_index b),
                 cb_specs := cb_specs b @ [sp]\<rparr>)"

definition Builder_Diagnostics :: "(op_error \<Rightarrow> string) \<Rightarrow> CatalogBuilder \<Rightarrow> Collection" where
  "Builder_Diagnostics msg b = fold (\<lambda>s. AddCollection (Spec_Validate msg s)) (cb_specs b) (AddCollection (cb_diags b) [])"

fun indexFrom :: "nat \<Rightarrow> Spec list \<Rightarrow> (string, nat) gomap \<Rightarrow> (string, nat) gomap" where
  "indexFrom i [] m = m"
| "indexFrom i (s # ss) m = indexFrom (Suc i) ss (AList.update (spec_id s) i m)"

definition newCatalogFromSpecs :: "Spec list \<Rightarrow> Catalog" where
  "newCatalogFromSpecs specs =
     (let out = stableSort (\<lambda>a b. spec_id a < spec_id b) specs
      in \<lparr>cat_specs = out, cat_index = indexFrom 0 out []\<rparr>)"

definition Builder_Build :: "CatalogBuilder \<Rightarrow> Catalog" where
  "Builder_Build b = newCatalogFromSpecs (cb_specs b)"

definition Catalog_Get :: "Catalog \<Rightarrow> string \<Rightarrow> Spec option" where
  "Catalog_Get c i = map_option (\<lambda>k. cat_specs c ! k) (map_of (cat_index c) i)"

definition Catalog_IDs :: "Catalog \<Rightarrow> string list" where
  "Catalog_IDs c = map spec_id (cat_specs c)"

definition appendSpec ::
  "u8 \<Rightarrow> bool \<Rightarrow> Spec \<Rightarrow> Spec list \<times> (string, nat) gomap \<Rightarrow> string + Spec list \<times> (string, nat) gomap" where
  "appendSpec behavior incoming sp st =
     (case st of (merged, seen) \<Rightarrow>
        (case map_of seen (spec_id sp) of
           Some idx \<Rightarrow>
             if behavior = ConflictError then Inl (spec_id sp)
             else if behavior = ConflictReplace \<and> incoming then Inr (merged[idx := sp], seen)
             else Inr (merged, seen)
         | None \<Rightarrow> Inr (merged @ [sp], AList.update (spec_id sp) (length merged) seen)))"

fun appendSpecs ::
  "u8 \<Rightarrow> bool \<Rightarrow> Spec list \<Rightarrow> Spec list \<times> (string, nat) gomap \<Rightarrow> string + Spec list \<times> (string, nat) gomap" where
  "appendSpecs behavior incoming [] st = Inr st"
| "appendSpecs behavior incoming (sp # sps) st =
     (case appendSpec behavior incoming sp st of
        Inl e \<Rightarrow> Inl e
      | Inr st' \<Rightarrow> appendSpecs behavior incoming sps st')"

definition Catalog_Merge :: "Catalog \<Rightarrow> Catalog \<Rightarrow> u8 \<Rightarrow> string + Catalog" where
  "Catalog_Merge c other behavior =
     (case appendSpecs behavior False (cat_specs c) ([], []) of
        Inl e \<Rightarrow> Inl e
      | Inr st \<Rightarrow>
          (case appendSpecs behavior True (cat_specs other) st of
             Inl e \<Rightarrow> Inl e
           | Inr (merged, _) \<Rightarrow> Inr (newCatalogFromSpecs merged)))"

section \<open>Catalogs are finite maps\<close>

text \<open>
  A list of specs whose identifiers are distinct is the map \<open>specMap\<close>; the index kept beside it
  gives each identifier its position.
\<close>

definition specMap :: "Spec list \<Rightarrow> string \<rightharpoonup> Spec" where
  "specMap ss = map_of (map (\<lambda>s. (spec_id s, s)) ss)"

definition indexed :: "Spec list \<Rightarrow> (string, nat) gomap \<Rightarrow> bool" where
  "indexed ss idx \<longleftrightarrow> (\<forall>i k. map_of idx i = Some k \<longleftrightarrow> k < length ss \<and> spec_id (ss ! k) = i)"

definition catalog_ok :: "Catalog \<Rightarrow> bool" where
  "catalog_ok c \<longleftrightarrow> indexed (cat_specs c) (cat_index c) \<and> sorted (Catalog_IDs c) \<and> distinct (Catalog_IDs c)"

lemma indexed_distinct: "indexed ss idx \<Longrightarrow> distinct (map spec_id ss)"
  unfolding indexed_def distinct_conv_nth by (metis length_map nth_map option.inject)

lemma specMap_nth:
  "distinct (map spec_id ss) \<Longrightarrow> k < length ss \<Longrightarrow> specMap ss (spec_id (ss ! k)) = Some (ss ! k)"
  by (force simp: specMap_def comp_def intro!: map_of_is_SomeI)

lemma specMap_dom [simp]: "dom (specMap ss) = spec_id ` set ss"
  by (simp add: specMap_def dom_map_of_conv_image_fst image_image)

lemma map_add_absorb: "n a = Some x \<Longrightarrow> m(a \<mapsto> y) ++ n = m ++ n"
  by (auto simp: map_add_def fun_eq_iff split: option.split)

lemma specMap_None: "specMap ss i = None \<longleftrightarrow> i \<notin> spec_id ` set ss"
  by (metis domIff specMap_dom)

lemma specMap_mset: "distinct (map spec_id ss) \<Longrightarrow> mset ss = mset ts \<Longrightarrow> specMap ss = specMap ts"
  unfolding specMap_def
  by (subst map_of_inject_set) (auto simp: comp_def dest: mset_eq_setD, metis mset_eq_imp_distinct_iff mset_map)

lemma indexed_lookup:
  assumes "indexed ss idx" shows "map_option (\<lambda>k. ss ! k) (map_of idx i) = specMap ss i"
proof (cases "map_of idx i")
  case None
  then have "i \<notin> spec_id ` set ss"
    using assms unfolding indexed_def by (metis imageE in_set_conv_nth option.distinct(1))
  with None show ?thesis by (metis option.simps(8) specMap_None)
next
  case (Some k)
  with assms specMap_nth [OF indexed_distinct [OF assms], of k] show ?thesis
    by (auto simp: indexed_def)
qed

lemma indexed_None: "indexed ss idx \<Longrightarrow> map_of idx i = None \<Longrightarrow> k < length ss \<Longrightarrow> spec_id (ss ! k) \<noteq> i"
  unfolding indexed_def by (metis option.distinct(1))

lemma indexed_snoc:
  assumes "indexed ss idx" "map_of idx (spec_id s) = None"
  shows "indexed (ss @ [s]) (AList.update (spec_id s) (length ss) idx)"
  using assms indexed_None [OF assms] by (auto simp: indexed_def update_conv nth_append less_Suc_eq)

lemma indexed_replace:
  assumes "indexed ss idx" "map_of idx (spec_id s) = Some k"
  shows "indexed (ss[k := s]) idx"
  using assms by (auto simp: indexed_def nth_list_update)

lemma indexFrom_indexed:
  "indexed ss m \<Longrightarrow> distinct (map spec_id (ss @ ts)) \<Longrightarrow> indexed (ss @ ts) (indexFrom (length ss) ts m)"
proof (induction ts arbitrary: ss m)
  case (Cons t ts)
  have "map_of m (spec_id t) = None"
  proof (rule ccontr)
    assume "map_of m (spec_id t) \<noteq> None"
    then obtain k where "k < length ss" "spec_id (ss ! k) = spec_id t"
      using Cons.prems(1) by (auto simp: indexed_def)
    then have "spec_id t \<in> spec_id ` set ss"
      by (metis imageI nth_mem)
    with Cons.prems(2) show False by simp
  qed
  with Cons.prems indexed_snoc Cons.IH [of "ss @ [t]"] show ?case by simp
qed simp

interpretation spec_order: weak_order "\<lambda>a b. spec_id a < spec_id b" spec_id
  by unfold_locales auto

lemma newCatalog_ok:
  assumes "distinct (map spec_id ss)"
  shows "catalog_ok (newCatalogFromSpecs ss) \<and> Catalog_Get (newCatalogFromSpecs ss) = specMap ss \<and>
    mset (cat_specs (newCatalogFromSpecs ss)) = mset ss"
proof -
  let ?out = "stableSort (\<lambda>a b. spec_id a < spec_id b) ss"
  have m: "mset ?out = mset ss" by (rule spec_order.sort_mset)
  have d: "distinct (map spec_id ?out)"
    using assms m by (metis mset_eq_imp_distinct_iff mset_map)
  have i: "indexed ?out (indexFrom 0 ?out [])"
    using indexFrom_indexed [of "[]" "[]" ?out] d by (simp add: indexed_def)
  have "Catalog_Get (newCatalogFromSpecs ss) = specMap ?out"
    using indexed_lookup [OF i] by (auto simp: Catalog_Get_def newCatalogFromSpecs_def Let_def)
  moreover have "sorted (map spec_id ?out)"
    using spec_order.sort_sorted [of ss] by (simp add: sorted_map)
  ultimately show ?thesis
    using i d m specMap_mset [OF d m] by (simp add: catalog_ok_def newCatalogFromSpecs_def Let_def Catalog_IDs_def)
qed

lemma specMap_snoc: "spec_id s \<notin> spec_id ` set ss \<Longrightarrow> specMap (ss @ [s]) = (specMap ss)(spec_id s \<mapsto> s)"
  by (simp add: specMap_def map_add_upd_left dom_map_of_conv_image_fst image_image)

lemma specMap_Cons: "specMap (s # ss) = (specMap ss)(spec_id s \<mapsto> s)"
  by (simp add: specMap_def)

lemma specMap_replace:
  assumes "indexed ss idx" "map_of idx (spec_id s) = Some k"
  shows "specMap (ss[k := s]) = (specMap ss)(spec_id s \<mapsto> s)"
proof
  fix j
  have k: "k < length ss" "\<And>k'. map_of idx j = Some k' \<Longrightarrow> j \<noteq> spec_id s \<Longrightarrow> k' \<noteq> k"
    using assms by (auto simp: indexed_def)
  have "specMap (ss[k := s]) j = map_option (\<lambda>k'. ss[k := s] ! k') (map_of idx j)"
    by (rule indexed_lookup [OF indexed_replace [OF assms], symmetric])
  also have "\<dots> = ((specMap ss)(spec_id s \<mapsto> s)) j"
    using assms(2) k by (cases "map_of idx j") (auto simp: indexed_lookup [OF assms(1), symmetric])
  finally show "specMap (ss[k := s]) j = ((specMap ss)(spec_id s \<mapsto> s)) j" .
qed

lemma indexed_mem: "indexed ss idx \<Longrightarrow> map_of idx i = None \<longleftrightarrow> i \<notin> spec_id ` set ss"
  using indexed_lookup [of ss idx i] specMap_None [of ss i] by (metis option.map_disc_iff)

lemma appendSpecs_fresh:
  "indexed ss idx \<Longrightarrow> distinct (map spec_id (ss @ ts)) \<Longrightarrow>
     appendSpecs behavior incoming ts (ss, idx) = Inr (ss @ ts, indexFrom (length ss) ts idx)"
proof (induction ts arbitrary: ss idx)
  case (Cons t ts)
  have f: "map_of idx (spec_id t) = None"
    using Cons.prems by (subst indexed_mem [of ss]) auto
  have "appendSpecs behavior incoming ts (ss @ [t], AList.update (spec_id t) (length ss) idx) =
      Inr ((ss @ [t]) @ ts, indexFrom (length (ss @ [t])) ts (AList.update (spec_id t) (length ss) idx))"
    using Cons.prems by (intro Cons.IH indexed_snoc [OF _ f]) auto
  then show ?case
    by (simp add: appendSpec_def f)
qed simp

lemma appendSpecs_merge:
  assumes "behavior \<noteq> ConflictError" "indexed ss idx" "distinct (map spec_id ts)"
  shows "\<exists>ss' idx'. appendSpecs behavior True ts (ss, idx) = Inr (ss', idx') \<and> indexed ss' idx' \<and>
    specMap ss' = (if behavior = ConflictReplace then specMap ss ++ specMap ts else specMap ts ++ specMap ss)"
  using assms(2,3)
proof (induction ts arbitrary: ss idx)
  case (Cons t ts)
  let ?m = "\<lambda>s. (if behavior = ConflictReplace then specMap s ++ specMap ts else specMap ts ++ specMap s)"
  let ?goal = "if behavior = ConflictReplace then specMap ss ++ specMap (t # ts) else specMap (t # ts) ++ specMap ss"
  have t: "spec_id t \<notin> dom (specMap ts)" using Cons.prems(2) by simp
  obtain ss1 idx1 where s1: "appendSpec behavior True t (ss, idx) = Inr (ss1, idx1)" "indexed ss1 idx1" "?m ss1 = ?goal"
  proof (cases "map_of idx (spec_id t)")
    case None
    then have "spec_id t \<notin> spec_id ` set ss" using indexed_mem [OF Cons.prems(1)] by simp
    then have "?m (ss @ [t]) = ?goal"
      using t by (auto simp: specMap_snoc specMap_Cons map_add_upd_left)
    with None indexed_snoc [OF Cons.prems(1) None] show thesis
      by (intro that) (simp_all add: appendSpec_def)
  next
    case (Some k)
    have r: "?m (ss[k := t]) = ?goal" if "behavior = ConflictReplace"
      using that t by (simp add: specMap_replace [OF Cons.prems(1) Some] specMap_Cons map_add_upd_left)
    obtain x where "specMap ss (spec_id t) = Some x"
      using indexed_lookup [OF Cons.prems(1), of "spec_id t", symmetric] unfolding Some by simp
    then have kp: "?m ss = ?goal" if "behavior \<noteq> ConflictReplace"
      using that by (simp add: specMap_Cons map_add_absorb)
    show thesis
      using that [OF _ indexed_replace [OF Cons.prems(1) Some] r] that [OF _ Cons.prems(1) kp] assms(1) Some
      by (cases "behavior = ConflictReplace") (simp_all add: appendSpec_def)
  qed
  then show ?case
    using Cons.IH [OF s1(2)] Cons.prems(2) by simp
qed (simp add: specMap_def)

lemma appendSpecs_conflict:
  assumes "indexed ss idx" "distinct (map spec_id ts)"
  shows "spec_id ` set ss \<inter> spec_id ` set ts \<noteq> {} \<Longrightarrow>
    \<exists>i \<in> spec_id ` set ss \<inter> spec_id ` set ts. appendSpecs ConflictError True ts (ss, idx) = Inl i"
  using assms
proof (induction ts arbitrary: ss idx)
  case (Cons t ts)
  show ?case
  proof (cases "map_of idx (spec_id t)")
    case None
    then have f: "spec_id t \<notin> spec_id ` set ss" using indexed_mem [OF Cons.prems(2)] by simp
    have "\<exists>i \<in> spec_id ` set (ss @ [t]) \<inter> spec_id ` set ts.
        appendSpecs ConflictError True ts (ss @ [t], AList.update (spec_id t) (length ss) idx) = Inl i"
      using Cons.prems f by (intro Cons.IH indexed_snoc [OF _ None]) auto
    with Cons.prems(3) show ?thesis
      by (auto simp: appendSpec_def None)
  next
    case (Some k)
    then have "spec_id t \<in> spec_id ` set ss" using indexed_mem [OF Cons.prems(2)] by force
    with Some show ?thesis by (auto simp: appendSpec_def)
  qed
qed simp

lemma catalog_Get: "catalog_ok c \<Longrightarrow> Catalog_Get c = specMap (cat_specs c)"
  by (auto simp: catalog_ok_def Catalog_Get_def indexed_lookup)


lemma Builder_Add_dup:
  assumes "map_of (cb_index b) (spec_id s) = Some k"
  shows "cb_specs (Builder_Add s b) = cb_specs b" "cb_index (Builder_Add s b) = cb_index b"
    "length (cb_diags (Builder_Add s b)) = Suc (length (cb_diags b))" "HasErrors (cb_diags (Builder_Add s b))"
  using assms by (simp_all add: Builder_Add_def Let_def Collection_Add_def HasErrors_def finding_def)

lemma builder_adds:
  "indexed (cb_specs b) (cb_index b) \<Longrightarrow>
   let b' = fold Builder_Add ss b in
     indexed (cb_specs b') (cb_index b') \<and> specMap (cb_specs b') = specMap ss ++ specMap (cb_specs b) \<and>
     length (cb_specs b') + length (cb_diags b') = length (cb_specs b) + length (cb_diags b) + length ss \<and>
     (HasErrors (cb_diags b') \<longleftrightarrow> HasErrors (cb_diags b) \<or> \<not> distinct (map spec_id (cb_specs b @ ss)))"
proof (induction ss arbitrary: b)
  case Nil
  then show ?case by (simp add: Let_def specMap_def indexed_distinct)
next
  case (Cons s ss)
  show ?case
  proof (cases "map_of (cb_index b) (spec_id s)")
    case None
    let ?b = "Builder_Add s b"
    have b: "cb_specs ?b = cb_specs b @ [s]" "cb_diags ?b = cb_diags b"
      "indexed (cb_specs ?b) (cb_index ?b)"
      using None indexed_snoc [OF Cons.prems None] by (simp_all add: Builder_Add_def)
    have f: "spec_id s \<notin> spec_id ` set (cb_specs b)"
      using None indexed_mem [OF Cons.prems] by simp
    have m: "specMap ss ++ specMap (cb_specs b @ [s]) = specMap (s # ss) ++ specMap (cb_specs b)"
      unfolding specMap_snoc [OF f] specMap_Cons map_add_upd using f by (subst map_add_upd_left) auto
    show ?thesis
      using Cons.IH [OF b(3)] f by (auto simp: Let_def b(1,2) m)
  next
    case (Some k)
    obtain x where x: "specMap (cb_specs b) (spec_id s) = Some x"
      using indexed_lookup [OF Cons.prems, of "spec_id s", symmetric] unfolding Some by simp
    then have "spec_id s \<in> spec_id ` set (cb_specs b)"
      using specMap_None by (metis option.distinct(1))
    moreover have "specMap (s # ss) ++ specMap (cb_specs b) = specMap ss ++ specMap (cb_specs b)"
      unfolding specMap_Cons using x by (rule map_add_absorb)
    ultimately show ?thesis
      using Cons.IH [of "Builder_Add s b"] Cons.prems by (simp add: Let_def Builder_Add_dup [OF Some])
  qed
qed

lemma newCatalog_length: "length (cat_specs (newCatalogFromSpecs ss)) = length ss"
  by (metis newCatalogFromSpecs_def Catalog.select_convs(1) size_mset spec_order.sort_mset)

lemma builder_built:
  "let b = fold Builder_Add ss NewCatalogBuilder in
     indexed (cb_specs b) (cb_index b) \<and> specMap (cb_specs b) = specMap ss \<and>
     length (cb_specs b) + length (cb_diags b) = length ss \<and>
     (HasErrors (cb_diags b) \<longleftrightarrow> \<not> distinct (map spec_id ss))"
proof -
  have "indexed (cb_specs NewCatalogBuilder) (cb_index NewCatalogBuilder)" "cb_specs NewCatalogBuilder = []"
    "cb_diags NewCatalogBuilder = []" "specMap [] = Map.empty"
    by (simp_all add: NewCatalogBuilder_def indexed_def specMap_def)
  then show ?thesis
    using builder_adds [of NewCatalogBuilder ss] by (simp add: Let_def HasErrors_findings)
qed

text \<open>Building a catalog from any sequence of added specs gives a sorted, duplicate-free catalog
  whose lookup returns the first spec added with the identifier (none when it was never added);
  every later duplicate gives one diagnostic, and the builder's own diagnostics have errors exactly
  when an identifier was repeated.\<close>

theorem catalog_build:
  "let b = fold Builder_Add ss NewCatalogBuilder; c = Builder_Build b in
     catalog_ok c \<and> Catalog_Get c = specMap ss \<and>
     length (cat_specs c) + length (cb_diags b) = length ss \<and>
     (HasErrors (cb_diags b) \<longleftrightarrow> \<not> distinct (map spec_id ss))"
  using builder_built [of ss] newCatalog_ok [OF indexed_distinct, of "cb_specs (fold Builder_Add ss NewCatalogBuilder)"]
  by (auto simp: Let_def Builder_Build_def newCatalog_length)

text \<open>C33: Merging two catalogs is the union of their maps: under replace the incoming catalog wins,
  under keep-existing (and any other value) the existing one wins, and under the error behavior
  the merge succeeds exactly when they share no identifier and otherwise names a shared one.
  The result is again a sorted, duplicate-free catalog.\<close>

theorem catalog_merge_refines:
  assumes "catalog_ok c" "catalog_ok other"
  shows "case Catalog_Merge c other behavior of
      Inl i \<Rightarrow> behavior = ConflictError \<and> i \<in> dom (Catalog_Get c) \<inter> dom (Catalog_Get other)
    | Inr m \<Rightarrow> catalog_ok m \<and>
        (behavior = ConflictError \<longrightarrow> dom (Catalog_Get c) \<inter> dom (Catalog_Get other) = {}) \<and>
        Catalog_Get m = (if behavior = ConflictError \<or> behavior = ConflictReplace
          then Catalog_Get c ++ Catalog_Get other else Catalog_Get other ++ Catalog_Get c)"
proof -
  let ?c = "cat_specs c" and ?o = "cat_specs other"
  have c: "indexed ?c (indexFrom 0 ?c [])" "distinct (map spec_id ?c)" "distinct (map spec_id ?o)"
    using assms indexFrom_indexed [of "[]" "[]" ?c] by (simp_all add: catalog_ok_def Catalog_IDs_def indexed_def)
  have first: "appendSpecs behavior False ?c ([], []) = Inr (?c, indexFrom 0 ?c [])"
    using appendSpecs_fresh [of "[]" "[]" ?c] c(2) by (simp add: indexed_def)
  note Get = catalog_Get [OF assms(1)] catalog_Get [OF assms(2)]
  show ?thesis
  proof (cases "behavior = ConflictError")
    case False
    then obtain ss idx where r: "appendSpecs behavior True ?o (?c, indexFrom 0 ?c []) = Inr (ss, idx)" "indexed ss idx"
      "specMap ss = (if behavior = ConflictReplace then specMap ?c ++ specMap ?o else specMap ?o ++ specMap ?c)"
      using appendSpecs_merge [OF False c(1,3)] by blast
    then show ?thesis
      using False newCatalog_ok [OF indexed_distinct [OF r(2)]] by (simp add: Catalog_Merge_def first Get)
  next
    case err: True
    show ?thesis
    proof (cases "spec_id ` set ?c \<inter> spec_id ` set ?o = {}")
      case True
      then have d: "distinct (map spec_id (?c @ ?o))" using c(2,3) by auto
      have "specMap (?c @ ?o) = specMap ?c ++ specMap ?o"
        using True map_add_comm [of "specMap ?c" "specMap ?o"] by (simp add: specMap_def dom_map_of_conv_image_fst image_image)
      then show ?thesis
        using err True appendSpecs_fresh [OF c(1) d] newCatalog_ok [OF d] first
        by (simp add: Catalog_Merge_def Get)
    next
      case False
      then obtain i where "i \<in> spec_id ` set ?c \<inter> spec_id ` set ?o"
        "appendSpecs ConflictError True ?o (?c, indexFrom 0 ?c []) = Inl i"
        using appendSpecs_conflict [OF c(1,3)] by blast
      then show ?thesis
        using err first by (simp add: Catalog_Merge_def Get)
    qed
  qed
qed

definition demoCatalog :: "string list \<Rightarrow> Semantics \<Rightarrow> Catalog" where
  "demoCatalog ids sem = Builder_Build (fold Builder_Add (map (\<lambda>i. baseSpec i sem) ids) NewCatalogBuilder)"

lemma demoCatalog_ok: "catalog_ok (demoCatalog ids sem)"
proof -
  have "distinct (map spec_id (cb_specs (fold Builder_Add (map (\<lambda>i. baseSpec i sem) ids) NewCatalogBuilder)))"
    using builder_built [of "map (\<lambda>i. baseSpec i sem) ids"] by (auto simp: Let_def dest: indexed_distinct)
  then show ?thesis
    by (simp only: demoCatalog_def Builder_Build_def newCatalog_ok)
qed

theorem catalog_merge_refines_witness:
  "(\<exists>m. Catalog_Merge (demoCatalog [''a.b'', ''a.c''] ReadOnly) (demoCatalog [''a.c''] IdempotentWrite) ConflictReplace = Inr m
     \<and> Catalog_Get m = Catalog_Get (demoCatalog [''a.b'', ''a.c''] ReadOnly) ++ Catalog_Get (demoCatalog [''a.c''] IdempotentWrite)) \<and>
   Catalog_Merge (demoCatalog [''a.b'', ''a.c''] ReadOnly) (demoCatalog [''a.c''] IdempotentWrite) ConflictError = Inl ''a.c''"
proof
  let ?m = "Catalog_Merge (demoCatalog [''a.b'', ''a.c''] ReadOnly) (demoCatalog [''a.c''] IdempotentWrite)"
  show "\<exists>m. ?m ConflictReplace = Inr m \<and>
      Catalog_Get m = Catalog_Get (demoCatalog [''a.b'', ''a.c''] ReadOnly) ++ Catalog_Get (demoCatalog [''a.c''] IdempotentWrite)"
    using catalog_merge_refines [of "demoCatalog [''a.b'', ''a.c''] ReadOnly" "demoCatalog [''a.c''] IdempotentWrite"
      ConflictReplace, OF demoCatalog_ok demoCatalog_ok]
    by (simp split: sum.splits)
  show "?m ConflictError = Inl ''a.c''"
    by code_simp
qed

end
