(* ===== verification/Adaptive_Diagnostics.thy ===== *)
theory Adaptive_Diagnostics
  imports Go_Strings
begin

text \<open>
  The diagnostics of the adaptive layer (internal/adaptive/diagnostics.go): stable codes with
  their messages, shared by the scheduling structures.
\<close>

abbreviation CodeRecommendationExceedsBound :: string where "CodeRecommendationExceedsBound \<equiv> ''BW8004''"
abbreviation CodeUnsupportedCycle :: string where "CodeUnsupportedCycle \<equiv> ''BW8101''"
abbreviation CodeRecursiveDepthExceeded :: string where "CodeRecursiveDepthExceeded \<equiv> ''BW8102''"
abbreviation CodeRecursiveProofStale :: string where "CodeRecursiveProofStale \<equiv> ''BW8103''"
abbreviation CodeQuotaExceeded :: string where "CodeQuotaExceeded \<equiv> ''BW8201''"
abbreviation CodeStarvation :: string where "CodeStarvation \<equiv> ''BW8202''"
abbreviation CodeOverload :: string where "CodeOverload \<equiv> ''BW8301''"
abbreviation CodeRequestShed :: string where "CodeRequestShed \<equiv> ''BW8302''"
abbreviation CodeAdmissionRejected :: string where "CodeAdmissionRejected \<equiv> ''BW8303''"

definition DiagnosticMessages :: "(string, string) gomap" where
  "DiagnosticMessages =
     [(''BW8001'', ''workload profile is incompatible''),
      (''BW8002'', ''workload profile is stale''),
      (''BW8003'', ''insufficient evidence for active tuning''),
      (CodeRecommendationExceedsBound, ''adaptive recommendation exceeds hard bound''),
      (''BW8005'', ''SLO guardrail breached''),
      (''BW8006'', ''adaptive policy rolled back''),
      (CodeUnsupportedCycle, ''operation dependency graph contains unsupported cycle''),
      (CodeRecursiveDepthExceeded, ''recursive batching depth limit exceeded''),
      (CodeRecursiveProofStale, ''recursive traversal proof is stale''),
      (CodeQuotaExceeded, ''tenant quota exceeded''),
      (CodeStarvation, ''starvation detected''),
      (CodeOverload, ''scheduler overload detected''),
      (CodeRequestShed, ''request shed by policy''),
      (CodeAdmissionRejected, ''admission control rejected request''),
      (''BW8401'', ''replay input is incomplete''),
      (''BW8402'', ''cost model confidence is low'')]"

record adiag =
  ad_Code :: string
  ad_Severity :: string
  ad_Message :: string
  ad_Operation :: string
  ad_Detail :: string

definition newDiag :: "string \<Rightarrow> string \<Rightarrow> string \<Rightarrow> string \<Rightarrow> adiag" where
  "newDiag code severity operation detail =
     \<lparr>ad_Code = code, ad_Severity = severity,
      ad_Message = (case map_of DiagnosticMessages code of Some m \<Rightarrow> m | None \<Rightarrow> []),
      ad_Operation = operation, ad_Detail = detail\<rparr>"

end
