(* ===== verification/Adaptive_Waves.thy ===== *)
theory Adaptive_Waves
  imports Adaptive_Diagnostics
begin

text \<open>
  Dependency graphs of operations and their dispatch waves (internal/adaptive/wave.go). A graph is
  built by adding nodes and edges; the level of each node comes from Kahn's algorithm with a sorted
  queue. The type of costs is a parameter with the addition and the order that the code uses.
  Proved: graphs that are built by the operations keep adjacency lists and in-degrees that agree
  with the edges; levels exist exactly for graphs without a cycle and are the lengths of the
  longest paths; the waves hold every node once, after all that it depends on.
\<close>

section \<open>The graph\<close>

record 'f Node =
  wn_ID :: string
  wn_Kind :: string
  wn_Operation :: string
  wn_Cost :: 'f
  wn_Priority :: int
  wn_FusionGroup :: string
  wn_Partition :: string

record Edge =
  we_From :: string
  we_To :: string
  we_Kind :: string

record 'f WaveGraph =
  wg_Version :: string
  wg_nodes :: "(string, 'f Node) gomap"
  wg_order :: "string list"
  wg_edges :: "Edge list"
  wg_adj :: "(string, string list) gomap"
  wg_indeg :: "(string, int) gomap"

definition WaveSchemaVersion :: string where
  "WaveSchemaVersion = ''batchweaver.wave/v1alpha1''"

definition NewWaveGraph :: "'f WaveGraph" where
  "NewWaveGraph = \<lparr>wg_Version = WaveSchemaVersion, wg_nodes = [], wg_order = [], wg_edges = [], wg_adj = [], wg_indeg = []\<rparr>"

datatype wave_error = ErrNodeID | ErrFromUnknown string | ErrToUnknown string

text \<open>A missing key of a Go map reads as zero.\<close>

definition goint :: "('k, 'n :: zero) gomap \<Rightarrow> 'k \<Rightarrow> 'n" where
  "goint m k = (case map_of m k of Some x \<Rightarrow> x | None \<Rightarrow> 0)"

definition AddNode :: "'f Node \<Rightarrow> 'f WaveGraph \<Rightarrow> wave_error + 'f WaveGraph" where
  "AddNode n g =
     (if wn_ID n = [] then Inl ErrNodeID
      else
        (let g = (case map_of (wg_nodes g) (wn_ID n) of
                    Some _ \<Rightarrow> g
                  | None \<Rightarrow> g\<lparr>wg_order := wg_order g @ [wn_ID n], wg_indeg := AList.update (wn_ID n) 0 (wg_indeg g)\<rparr>)
         in Inr (g\<lparr>wg_nodes := AList.update (wn_ID n) n (wg_nodes g)\<rparr>)))"

definition AddEdge :: "Edge \<Rightarrow> 'f WaveGraph \<Rightarrow> wave_error + 'f WaveGraph" where
  "AddEdge e g =
     (if map_of (wg_nodes g) (we_From e) = None then Inl (ErrFromUnknown (we_From e))
      else if map_of (wg_nodes g) (we_To e) = None then Inl (ErrToUnknown (we_To e))
      else Inr (g\<lparr>wg_edges := wg_edges g @ [e],
                  wg_adj := AList.update (we_From e) (goget (wg_adj g) (we_From e) @ [we_To e]) (wg_adj g),
                  wg_indeg := AList.update (we_To e) (goint (wg_indeg g) (we_To e) + 1) (wg_indeg g)\<rparr>))"

definition WaveGraph_Nodes :: "'f WaveGraph \<Rightarrow> 'f Node list" where
  "WaveGraph_Nodes g = map (\<lambda>nid. the (map_of (wg_nodes g) nid)) (wg_order g)"

definition WaveGraph_Edges :: "'f WaveGraph \<Rightarrow> Edge list" where
  "WaveGraph_Edges g = wg_edges g"

section \<open>Levels\<close>

type_synonym kahn = "(string, int) gomap \<times> (string, nat) gomap \<times> string list"

definition relax :: "string \<Rightarrow> string \<Rightarrow> kahn \<Rightarrow> kahn" where
  "relax nid to = (\<lambda>(indeg, level, queue).
     (let level = (if goint level nid + 1 > goint level to then AList.update to (goint level nid + 1) level else level);
          indeg = AList.update to (goint indeg to - 1) indeg;
          queue = (if goint indeg to = 0 then sort (queue @ [to]) else queue)
      in (indeg, level, queue)))"

definition pending :: "(string, int) gomap \<Rightarrow> nat" where
  "pending m = (\<Sum>(k, x)\<leftarrow>m. nat x)"

lemma pending_update: "pending (AList.update k x m) + nat (goint m k) = pending m + nat x"
  by (induction m) (auto simp: pending_def goint_def)

lemma relax_pending:
  "case relax nid to (indeg, level, queue) of (indeg', level', queue') \<Rightarrow>
     pending indeg' + length queue' \<le> pending indeg + length queue"
proof -
  have "pending (AList.update to (goint indeg to - 1) indeg) + (if goint indeg to = 1 then 1 else 0) \<le> pending indeg"
    using pending_update [of to "goint indeg to - 1" indeg] by (auto split: if_splits)
  then show ?thesis by (auto simp: relax_def Let_def goint_def split: if_splits option.splits)
qed

lemma relaxes_pending:
  "fold (relax nid) succ (indeg, level, queue) = (indeg', level', queue') \<Longrightarrow>
     pending indeg' + length queue' \<le> pending indeg + length queue"
proof (induction succ arbitrary: indeg level queue)
  case (Cons to succ)
  obtain i l q where r: "relax nid to (indeg, level, queue) = (i, l, q)" by (metis prod.exhaust)
  with Cons.IH [of i l q] Cons.prems relax_pending [where nid = nid and to = to and indeg = indeg and level = level and queue = queue] show ?case by simp
qed simp

function topoLoop :: "(string, string list) gomap \<Rightarrow> nat \<Rightarrow> kahn \<Rightarrow> nat \<times> (string, nat) gomap" where
  "topoLoop adj processed (indeg, level, queue) =
     (case queue of
        [] \<Rightarrow> (processed, level)
      | nid # queue \<Rightarrow>
          topoLoop adj (Suc processed) (fold (relax nid) (sort (goget adj nid)) (indeg, level, queue)))"
  by pat_completeness auto
termination
proof (relation "measure (\<lambda>(adj, processed, indeg, level, queue). pending indeg + length queue)")
  fix adj processed indeg level queue nid queue'
  assume q: "queue = (nid :: string) # queue'"
  obtain i l q' where r: "fold (relax nid) (sort (goget adj nid)) (indeg, level, queue') = (i, l, q')" by (metis prod.exhaust)
  from relaxes_pending [OF this] q
  show "((adj, Suc processed, fold (relax nid) (sort (goget adj nid)) (indeg, level, queue')), adj, processed, indeg, level, queue)
      \<in> measure (\<lambda>(adj, processed, indeg, level, queue). pending indeg + length queue)"
    by (simp add: r)
qed simp

declare topoLoop.simps [simp del]

definition topoStart :: "'f WaveGraph \<Rightarrow> kahn" where
  "topoStart g =
     (let ready = filter (\<lambda>nid. goint (wg_indeg g) nid = 0) (wg_order g)
      in (wg_indeg g, fold (\<lambda>nid. AList.update nid 0) ready [], sort ready))"

definition topoLevels :: "'f WaveGraph \<Rightarrow> (string, nat) gomap option" where
  "topoLevels g =
     (let (processed, level) = topoLoop (wg_adj g) 0 (topoStart g)
      in if processed \<noteq> length (wg_order g) then None else Some level)"

definition WaveGraph_Validate :: "'f WaveGraph \<Rightarrow> adiag option" where
  "WaveGraph_Validate g =
     (case topoLevels g of
        None \<Rightarrow> Some (newDiag CodeUnsupportedCycle ''error'' [] ''operation dependency graph is not acyclic'')
      | Some _ \<Rightarrow> None)"

section \<open>Waves\<close>

record Wave =
  wv_Level :: nat
  wv_Nodes :: "string list"
  wv_FusionGroups :: "(string, string list) gomap"

definition groupByLevel :: "(string, nat) gomap \<Rightarrow> string list \<Rightarrow> (nat, string list) gomap \<times> nat \<Rightarrow> (nat, string list) gomap \<times> nat" where
  "groupByLevel levels = fold (\<lambda>nid (byLevel, maxLevel).
     (let lv = goint levels nid
      in (AList.update lv (goget byLevel lv @ [nid]) byLevel, if lv > maxLevel then lv else maxLevel)))"

definition fusionGroups :: "'f WaveGraph \<Rightarrow> string list \<Rightarrow> (string, string list) gomap" where
  "fusionGroups g ids = fold (\<lambda>nid groups.
     (case map_of (wg_nodes g) nid of
        None \<Rightarrow> groups
      | Some n \<Rightarrow>
          if wn_FusionGroup n \<noteq> [] then AList.update (wn_FusionGroup n) (goget groups (wn_FusionGroup n) @ [nid]) groups
          else groups)) ids []"

definition waveAt :: "'f WaveGraph \<Rightarrow> (nat, string list) gomap \<Rightarrow> nat \<Rightarrow> Wave list" where
  "waveAt g byLevel lv =
     (let ids = goget byLevel lv
      in if ids = [] then []
         else [\<lparr>wv_Level = lv, wv_Nodes = sort ids, wv_FusionGroups = fusionGroups g (sort ids)\<rparr>])"

definition Waves :: "'f WaveGraph \<Rightarrow> adiag + Wave list" where
  "Waves g =
     (case topoLevels g of
        None \<Rightarrow> Inl (newDiag CodeUnsupportedCycle ''error'' [] ''operation dependency graph is not acyclic'')
      | Some levels \<Rightarrow>
          (let (byLevel, maxLevel) = groupByLevel levels (wg_order g) ([], 0)
           in Inr (concat (map (waveAt g byLevel) [0..<maxLevel + 1]))))"

section \<open>The invariant of graphs\<close>

definition arcs :: "'f WaveGraph \<Rightarrow> (string \<times> string) set" where
  "arcs g = (\<lambda>e. (we_From e, we_To e)) ` set (wg_edges g)"

definition wave_ok :: "'f WaveGraph \<Rightarrow> bool" where
  "wave_ok g \<longleftrightarrow>
     distinct (wg_order g) \<and> (\<forall>v. v \<in> set (wg_order g) \<longleftrightarrow> map_of (wg_nodes g) v \<noteq> None) \<and>
     (\<forall>k n. map_of (wg_nodes g) k = Some n \<longrightarrow> wn_ID n = k) \<and>
     (\<forall>e\<in>set (wg_edges g). we_From e \<in> set (wg_order g) \<and> we_To e \<in> set (wg_order g)) \<and>
     (\<forall>u. goget (wg_adj g) u = map we_To (filter (\<lambda>e. we_From e = u) (wg_edges g))) \<and>
     (\<forall>v. goint (wg_indeg g) v = int (length (filter (\<lambda>e. we_To e = v) (wg_edges g))))"

lemma goint_update [simp]: "goint (AList.update k x m) j = (if j = k then x else goint m j)"
  by (auto simp: goint_def)

lemma NewWaveGraph_ok: "wave_ok NewWaveGraph"
  by (simp add: wave_ok_def NewWaveGraph_def goget_def goint_def)

lemma AddNode_ok:
  assumes "wave_ok g" "AddNode n g = Inr g'"
  shows "wave_ok g'" "arcs g' = arcs g"
proof -
  have "goint (wg_indeg g) (wn_ID n) = 0" if "map_of (wg_nodes g) (wn_ID n) = None"
  proof -
    have "wn_ID n \<notin> set (wg_order g)" using that assms(1) by (auto simp: wave_ok_def)
    then have "filter (\<lambda>e. we_To e = wn_ID n) (wg_edges g) = []" using assms(1) by (auto simp: wave_ok_def filter_empty_conv)
    then show ?thesis using assms(1) by (simp add: wave_ok_def)
  qed
  then show "wave_ok g'" using assms
    by (auto simp: AddNode_def wave_ok_def Let_def split: if_splits option.splits)
  show "arcs g' = arcs g" using assms(2) by (auto simp: AddNode_def arcs_def Let_def split: if_splits option.splits)
qed

lemma AddEdge_ok:
  assumes "wave_ok g" "AddEdge e g = Inr g'"
  shows "wave_ok g'" "arcs g' = insert (we_From e, we_To e) (arcs g)"
  using assms by (auto simp: AddEdge_def wave_ok_def arcs_def split: if_splits)

section \<open>Kahn's algorithm\<close>

text \<open>The state of the loop when the nodes of \<open>D\<close> are processed and the arcs to \<open>rest\<close> of the last one are not.\<close>

definition kahn_ok :: "'f WaveGraph \<Rightarrow> string set \<Rightarrow> string list \<Rightarrow> kahn \<Rightarrow> bool" where
  "kahn_ok g D rest = (\<lambda>(indeg, level, queue).
     (\<forall>v. goint indeg v = int (length (filter (\<lambda>e. we_To e = v \<and> we_From e \<notin> D) (wg_edges g)) + count_list rest v)) \<and>
     distinct queue \<and> set queue \<inter> D = {} \<and> set queue \<union> D = {v \<in> set (wg_order g). goint indeg v = 0} \<and>
     (\<forall>v. \<exists>u. (u, v) \<in> arcs g ^^ goint level v))"

lemma kahn_okD:
  assumes "kahn_ok g D rest (indeg, level, queue)"
  shows "\<exists>u. (u, v) \<in> arcs g ^^ goint level v"
    and "set queue \<union> D = {v \<in> set (wg_order g). goint indeg v = 0}"
    and "goint indeg v = int (length (filter (\<lambda>e. we_To e = v \<and> we_From e \<notin> D) (wg_edges g)) + count_list rest v)"
    and "distinct queue" "set queue \<inter> D = {}"
  using assms unfolding kahn_ok_def prod.case by blast+

definition lifted :: "'f WaveGraph \<Rightarrow> string set \<Rightarrow> (string, nat) gomap \<Rightarrow> bool" where
  "lifted g D level \<longleftrightarrow> (\<forall>u v. (u, v) \<in> arcs g \<longrightarrow> u \<in> D \<longrightarrow> goint level u < goint level v)"

lemma relax_ok:
  assumes ok: "wave_ok g" "kahn_ok g D (to # rest) (indeg, level, queue)" and arc: "nid \<in> D" "(nid, to) \<in> arcs g"
    and r: "relax nid to (indeg, level, queue) = (indeg', level', queue')"
  shows "kahn_ok g D rest (indeg', level', queue')"
    "goint level' v = (if v = to then max (goint level to) (goint level nid + 1) else goint level v)"
    "to \<notin> D"
proof -
  have to: "to \<in> set (wg_order g)" using ok(1) arc by (auto simp: wave_ok_def arcs_def)
  have pos: "goint indeg to > 0" using kahn_okD(3) [OF ok(2), of to] by simp
  have qd: "set queue \<union> D = {v \<in> set (wg_order g). goint indeg v = 0}"
    by (rule kahn_okD(2) [OF ok(2)])
  have "to \<notin> set queue \<union> D" unfolding qd using pos by simp
  then have q: "to \<notin> set queue" and d: "to \<notin> D" by auto
  show "to \<notin> D" by (rule d)
  have indeg': "indeg' = AList.update to (goint indeg to - 1) indeg"
    and queue': "queue' = (if goint indeg to = 1 then sort (queue @ [to]) else queue)"
    and level': "level' = (if goint level nid + 1 > goint level to then AList.update to (goint level nid + 1) level else level)"
    using r by (auto simp: relax_def Let_def)
  show lv: "goint level' v = (if v = to then max (goint level to) (goint level nid + 1) else goint level v)" for v
    by (simp add: level' max_def)
  have "\<exists>u. (u, v) \<in> arcs g ^^ goint level' v" for v
  proof (cases "v = to \<and> goint level nid + 1 > goint level to")
    case True
    obtain u where "(u, nid) \<in> arcs g ^^ goint level nid" using kahn_okD(1) [OF ok(2)] by blast
    with arc True show ?thesis by (auto simp: lv)
  next
    case False
    then have "goint level' v = goint level v" by (auto simp: lv)
    then show ?thesis using kahn_okD(1) [OF ok(2), of v] by simp
  qed
  moreover have "set queue' \<union> D = {v \<in> set (wg_order g). goint indeg' v = 0}"
    using qd to pos by (auto simp: queue' indeg' split: if_splits)
  moreover have "goint indeg' v = int (length (filter (\<lambda>e. we_To e = v \<and> we_From e \<notin> D) (wg_edges g)) + count_list rest v)"
    for v using kahn_okD(3) [OF ok(2), of v] by (auto simp: indeg')
  moreover have "distinct queue'" "set queue' \<inter> D = {}" using kahn_okD(4,5) [OF ok(2)] q d by (auto simp: queue')
  ultimately show "kahn_ok g D rest (indeg', level', queue')" unfolding kahn_ok_def by blast
qed

lemma relaxes_ok:
  assumes "wave_ok g" "nid \<in> D" "kahn_ok g D succ (indeg, level, queue)" "\<forall>to\<in>set succ. (nid, to) \<in> arcs g"
    and "fold (relax nid) succ (indeg, level, queue) = (indeg', level', queue')"
  shows "kahn_ok g D [] (indeg', level', queue') \<and>
    (\<forall>v. goint level v \<le> goint level' v \<and> (v \<in> D \<longrightarrow> goint level' v = goint level v) \<and>
      (v \<in> set succ \<longrightarrow> goint level nid < goint level' v))"
  using assms(3-)
proof (induction succ arbitrary: indeg level queue)
  case (Cons to succ)
  obtain i l q where r: "relax nid to (indeg, level, queue) = (i, l, q)" by (metis prod.exhaust)
  have arc: "(nid, to) \<in> arcs g" using Cons.prems(2) by simp
  note step = relax_ok [OF assms(1) Cons.prems(1) assms(2) arc r]
  have "nid \<noteq> to" using step(3) assms(2) by blast
  with Cons.IH [OF step(1)] Cons.prems(2,3) r step(2,3)
  have rest: "kahn_ok g D [] (indeg', level', queue')"
    "\<And>v. goint l v \<le> goint level' v \<and> (v \<in> D \<longrightarrow> goint level' v = goint l v) \<and> (v \<in> set succ \<longrightarrow> goint level nid < goint level' v)"
    by auto
  have "goint level v \<le> goint level' v \<and> (v \<in> D \<longrightarrow> goint level' v = goint level v) \<and>
      (v \<in> set (to # succ) \<longrightarrow> goint level nid < goint level' v)" for v
    using rest(2) [of v] step(2) [of v] step(3) by (auto split: if_splits)
  with rest(1) show ?case by blast
qed simp

lemma count_list_sort: "count_list (sort xs) v = count_list xs (v :: 'a :: linorder)"
proof -
  have "count_list (insort x ys) v = count_list (x # ys) v" for x ys by (induction ys) auto
  then show ?thesis by (induction xs) simp_all
qed

lemma node_taken:
  assumes "wave_ok g" "kahn_ok g D [] (indeg, level, nid # queue)"
  shows "kahn_ok g (insert nid D) (sort (goget (wg_adj g) nid)) (indeg, level, queue)"
proof -
  have new: "nid \<notin> D" using kahn_okD(5) [OF assms(2)] by simp
  have split: "length (filter (\<lambda>e. we_To e = v \<and> we_From e \<notin> D) es) =
      length (filter (\<lambda>e. we_To e = v \<and> we_From e \<notin> insert nid D) es) +
      count_list (map we_To (filter (\<lambda>e. we_From e = nid) es)) v" for v es
    using new by (induction es) auto
  have adj: "goget (wg_adj g) nid = map we_To (filter (\<lambda>e. we_From e = nid) (wg_edges g))"
    using assms(1) by (simp add: wave_ok_def)
  have "goint indeg v = int (length (filter (\<lambda>e. we_To e = v \<and> we_From e \<notin> insert nid D) (wg_edges g)) +
      count_list (sort (goget (wg_adj g) nid)) v)" for v
    using kahn_okD(3) [OF assms(2), of v] split [of v "wg_edges g"] unfolding count_list_sort adj by simp
  moreover have "set queue \<union> insert nid D = {v \<in> set (wg_order g). goint indeg v = 0}"
    using kahn_okD(2) [OF assms(2)] by simp
  moreover have "distinct queue" "set queue \<inter> insert nid D = {}" using kahn_okD(4,5) [OF assms(2)] by auto
  ultimately show ?thesis using kahn_okD(1) [OF assms(2)] unfolding kahn_ok_def by blast
qed

lemma adj_arcs: "wave_ok g \<Longrightarrow> to \<in> set (goget (wg_adj g) u) \<longleftrightarrow> (u, to) \<in> arcs g"
  by (auto simp: wave_ok_def arcs_def image_iff)

lemma topoLoop_ok:
  assumes g: "wave_ok g"
    and "kahn_ok g D [] s" "lifted g D (fst (snd s))" "card D = processed"
  shows "\<exists>D' indeg. kahn_ok g D' [] (indeg, snd (topoLoop (wg_adj g) processed s), []) \<and>
    lifted g D' (snd (topoLoop (wg_adj g) processed s)) \<and> card D' = fst (topoLoop (wg_adj g) processed s)"
  using assms(2-)
proof (induction "wg_adj g" processed s arbitrary: D rule: topoLoop.induct)
  case (1 processed indeg level queue)
  show ?case
  proof (cases queue)
    case Nil
    with "1.prems" show ?thesis by (auto simp: topoLoop.simps)
  next
    case (Cons nid q)
    let ?D = "insert nid D"
    note ok = "1.prems"(1) [unfolded Cons]
    obtain i l q' where f: "fold (relax nid) (sort (goget (wg_adj g) nid)) (indeg, level, q) = (i, l, q')"
      by (metis prod.exhaust)
    have "\<forall>to\<in>set (sort (goget (wg_adj g) nid)). (nid, to) \<in> arcs g" using adj_arcs [OF g] by simp
    note r = relaxes_ok [OF g insertI1 node_taken [OF g ok] this f]
    have "lifted g ?D l"
      unfolding lifted_def
    proof (intro allI impI)
      fix u v assume uv: "(u, v) \<in> arcs g" "u \<in> ?D"
      have same: "goint l u = goint level u" using r uv(2) by blast
      show "goint l u < goint l v"
      proof (cases "u = nid")
        case True
        with r uv(1) adj_arcs [OF g] same show ?thesis by simp
      next
        case False
        with "1.prems"(2) uv have "goint level u < goint level v" by (auto simp: lifted_def)
        with r same show ?thesis by (metis less_le_trans)
      qed
    qed
    moreover have "card ?D = Suc processed"
    proof -
      have "D \<subseteq> set (wg_order g)" "nid \<notin> D" using kahn_okD(2,5) [OF ok] by auto
      then show ?thesis using "1.prems"(3) finite_subset [OF _ finite_set] by (metis card_insert_disjoint)
    qed
    moreover have "topoLoop (wg_adj g) processed (indeg, level, queue) = topoLoop (wg_adj g) (Suc processed) (i, l, q')"
      using Cons f by (simp add: topoLoop.simps)
    ultimately show ?thesis using "1.hyps" [OF Cons, of ?D] r f by simp
  qed
qed

lemma topoStart_ok: "wave_ok g \<Longrightarrow> kahn_ok g {} [] (topoStart g)"
proof -
  assume g: "wave_ok g"
  have zero: "goint (fold (\<lambda>nid. AList.update nid 0) ids m) v = 0" if "\<forall>v. goint m v = (0 :: nat)" for ids m and v :: string
    using that by (induction ids arbitrary: m) auto
  have "goint ([] :: (string, nat) gomap) v = 0" for v by (simp add: goint_def)
  with zero [of "[]"] g show ?thesis by (auto simp: topoStart_def kahn_ok_def wave_ok_def Let_def)
qed

lemma arcs_finite: "finite (arcs g)"
  by (simp add: arcs_def)

lemma lifted_path:
  assumes "\<And>u v. (u, v) \<in> E \<Longrightarrow> f u < (f v :: nat)"
  shows "(u, v) \<in> E ^^ n \<Longrightarrow> f u + n \<le> f v"
proof (induction n arbitrary: v)
  case (Suc n)
  then obtain w where "(u, w) \<in> E ^^ n" "(w, v) \<in> E" by auto
  with Suc.IH [of w] assms [of w v] show ?case by linarith
qed simp

text \<open>The level of each node is the length of the longest path to it.\<close>

lemma topoLevels_Some:
  assumes g: "wave_ok g" and "topoLevels g = Some level"
  shows "(u, v) \<in> arcs g \<Longrightarrow> goint level u < goint level v" "acyclic (arcs g)"
    "\<exists>u. (u, v) \<in> arcs g ^^ goint level v" "(u, v) \<in> arcs g ^^ n \<Longrightarrow> n \<le> goint level v"
proof -
  have loop: "topoLoop (wg_adj g) 0 (topoStart g) = (length (wg_order g), level)"
    using assms(2) by (auto simp: topoLevels_def split: if_splits prod.splits)
  have "lifted g {} (fst (snd (topoStart g)))" by (simp add: lifted_def)
  from topoLoop_ok [OF g topoStart_ok [OF g] this] loop
  obtain D indeg where D: "kahn_ok g D [] (indeg, level, [])" "lifted g D level" "card D = length (wg_order g)" by auto
  have "D \<subseteq> set (wg_order g)" using kahn_okD(2) [OF D(1)] by auto
  moreover have "card (set (wg_order g)) = length (wg_order g)" using g by (simp add: wave_ok_def distinct_card)
  ultimately have "D = set (wg_order g)" using D(3) by (metis card_subset_eq finite_set)
  with D(2) g show up: "goint level u < goint level v" if "(u, v) \<in> arcs g" for u v
    using that by (auto simp: lifted_def wave_ok_def arcs_def)
  then have "arcs g \<subseteq> measure (goint level)" by auto
  then show "acyclic (arcs g)" using acyclic_subset wf_acyclic wf_measure by blast
  show "\<exists>u. (u, v) \<in> arcs g ^^ goint level v" by (rule kahn_okD(1) [OF D(1)])
  show "n \<le> goint level v" if "(u, v) \<in> arcs g ^^ n" using lifted_path [of "arcs g" "goint level" u v n, OF up that] by simp
qed

lemma topoLevels_None:
  assumes g: "wave_ok g" and "topoLevels g = None"
  shows "\<not> acyclic (arcs g)"
proof
  assume "acyclic (arcs g)"
  then have wf: "wf (arcs g)" by (rule finite_acyclic_wf [OF arcs_finite])
  obtain p level where loop: "topoLoop (wg_adj g) 0 (topoStart g) = (p, level)" "p \<noteq> length (wg_order g)"
    using assms(2) by (auto simp: topoLevels_def split: if_splits prod.splits)
  have "lifted g {} (fst (snd (topoStart g)))" by (simp add: lifted_def)
  from topoLoop_ok [OF g topoStart_ok [OF g] this] loop
  obtain D indeg where D: "kahn_ok g D [] (indeg, level, [])" "card D = p" by auto
  have sub: "D \<subseteq> set (wg_order g)" using kahn_okD(2) [OF D(1)] by auto
  have "card (set (wg_order g)) = length (wg_order g)" using g by (simp add: wave_ok_def distinct_card)
  with D(2) loop(2) have "set (wg_order g) - D \<noteq> {}" using sub by (metis Diff_eq_empty_iff equalityI)
  then obtain v where v: "v \<in> set (wg_order g) - D" "\<And>u. (u, v) \<in> arcs g \<Longrightarrow> u \<notin> set (wg_order g) - D"
    using wf by (metis ex_in_conv wfE_min)
  then have "goint indeg v \<noteq> 0" using kahn_okD(2) [OF D(1)] by auto
  then have "filter (\<lambda>e. we_To e = v \<and> we_From e \<notin> D) (wg_edges g) \<noteq> []"
    using kahn_okD(3) [OF D(1), of v] by auto
  then obtain e where "e \<in> set (wg_edges g)" "we_To e = v" "we_From e \<notin> D" by (auto simp: filter_empty_conv)
  with v(2) [of "we_From e"] g show False by (auto simp: arcs_def wave_ok_def)
qed

section \<open>Grouping\<close>

lemma groupByLevel_spec:
  "groupByLevel levels ids (m, mx) = (byLevel, maxLevel) \<Longrightarrow>
     goget byLevel lv = goget m lv @ filter (\<lambda>nid. goint levels nid = lv) ids \<and>
     mx \<le> maxLevel \<and> (\<forall>nid\<in>set ids. goint levels nid \<le> maxLevel)"
proof (induction ids arbitrary: m mx)
  case (Cons x ids)
  let ?m = "AList.update (goint levels x) (goget m (goint levels x) @ [x]) m"
  let ?mx = "if goint levels x > mx then goint levels x else mx"
  have "groupByLevel levels ids (?m, ?mx) = (byLevel, maxLevel)" using Cons.prems by (simp add: groupByLevel_def Let_def)
  from Cons.IH [OF this] show ?case by (auto split: if_splits)
qed (simp add: groupByLevel_def)

definition groupOf :: "'f WaveGraph \<Rightarrow> string \<Rightarrow> string" where
  "groupOf g nid = (case map_of (wg_nodes g) nid of Some n \<Rightarrow> wn_FusionGroup n | None \<Rightarrow> [])"

lemma fusionGroups_spec: "grp \<noteq> [] \<Longrightarrow> goget (fusionGroups g ids) grp = filter (\<lambda>nid. groupOf g nid = grp) ids"
proof -
  assume grp: "grp \<noteq> []"
  let ?step = "\<lambda>nid groups. case map_of (wg_nodes g) nid of None \<Rightarrow> groups
      | Some n \<Rightarrow> if wn_FusionGroup n \<noteq> [] then AList.update (wn_FusionGroup n) (goget groups (wn_FusionGroup n) @ [nid]) groups
          else groups"
  have "goget (fold ?step ids m) grp = goget m grp @ filter (\<lambda>nid. groupOf g nid = grp) ids" for m
    using grp by (induction ids arbitrary: m) (auto simp: groupOf_def split: option.split)
  from this [of "[]"] show ?thesis by (simp add: fusionGroups_def goget_def)
qed

text \<open>The waves of a graph with given levels.\<close>

definition waves_ok :: "'f WaveGraph \<Rightarrow> (string, nat) gomap \<Rightarrow> Wave list \<Rightarrow> bool" where
  "waves_ok g level ws \<longleftrightarrow>
     distinct (concat (map wv_Nodes ws)) \<and> set (concat (map wv_Nodes ws)) = set (wg_order g) \<and>
     sorted_wrt (<) (map wv_Level ws) \<and>
     (\<forall>w\<in>set ws. wv_Nodes w \<noteq> [] \<and> sorted (wv_Nodes w) \<and> (\<forall>v\<in>set (wv_Nodes w). goint level v = wv_Level w) \<and>
       (\<forall>grp. grp \<noteq> [] \<longrightarrow> goget (wv_FusionGroups w) grp = filter (\<lambda>v. groupOf g v = grp) (wv_Nodes w)))"

lemma levels_upto:
  fixes f :: "nat \<Rightarrow> Wave list"
  assumes "\<And>lv. f lv = [] \<or> (\<exists>w. f lv = [w] \<and> wv_Level w = lv)"
  shows "sorted_wrt (<) (map wv_Level (concat (map f [0..<n])))"
    and "\<forall>w\<in>set (concat (map f [0..<n])). wv_Level w < n"
proof (induction n)
  case (Suc n)
  case 1
  show ?case using Suc assms [of n] by (auto simp: sorted_wrt_append)
  case 2
  show ?case using Suc assms [of n] by fastforce
qed simp_all

lemma nodes_upto:
  assumes "\<And>lv. concat (map wv_Nodes (f lv)) = sort (filter (\<lambda>v. lev v = lv) vs)" "distinct vs"
  shows "distinct (concat (map wv_Nodes (concat (map f [0..<n]))))"
    and "set (concat (map wv_Nodes (concat (map f [0..<n])))) = {v \<in> set vs. lev v < n}"
proof (induction n)
  case (Suc n)
  case 1
  show ?case using Suc assms by auto
  case 2
  show ?case using Suc assms by (auto simp: less_Suc_eq)
qed simp_all

lemma Waves_ok:
  assumes g: "wave_ok g" and "topoLevels g = Some level"
  shows "\<exists>ws. Waves g = Inr ws \<and> waves_ok g level ws"
proof -
  obtain byLevel maxLevel where grp: "groupByLevel level (wg_order g) ([], 0) = (byLevel, maxLevel)" by fastforce
  have lvl: "goget byLevel lv = filter (\<lambda>v. goint level v = lv) (wg_order g)" for lv
    using groupByLevel_spec [OF grp, of lv] by (simp add: goget_def)
  have mx: "\<forall>v\<in>set (wg_order g). goint level v < maxLevel + 1" using groupByLevel_spec [OF grp, of 0] by (simp add: less_Suc_eq_le)
  let ?f = "waveAt g byLevel"
  let ?ws = "concat (map ?f [0..<maxLevel + 1])"
  have f: "concat (map wv_Nodes (?f lv)) = sort (filter (\<lambda>v. goint level v = lv) (wg_order g))" for lv
    by (simp add: waveAt_def lvl Let_def)
  have "distinct (wg_order g)" using g by (simp add: wave_ok_def)
  note nodes = nodes_upto [of ?f "goint level" "wg_order g", OF f this, of "maxLevel + 1"]
  have "wv_Nodes w \<noteq> [] \<and> sorted (wv_Nodes w) \<and> (\<forall>v\<in>set (wv_Nodes w). goint level v = wv_Level w) \<and>
       (\<forall>grp. grp \<noteq> [] \<longrightarrow> goget (wv_FusionGroups w) grp = filter (\<lambda>v. groupOf g v = grp) (wv_Nodes w))"
    if "w \<in> set (?f lv)" for w lv
  proof -
    let ?ids = "goget byLevel lv"
    from that have w: "?ids \<noteq> []" "w = \<lparr>wv_Level = lv, wv_Nodes = sort ?ids, wv_FusionGroups = fusionGroups g (sort ?ids)\<rparr>"
      by (simp_all add: waveAt_def Let_def split: if_splits)
    have "\<forall>v\<in>set ?ids. goint level v = lv" by (simp add: lvl)
    moreover have "sort ?ids \<noteq> []" using w(1) by (metis length_0_conv length_sort)
    ultimately show ?thesis by (simp add: w(2) fusionGroups_spec)
  qed
  then have each: "\<forall>w\<in>set ?ws. wv_Nodes w \<noteq> [] \<and> sorted (wv_Nodes w) \<and> (\<forall>v\<in>set (wv_Nodes w). goint level v = wv_Level w) \<and>
       (\<forall>grp. grp \<noteq> [] \<longrightarrow> goget (wv_FusionGroups w) grp = filter (\<lambda>v. groupOf g v = grp) (wv_Nodes w))"
    by (auto simp del: upt_Suc)
  have "sorted_wrt (<) (map wv_Level ?ws)" by (rule levels_upto) (simp add: waveAt_def Let_def)
  with nodes each mx have "waves_ok g level ?ws" unfolding waves_ok_def by blast
  moreover have "Waves g = Inr ?ws" using assms(2) grp by (simp add: Waves_def)
  ultimately show ?thesis by blast
qed

section \<open>Properties\<close>

text \<open>Graphs that the operations build.\<close>

inductive built :: "'f WaveGraph \<Rightarrow> bool" where
  built_new: "built NewWaveGraph"
| built_node: "built g \<Longrightarrow> AddNode n g = Inr g' \<Longrightarrow> built g'"
| built_edge: "built g \<Longrightarrow> AddEdge e g = Inr g' \<Longrightarrow> built g'"

lemma built_ok: "built g \<Longrightarrow> wave_ok g"
  by (induction rule: built.induct) (auto intro: NewWaveGraph_ok AddNode_ok(1) AddEdge_ok(1))

text \<open>The length of the longest path to a node.\<close>

definition longest_to :: "(string \<times> string) set \<Rightarrow> string \<Rightarrow> nat \<Rightarrow> bool" where
  "longest_to E v n \<longleftrightarrow> (\<exists>u. (u, v) \<in> E ^^ n) \<and> (\<forall>m u. (u, v) \<in> E ^^ m \<longrightarrow> m \<le> n)"

text \<open>C20: a graph built by adding nodes and edges is refused, by \<open>Validate\<close> and by \<open>Waves\<close>, exactly when it has a cycle.
  Otherwise the waves hold each node once, in ascending levels and sorted within a wave, the level of a node is the length
  of the longest path to it, so that a node comes in a later wave than all it depends on, and the fusion groups of a wave
  are its nodes of the same non-empty group.\<close>

theorem waves_correct:
  assumes "built g"
  shows "case Waves g of
      Inl d \<Rightarrow> \<not> acyclic (arcs g) \<and> WaveGraph_Validate g = Some d
    | Inr ws \<Rightarrow> acyclic (arcs g) \<and> WaveGraph_Validate g = None \<and>
        distinct (concat (map wv_Nodes ws)) \<and> set (concat (map wv_Nodes ws)) = set (wg_order g) \<and>
        sorted_wrt (<) (map wv_Level ws) \<and>
        (\<forall>w\<in>set ws. wv_Nodes w \<noteq> [] \<and> sorted (wv_Nodes w) \<and>
          (\<forall>v\<in>set (wv_Nodes w). longest_to (arcs g) v (wv_Level w)) \<and>
          (\<forall>grp. grp \<noteq> [] \<longrightarrow> goget (wv_FusionGroups w) grp = filter (\<lambda>v. groupOf g v = grp) (wv_Nodes w)))"
proof (cases "topoLevels g")
  case None
  with topoLevels_None [OF built_ok [OF assms]] show ?thesis by (simp add: Waves_def WaveGraph_Validate_def)
next
  case (Some level)
  note ok = topoLevels_Some [OF built_ok [OF assms] Some]
  have longest: "longest_to (arcs g) v (goint level v)" for v using ok(3,4) by (auto simp: longest_to_def)
  obtain ws where "Waves g = Inr ws" and ws: "waves_ok g level ws" using Waves_ok [OF built_ok [OF assms] Some] by blast
  moreover have "\<forall>w\<in>set ws. \<forall>v\<in>set (wv_Nodes w). longest_to (arcs g) v (wv_Level w)"
    using ws longest unfolding waves_ok_def by metis
  ultimately show ?thesis using ok(2) Some by (simp add: WaveGraph_Validate_def waves_ok_def)
qed

text \<open>A graph from a list of additions.\<close>

fun addAll :: "('f Node + Edge) list \<Rightarrow> 'f WaveGraph \<Rightarrow> 'f WaveGraph option" where
  "addAll [] g = Some g"
| "addAll (Inl n # xs) g = (case AddNode n g of Inr g \<Rightarrow> addAll xs g | Inl e \<Rightarrow> None)"
| "addAll (Inr e # xs) g = (case AddEdge e g of Inr g \<Rightarrow> addAll xs g | Inl e \<Rightarrow> None)"

lemma addAll_built: "addAll xs g = Some g' \<Longrightarrow> built g \<Longrightarrow> built g'"
  by (induction xs g rule: addAll.induct) (auto split: sum.splits intro: built.intros)

definition mkNode :: "string \<Rightarrow> int \<Rightarrow> int Node" where
  "mkNode nid cost = \<lparr>wn_ID = nid, wn_Kind = ''operation'', wn_Operation = nid, wn_Cost = cost, wn_Priority = 0,
     wn_FusionGroup = (if nid = ''a'' then [] else ''g''), wn_Partition = []\<rparr>"

definition mkEdge :: "string \<Rightarrow> string \<Rightarrow> Edge" where
  "mkEdge u v = \<lparr>we_From = u, we_To = v, we_Kind = ''data''\<rparr>"

definition demo_adds :: "(int Node + Edge) list" where
  "demo_adds = [Inl (mkNode ''d'' 1), Inl (mkNode ''a'' 2), Inl (mkNode ''c'' 5), Inl (mkNode ''b'' 3),
     Inr (mkEdge ''a'' ''c''), Inr (mkEdge ''a'' ''b''), Inr (mkEdge ''b'' ''d''), Inr (mkEdge ''a'' ''d'')]"

definition demo_graph :: "int WaveGraph" where
  "demo_graph = (case addAll demo_adds NewWaveGraph of Some g \<Rightarrow> g | None \<Rightarrow> NewWaveGraph)"

lemma demo_built: "built demo_graph"
proof (cases "addAll demo_adds NewWaveGraph")
  case None
  then show ?thesis by (simp add: demo_graph_def built_new)
next
  case (Some g)
  with addAll_built [OF Some built_new] show ?thesis by (simp add: demo_graph_def)
qed

lemma waves_correct_witness:
  "built demo_graph \<and> acyclic (arcs demo_graph) \<and> longest_to (arcs demo_graph) ''d'' 2 \<and>
   Waves demo_graph = Inr
     [\<lparr>wv_Level = 0, wv_Nodes = [''a''], wv_FusionGroups = []\<rparr>,
      \<lparr>wv_Level = 1, wv_Nodes = [''b'', ''c''], wv_FusionGroups = [(''g'', [''b'', ''c''])]\<rparr>,
      \<lparr>wv_Level = 2, wv_Nodes = [''d''], wv_FusionGroups = [(''g'', [''d''])]\<rparr>]"
proof -
  have run: "Waves demo_graph = Inr
     [\<lparr>wv_Level = 0, wv_Nodes = [''a''], wv_FusionGroups = []\<rparr>,
      \<lparr>wv_Level = 1, wv_Nodes = [''b'', ''c''], wv_FusionGroups = [(''g'', [''b'', ''c''])]\<rparr>,
      \<lparr>wv_Level = 2, wv_Nodes = [''d''], wv_FusionGroups = [(''g'', [''d''])]\<rparr>]"
    by code_simp
  from waves_correct [OF demo_built, unfolded run sum.case] have "acyclic (arcs demo_graph)" "longest_to (arcs demo_graph) ''d'' 2"
    by simp_all
  with run demo_built show ?thesis by blast
qed

end
