(* ===== verification/Adaptive_CriticalPath.thy ===== *)
theory Adaptive_CriticalPath
  imports Adaptive_Waves "HOL-Library.Product_Lexorder"
begin

text \<open>
  The critical path of a dependency graph (internal/adaptive/wave.go, CriticalPath). The walk back
  along the predecessors is a loop that the code bounds by nothing, so that its value is optional;
  it is shown to end. Costs are float64 in the code: that the result is a path holds for any
  addition and any order, that its cost is maximal where the addition is exact.
\<close>

section \<open>The model\<close>

type_synonym 'f crit = "(string, 'f) gomap \<times> (string, 'f) gomap \<times> (string, string) gomap \<times> string"

definition nodeCost :: "('f :: zero) WaveGraph \<Rightarrow> string \<Rightarrow> 'f" where
  "nodeCost g nid = (case map_of (wg_nodes g) nid of Some n \<Rightarrow> wn_Cost n | None \<Rightarrow> 0)"

definition offer ::
  "'f \<Rightarrow> string \<Rightarrow> string \<Rightarrow> (string, 'f) gomap \<times> (string, string) gomap \<Rightarrow> (string, 'f :: {ord, zero}) gomap \<times> (string, string) gomap" where
  "offer d nid to = (\<lambda>(incoming, pred).
     if d > goint incoming to then (AList.update to d incoming, AList.update to nid pred) else (incoming, pred))"

definition critStep :: "'f WaveGraph \<Rightarrow> string \<Rightarrow> 'f crit \<Rightarrow> ('f :: {plus, ord, zero}) crit" where
  "critStep g nid = (\<lambda>(incoming, dist, pred, best).
     (let dist = AList.update nid (goint incoming nid + nodeCost g nid) dist;
          (incoming, pred) = fold (offer (goint dist nid) nid) (goget (wg_adj g) nid) (incoming, pred);
          best = (if best = [] \<or> goint dist nid > goint dist best then nid else best)
      in (incoming, dist, pred, best)))"

partial_function (option) walkBack :: "(string, string) gomap \<Rightarrow> string \<Rightarrow> string list \<Rightarrow> string list option" where
  [code]: "walkBack pred nid path =
     (case map_of pred nid of
        None \<Rightarrow> Some (nid # path)
      | Some p \<Rightarrow> walkBack pred p (nid # path))"

definition orderByLevel :: "(string, nat) gomap \<Rightarrow> string list \<Rightarrow> string list" where
  "orderByLevel levels = sort_key (\<lambda>nid. (goint levels nid, nid))"

definition CriticalPath :: "('f :: {plus, ord, zero}) WaveGraph \<Rightarrow> string list option" where
  "CriticalPath g =
     (case topoLevels g of
        None \<Rightarrow> Some []
      | Some levels \<Rightarrow>
          (let (incoming, dist, pred, best) = fold (critStep g) (orderByLevel levels (wg_order g)) ([], [], [], [])
           in if best = [] then Some [] else walkBack pred best []))"

section \<open>Relaxation\<close>

text \<open>What holds when the nodes of \<open>P\<close> are processed, for any addition and order.\<close>

definition crit_ok :: "'f WaveGraph \<Rightarrow> string set \<Rightarrow> 'f crit \<Rightarrow> bool" where
  "crit_ok g P = (\<lambda>(incoming, dist, pred, best).
     (\<forall>u v. map_of pred v = Some u \<longrightarrow> u \<in> P \<and> (u, v) \<in> arcs g) \<and>
     [] \<notin> P \<and> (if P = {} then best = [] else best \<in> P))"

text \<open>What holds in addition where the addition is exact.\<close>

definition exact_ok :: "('f :: linordered_ab_group_add) WaveGraph \<Rightarrow> string set \<Rightarrow> 'f crit \<Rightarrow> bool" where
  "exact_ok g P = (\<lambda>(incoming, dist, pred, best).
     (\<forall>v. goint incoming v = (case map_of pred v of None \<Rightarrow> 0 | Some u \<Rightarrow> goint dist u) \<and> 0 \<le> goint incoming v) \<and>
     (\<forall>v\<in>P. goint dist v = goint incoming v + nodeCost g v \<and> goint dist v \<le> goint dist best) \<and>
     (\<forall>u v. u \<in> P \<longrightarrow> (u, v) \<in> arcs g \<longrightarrow> goint dist u \<le> goint incoming v))"

lemma offers_other:
  "fold (offer d nid) succ (incoming, pred) = (incoming', pred') \<Longrightarrow> v \<notin> set succ \<Longrightarrow>
     goint incoming' v = goint incoming v \<and> map_of pred' v = map_of pred v"
proof (induction succ arbitrary: incoming pred)
  case (Cons to succ)
  obtain i p where o: "offer d nid to (incoming, pred) = (i, p)" by fastforce
  with Cons.prems have "goint i v = goint incoming v" "map_of p v = map_of pred v"
    by (auto simp: offer_def split: if_splits)
  with Cons.IH [of i p] Cons.prems o show ?case by simp
qed simp

lemma offers_pred:
  "fold (offer d nid) succ (incoming, pred) = (incoming', pred') \<Longrightarrow>
     map_of pred' v = map_of pred v \<or> map_of pred' v = Some nid \<and> v \<in> set succ"
proof (induction succ arbitrary: incoming pred)
  case (Cons to succ)
  obtain i p where o: "offer d nid to (incoming, pred) = (i, p)" by fastforce
  then have "map_of p v = map_of pred v \<or> map_of p v = Some nid \<and> v = to" by (auto simp: offer_def split: if_splits)
  with Cons.IH [of i p] Cons.prems o show ?case by auto
qed simp

lemma offers_value:
  fixes d :: "'f :: linordered_ab_group_add"
  assumes "fold (offer d nid) succ (incoming, pred) = (incoming', pred')"
  shows "goint incoming' v = (if v \<in> set succ then max (goint incoming v) d else goint incoming v)"
    and "if v \<in> set succ \<and> d > goint incoming v then map_of pred' v = Some nid else map_of pred' v = map_of pred v"
proof -
  have "goint incoming' v = (if v \<in> set succ then max (goint incoming v) d else goint incoming v) \<and>
      (if v \<in> set succ \<and> d > goint incoming v then map_of pred' v = Some nid else map_of pred' v = map_of pred v)"
    using assms
  proof (induction succ arbitrary: incoming pred)
    case (Cons to succ)
    obtain i p where o: "offer d nid to (incoming, pred) = (i, p)" by fastforce
    then have "goint i v = (if v = to then max (goint incoming v) d else goint incoming v)"
        "map_of p v = (if v = to \<and> d > goint incoming v then Some nid else map_of pred v)"
      by (auto simp: offer_def max_def split: if_splits)
    with Cons.IH [of i p] Cons.prems o show ?case by (auto simp: max_def split: if_splits)
  qed simp
  then show "goint incoming' v = (if v \<in> set succ then max (goint incoming v) d else goint incoming v)"
    "if v \<in> set succ \<and> d > goint incoming v then map_of pred' v = Some nid else map_of pred' v = map_of pred v"
    by auto
qed

lemma critStep_ok:
  assumes "wave_ok g" "crit_ok g P s" "nid \<noteq> []"
  shows "crit_ok g (insert nid P) (critStep g nid s)"
proof -
  obtain incoming dist pred best where s: "s = (incoming, dist, pred, best)" by (metis prod.exhaust)
  let ?d = "goint incoming nid + nodeCost g nid"
  obtain i p where f: "fold (offer ?d nid) (goget (wg_adj g) nid) (incoming, pred) = (i, p)" by fastforce
  have "u \<in> insert nid P \<and> (u, v) \<in> arcs g" if "map_of p v = Some u" for u v
    using offers_pred [OF f, of v] that assms(2) adj_arcs [OF assms(1)] by (auto simp: crit_ok_def s)
  then show ?thesis using assms(2,3) f by (auto simp: s critStep_def crit_ok_def Let_def split: if_splits)
qed

lemma critStep_exact:
  assumes g: "wave_ok g" and ok: "crit_ok g P s" "exact_ok g P s" and nid: "nid \<noteq> []" "nid \<notin> P"
    and fresh: "\<And>v. (nid, v) \<in> arcs g \<Longrightarrow> v \<notin> insert nid P"
  shows "exact_ok g (insert nid P) (critStep g nid s)"
proof -
  obtain incoming dist pred best where s: "s = (incoming, dist, pred, best)" by (metis prod.exhaust)
  let ?d = "goint incoming nid + nodeCost g nid"
  let ?dist = "AList.update nid ?d dist"
  let ?best = "if best = [] \<or> ?d > goint ?dist best then nid else best"
  obtain i p where f: "fold (offer ?d nid) (goget (wg_adj g) nid) (incoming, pred) = (i, p)" by fastforce
  have step: "critStep g nid s = (i, ?dist, p, ?best)" using f by (simp add: s critStep_def Let_def)
  note val = offers_value [OF f, unfolded adj_arcs [OF g]]
  have old: "\<And>v. goint incoming v = (case map_of pred v of None \<Rightarrow> 0 | Some u \<Rightarrow> goint dist u)" "\<And>v. 0 \<le> goint incoming v"
      "\<And>v. v \<in> P \<Longrightarrow> goint dist v = goint incoming v + nodeCost g v" "\<And>v. v \<in> P \<Longrightarrow> goint dist v \<le> goint dist best"
      "\<And>u v. u \<in> P \<Longrightarrow> (u, v) \<in> arcs g \<Longrightarrow> goint dist u \<le> goint incoming v"
      "\<And>u v. map_of pred v = Some u \<Longrightarrow> u \<in> P"
    using ok unfolding s exact_ok_def crit_ok_def prod.case by blast+
  have same: "goint i v = goint incoming v" if "v \<in> insert nid P" for v using val(1) [of v] fresh that by auto
  have "goint i v = (case map_of p v of None \<Rightarrow> 0 | Some u \<Rightarrow> goint ?dist u) \<and> 0 \<le> goint i v" for v
  proof (cases "(nid, v) \<in> arcs g \<and> ?d > goint incoming v")
    case True
    then show ?thesis using val [of v] old(2) [of v] by (auto simp: max_def)
  next
    case False
    then have "map_of p v = map_of pred v" "goint i v = goint incoming v" using val [of v] by (auto simp: max_def split: if_splits)
    then show ?thesis using old(1,2) [of v] old(6) nid(2) by (auto split: option.splits)
  qed
  moreover have "goint ?dist v = goint i v + nodeCost g v \<and> goint ?dist v \<le> goint ?dist ?best" if "v \<in> insert nid P" for v
  proof (cases "v = nid")
    case True
    then show ?thesis using same [OF that] by auto
  next
    case False
    with that have v: "v \<in> P" by simp
    then have "best \<in> P" "[] \<notin> P" using ok(1) by (auto simp: crit_ok_def s split: if_splits)
    then have "best \<noteq> nid" "best \<noteq> []" using nid(2) by auto
    with False old(3,4) [OF v] same [OF that] show ?thesis
      using order_trans [of "goint dist v" "goint dist best" ?d] by (auto simp: less_imp_le)
  qed
  moreover have "goint ?dist u \<le> goint i v" if "u \<in> insert nid P" "(u, v) \<in> arcs g" for u v
  proof (cases "u = nid")
    case True
    then show ?thesis using val(1) [of v] that(2) by simp
  next
    case False
    with that have "goint dist u \<le> goint incoming v" using old(5) by blast
    also have "\<dots> \<le> goint i v" using val(1) [of v] by simp
    finally show ?thesis using False by simp
  qed
  ultimately show ?thesis unfolding step exact_ok_def by blast
qed

section \<open>The order of processing\<close>

text \<open>No arc leads back in the list.\<close>

definition forward :: "(string \<times> string) set \<Rightarrow> string list \<Rightarrow> bool" where
  "forward E xs \<longleftrightarrow> sorted_wrt (\<lambda>u v. (v, u) \<notin> E \<and> u \<noteq> v) xs \<and> (\<forall>u\<in>set xs. (u, u) \<notin> E)"

lemma orderByLevel_forward:
  assumes "\<And>u v. (u, v) \<in> E \<Longrightarrow> goint levels u < goint levels v" "distinct ids"
  shows "forward E (orderByLevel levels ids)" "set (orderByLevel levels ids) = set ids"
proof -
  let ?k = "\<lambda>nid. (goint levels nid, nid)"
  have "sorted (map ?k (orderByLevel levels ids))" "distinct (orderByLevel levels ids)"
    using assms(2) unfolding orderByLevel_def by (simp_all only: sorted_sort_key distinct_sort)
  then have "sorted_wrt (\<lambda>u v. ?k u \<le> ?k v \<and> u \<noteq> v) (orderByLevel levels ids)"
    by (auto simp: sorted_wrt_map distinct_conv_nth sorted_wrt_iff_nth_less)
  then have "sorted_wrt (\<lambda>u v. (v, u) \<notin> E \<and> u \<noteq> v) (orderByLevel levels ids)"
    by (rule sorted_wrt_mono_rel [rotated]) (use assms(1) in fastforce)
  then show "forward E (orderByLevel levels ids)" using assms(1) by (auto simp: forward_def)
  show "set (orderByLevel levels ids) = set ids" by (simp add: orderByLevel_def)
qed

lemma critSteps_ok: "wave_ok g \<Longrightarrow> crit_ok g P s \<Longrightarrow> [] \<notin> set ids \<Longrightarrow> crit_ok g (P \<union> set ids) (fold (critStep g) ids s)"
proof (induction ids arbitrary: P s)
  case (Cons x ids)
  then show ?case using Cons.IH [OF Cons.prems(1) critStep_ok [OF Cons.prems(1,2), of x]] by auto
qed simp

lemma critSteps_exact:
  assumes "wave_ok g"
  shows "crit_ok g P s \<Longrightarrow> exact_ok g P s \<Longrightarrow> [] \<notin> set ids \<Longrightarrow> forward (arcs g) ids \<Longrightarrow> set ids \<inter> P = {} \<Longrightarrow>
    \<forall>u\<in>set ids. \<forall>v\<in>P. (u, v) \<notin> arcs g \<Longrightarrow> exact_ok g (P \<union> set ids) (fold (critStep g) ids s)"
proof (induction ids arbitrary: P s)
  case (Cons x ids)
  have x: "x \<noteq> []" "x \<notin> P" using Cons.prems by auto
  have "v \<notin> insert x P" if "(x, v) \<in> arcs g" for v using Cons.prems(4,6) that by (auto simp: forward_def)
  note step = critStep_ok [OF assms Cons.prems(1) x(1)] critStep_exact [OF assms Cons.prems(1,2) x this]
  have "exact_ok g (insert x P \<union> set ids) (fold (critStep g) ids (critStep g x s))"
    by (rule Cons.IH [OF step]) (use Cons.prems in \<open>auto simp: forward_def\<close>)
  then show ?case by simp
qed simp

section \<open>The walk back\<close>

lemma walkBack_ends:
  assumes "\<And>u v. map_of pred v = Some u \<Longrightarrow> (u, v) \<in> E \<and> u \<in> N \<and> f u < (f v :: nat)" and "v \<in> N"
  shows "\<exists>p. walkBack pred v path = Some (p @ v # path) \<and> successively (\<lambda>a b. (a, b) \<in> E) (p @ [v]) \<and> set p \<subseteq> N"
  using assms(2)
proof (induction "f v" arbitrary: v path rule: less_induct)
  case less
  show ?case
  proof (cases "map_of pred v")
    case None
    then show ?thesis by (intro exI [of _ "[]"]) (simp add: walkBack.simps)
  next
    case (Some u)
    note u = assms(1) [OF this]
    then obtain p where "walkBack pred u (v # path) = Some (p @ u # v # path)"
        "successively (\<lambda>a b. (a, b) \<in> E) (p @ [u])" "set p \<subseteq> N"
      using less.hyps [of u "v # path"] by blast
    then show ?thesis using Some u by (intro exI [of _ "p @ [u]"]) (simp add: walkBack.simps [of pred v] successively_append_iff)
  qed
qed

lemma walkBack_cost:
  fixes cost :: "string \<Rightarrow> 'f :: linordered_ab_group_add"
  assumes pred: "\<And>u v. map_of pred v = Some u \<Longrightarrow> u \<in> N \<and> f u < (f v :: nat)"
    and dist: "\<And>v. v \<in> N \<Longrightarrow> dist v = (case map_of pred v of None \<Rightarrow> 0 | Some u \<Rightarrow> dist u) + cost v"
    and "v \<in> N" "walkBack pred v path = Some q"
  shows "sum_list (map cost q) = dist v + sum_list (map cost path)"
  using assms(3,4)
proof (induction "f v" arbitrary: v path rule: less_induct)
  case less
  show ?case
  proof (cases "map_of pred v")
    case None
    then show ?thesis using less.prems dist [OF less.prems(1)] by (simp add: walkBack.simps [of pred v]) auto
  next
    case (Some u)
    then have "walkBack pred u (v # path) = Some q" using less.prems(2) by (simp add: walkBack.simps [of pred v])
    from less.hyps [OF _ _ this] pred [OF Some] have "sum_list (map cost q) = dist u + sum_list (map cost (v # path))" by blast
    then show ?thesis using Some dist [OF less.prems(1)] by (simp add: add.assoc)
  qed
qed

lemma path_cost:
  fixes cost :: "string \<Rightarrow> 'f :: linordered_ab_group_add"
  assumes dist: "\<And>v. v \<in> N \<Longrightarrow> cost v \<le> dist v" "\<And>u v. u \<in> N \<Longrightarrow> v \<in> N \<Longrightarrow> (u, v) \<in> E \<Longrightarrow> dist u + cost v \<le> dist v"
    and "successively (\<lambda>a b. (a, b) \<in> E) q" "q \<noteq> []" "set q \<subseteq> N"
  shows "sum_list (map cost q) \<le> dist (last q)"
  using assms(3-)
proof (induction q rule: rev_induct)
  case (snoc v q)
  show ?case
  proof (cases "q = []")
    case False
    with snoc have "sum_list (map cost q) \<le> dist (last q)" "(last q, v) \<in> E" by (auto simp: successively_append_iff)
    moreover have "last q \<in> N" "v \<in> N" using False snoc.prems by auto
    ultimately have "sum_list (map cost q) + cost v \<le> dist (last q) + cost v" "dist (last q) + cost v \<le> dist v"
      using dist(2) by auto
    from order_trans [OF this] show ?thesis by simp
  qed (use snoc dist in auto)
qed simp

section \<open>Properties\<close>

lemma built_ids: "built g \<Longrightarrow> [] \<notin> set (wg_order g)"
  by (induction rule: built.induct)
    (auto simp: NewWaveGraph_def AddNode_def AddEdge_def Let_def split: if_splits option.splits)

lemma crit_run:
  fixes g :: "('f :: {plus, ord, zero}) WaveGraph"
  assumes "built g" "topoLevels g = Some level" and "fold (critStep g) (orderByLevel level (wg_order g)) ([], [], [], []) = s"
  shows "crit_ok g (set (wg_order g)) s"
proof -
  have "crit_ok g {} ([], [], [], [] :: string)" by (simp add: crit_ok_def)
  then show ?thesis
    using critSteps_ok [OF built_ok [OF assms(1)], of "{}" "([], [], [], [])" "orderByLevel level (wg_order g)"]
      built_ids [OF assms(1)] assms(3) by (simp add: orderByLevel_def)
qed

lemma exact_run:
  fixes g :: "('f :: linordered_ab_group_add) WaveGraph"
  assumes "built g" "topoLevels g = Some level" and "fold (critStep g) (orderByLevel level (wg_order g)) ([], [], [], []) = s"
  shows "exact_ok g (set (wg_order g)) s"
proof -
  let ?ids = "orderByLevel level (wg_order g)"
  have g: "wave_ok g" by (rule built_ok [OF assms(1)])
  then have d: "distinct (wg_order g)" by (simp add: wave_ok_def)
  have ids: "forward (arcs g) ?ids" "set ?ids = set (wg_order g)"
    using topoLevels_Some(1) [OF g assms(2)] orderByLevel_forward [OF _ d] by blast+
  have "crit_ok g {} ([], [], [], [] :: string)" "exact_ok g {} ([], [], [], [])"
    by (simp_all add: crit_ok_def exact_ok_def goint_def)
  from critSteps_exact [OF g this, of ?ids] ids built_ids [OF assms(1)] assms(3) show ?thesis by simp
qed

abbreviation isPath :: "'f WaveGraph \<Rightarrow> string list \<Rightarrow> bool" where
  "isPath g p \<equiv> set p \<subseteq> set (wg_order g) \<and> successively (\<lambda>u v. (u, v) \<in> arcs g) p"

lemma crit_preds:
  assumes "built g" "topoLevels g = Some level" "crit_ok g (set (wg_order g)) (incoming, dist, pred, best)"
  shows "map_of pred v = Some u \<Longrightarrow> (u, v) \<in> arcs g \<and> u \<in> set (wg_order g) \<and> goint level u < goint level v"
    and "best = [] \<longleftrightarrow> wg_order g = []" "best \<noteq> [] \<Longrightarrow> best \<in> set (wg_order g)"
proof -
  show "map_of pred v = Some u \<Longrightarrow> (u, v) \<in> arcs g \<and> u \<in> set (wg_order g) \<and> goint level u < goint level v"
    using assms(3) topoLevels_Some(1) [OF built_ok [OF assms(1)] assms(2)] by (simp add: crit_ok_def)
  show "best = [] \<longleftrightarrow> wg_order g = []" "best \<noteq> [] \<Longrightarrow> best \<in> set (wg_order g)"
    using assms(3) by (auto simp: crit_ok_def split: if_splits)
qed

text \<open>C21: the walk along the predecessors ends, whatever the addition and the order of the costs: \<open>CriticalPath\<close> always
  returns, with a path of the graph, and with nothing exactly for a graph that has a cycle or no node.\<close>

theorem critical_path_returns:
  fixes g :: "('f :: {plus, ord, zero}) WaveGraph"
  assumes "built g"
  shows "\<exists>path. CriticalPath g = Some path \<and> isPath g path \<and> (path = [] \<longleftrightarrow> \<not> acyclic (arcs g) \<or> wg_order g = [])"
proof (cases "topoLevels g")
  case None
  with topoLevels_None [OF built_ok [OF assms]] show ?thesis by (simp add: CriticalPath_def)
next
  case (Some level)
  obtain incoming dist pred best where run:
    "fold (critStep g) (orderByLevel level (wg_order g)) ([], [], [], []) = (incoming, dist, pred, best)"
    by (metis prod.exhaust)
  note preds = crit_preds [OF assms Some crit_run [OF assms Some run]]
  have acyclic: "acyclic (arcs g)" by (rule topoLevels_Some(2) [OF built_ok [OF assms] Some])
  show ?thesis
  proof (cases "best = []")
    case True
    then show ?thesis using Some run preds(2) by (simp add: CriticalPath_def)
  next
    case False
    then obtain p where "walkBack pred best [] = Some (p @ [best])"
        "successively (\<lambda>a b. (a, b) \<in> arcs g) (p @ [best])" "set p \<subseteq> set (wg_order g)"
      using walkBack_ends [OF preds(1) preds(3)] by blast
    then show ?thesis using False Some run preds(2,3) acyclic by (auto simp: CriticalPath_def)
  qed
qed

lemma critical_path_returns_witness:
  "built demo_graph \<and> CriticalPath demo_graph = Some [''a'', ''c''] \<and> isPath demo_graph [''a'', ''c'']"
proof -
  have "CriticalPath demo_graph = Some [''a'', ''c'']" by code_simp
  with critical_path_returns [OF demo_built] demo_built show ?thesis by auto
qed

text \<open>C22: where the addition of costs is exact, no path of the graph costs more than the critical path.\<close>

theorem critical_path_maximal:
  fixes g :: "('f :: linordered_ab_group_add) WaveGraph"
  assumes "built g" "CriticalPath g = Some path" "path \<noteq> []" "q \<noteq> []" "isPath g q"
  shows "sum_list (map (nodeCost g) q) \<le> sum_list (map (nodeCost g) path)"
proof -
  obtain level where level: "topoLevels g = Some level" using assms(2,3) by (auto simp: CriticalPath_def split: option.splits)
  obtain incoming dist pred best where run:
    "fold (critStep g) (orderByLevel level (wg_order g)) ([], [], [], []) = (incoming, dist, pred, best)"
    by (metis prod.exhaust)
  note preds = crit_preds [OF assms(1) level crit_run [OF assms(1) level run]]
  have walk: "walkBack pred best [] = Some path" "best \<noteq> []"
    using assms(2,3) level run by (auto simp: CriticalPath_def split: if_splits)
  let ?N = "set (wg_order g)"
  have ex: "\<And>v. goint incoming v = (case map_of pred v of None \<Rightarrow> 0 | Some u \<Rightarrow> goint dist u)" "\<And>v. 0 \<le> goint incoming v"
      "\<And>v. v \<in> ?N \<Longrightarrow> goint dist v = goint incoming v + nodeCost g v" "\<And>v. v \<in> ?N \<Longrightarrow> goint dist v \<le> goint dist best"
      "\<And>u v. u \<in> ?N \<Longrightarrow> (u, v) \<in> arcs g \<Longrightarrow> goint dist u \<le> goint incoming v"
    using exact_run [OF assms(1) level run] unfolding exact_ok_def prod.case by blast+
  have "sum_list (map (nodeCost g) path) = goint dist best + sum_list (map (nodeCost g) [])"
    by (rule walkBack_cost [of pred ?N "goint level" "goint dist", OF _ _ preds(3) [OF walk(2)] walk(1)])
      (use preds(1) ex(1,3) in auto)
  moreover have "sum_list (map (nodeCost g) q) \<le> goint dist (last q)"
    by (rule path_cost [of ?N "nodeCost g" "goint dist" "arcs g"]) (use ex(2,3,5) assms(4,5) in auto)
  moreover have "goint dist (last q) \<le> goint dist best" using ex(4) assms(4,5) last_in_set [of q] by blast
  ultimately show ?thesis by simp
qed

lemma critical_path_maximal_witness:
  "isPath demo_graph [''a'', ''b'', ''d''] \<and> CriticalPath demo_graph = Some [''a'', ''c''] \<and>
   sum_list (map (nodeCost demo_graph) [''a'', ''b'', ''d'']) \<le> sum_list (map (nodeCost demo_graph) [''a'', ''c''])"
proof -
  have run: "CriticalPath demo_graph = Some [''a'', ''c'']" by code_simp
  have path: "isPath demo_graph [''a'', ''b'', ''d'']" unfolding arcs_def by code_simp
  from critical_path_maximal [OF demo_built run _ _ path] run path show ?thesis by simp
qed

end
