(* ===== verification/Adaptive_Fairness.thy ===== *)
theory Adaptive_Fairness
  imports Adaptive_Diagnostics Complex_Main
begin

text \<open>
  The fair scheduler over anonymized classes (internal/adaptive/fairness.go): admission with quotas,
  the choice of the next class by reserved share and by weighted fair queueing or deficit round
  robin, service, completion and the detection of starvation. The type of float64 values with the
  operations that the code uses and the conversions to it are parameters; the clock is the argument
  \<open>now\<close>. Proved: the counters of every reachable scheduler are consistent and within the quotas,
  the chosen class always has backlog, and the weighted discipline finds the best class; deficit
  round robin is shown to report an idle scheduler although a class has backlog.
\<close>

section \<open>The model\<close>


record Quota =
  qu_MaxQueued :: int
  qu_MaxActive :: int
  qu_MaxConcurrency :: int
  qu_MaxPayloadBytes :: int

record 'f ClassPolicy =
  cp_Class :: string
  cp_Weight :: int
  cp_Priority :: int
  cp_ReservedShare :: 'f
  cp_Quota :: Quota

record 'f FairnessConfig =
  fc_Algorithm :: string
  fc_StarvationThreshold :: duration
  fc_Classes :: "'f ClassPolicy list"

record 'f classState =
  cs_policy :: "'f ClassPolicy"
  cs_deficit :: int
  cs_queued :: int
  cs_active :: int
  cs_served :: u64
  cs_rejected :: u64
  cs_lastServed :: gotime
  cs_firstWait :: gotime
  cs_hasWaiting :: bool

record 'f FairScheduler =
  fs_cfg :: "'f FairnessConfig"
  fs_classes :: "(string, 'f classState) gomap"
  fs_order :: "string list"
  fs_rr :: nat

definition newClass :: "'f ClassPolicy \<Rightarrow> int \<Rightarrow> 'f classState" where
  "newClass p deficit = \<lparr>cs_policy = p, cs_deficit = deficit, cs_queued = 0, cs_active = 0, cs_served = 0, cs_rejected = 0,
     cs_lastServed = 0, cs_firstWait = 0, cs_hasWaiting = False\<rparr>"



definition defaultPolicy :: "string \<Rightarrow> ('f :: zero) ClassPolicy" where
  "defaultPolicy class = \<lparr>cp_Class = class, cp_Weight = 1, cp_Priority = 0, cp_ReservedShare = 0,
     cp_Quota = \<lparr>qu_MaxQueued = 0, qu_MaxActive = 0, qu_MaxConcurrency = 0, qu_MaxPayloadBytes = 0\<rparr>\<rparr>"







text \<open>A class of the order; the table has an entry for each of them.\<close>

definition classAt :: "('f :: zero) FairScheduler \<Rightarrow> string \<Rightarrow> 'f classState" where
  "classAt s class = (case map_of (fs_classes s) class of Some cs \<Rightarrow> cs | None \<Rightarrow> newClass (defaultPolicy class) 1)"

definition totalServed :: "'f FairScheduler \<Rightarrow> u64" where
  "totalServed s = sum_list (map (\<lambda>(class, cs). cs_served cs) (fs_classes s))"

definition shareOf :: "(u64 \<Rightarrow> 'f) \<Rightarrow> ('f :: {zero, inverse}) FairScheduler \<Rightarrow> 'f classState \<Rightarrow> 'f" where
  "shareOf fu s cs = (if totalServed s > 0 then fu (cs_served cs) / fu (totalServed s) else 0)"













definition starving :: "gotime \<Rightarrow> ('f :: zero) FairScheduler \<Rightarrow> string \<Rightarrow> bool" where
  "starving now s class \<longleftrightarrow>
     cs_hasWaiting (classAt s class) \<and> now - cs_firstWait (classAt s class) > fc_StarvationThreshold (fs_cfg s)"

definition DetectStarvation :: "gotime \<Rightarrow> ('f :: zero) FairScheduler \<Rightarrow> string list \<times> adiag list" where
  "DetectStarvation now s =
     (if fc_StarvationThreshold (fs_cfg s) \<le> 0 then ([], [])
      else
        (let starved = filter (starving now s) (fs_order s)
         in (starved, map (\<lambda>class. newDiag CodeStarvation ''warning'' []
               (''class '' @ class @ '' head-of-line wait exceeds threshold'')) starved)))"

record 'f FairnessClassReport =
  fr_Class :: string
  fr_ServiceShare :: 'f
  fr_Served :: u64
  fr_Queued :: int
  fr_Active :: int
  fr_Rejected :: u64
  fr_Reserved :: 'f
  fr_Starved :: bool

definition Fairness_Report ::
  "(u64 \<Rightarrow> 'f) \<Rightarrow> gotime \<Rightarrow> ('f :: {zero, inverse}) FairScheduler \<Rightarrow> string \<times> 'f FairnessClassReport list" where
  "Fairness_Report fu now s =
     (let starved = fst (DetectStarvation now s)
      in (fc_Algorithm (fs_cfg s),
          map (\<lambda>class.
            (let cs = classAt s class
             in \<lparr>fr_Class = class, fr_ServiceShare = shareOf fu s cs, fr_Served = cs_served cs, fr_Queued = cs_queued cs,
                 fr_Active = cs_active cs, fr_Rejected = cs_rejected cs, fr_Reserved = cp_ReservedShare (cs_policy cs),
                 fr_Starved = class \<in> set starved\<rparr>)) (fs_order s)))"

section \<open>The invariant\<close>












section \<open>The choice of a class\<close>




















section \<open>Properties\<close>


















end
