(* ===== verification/Adaptive_Traverse.thy ===== *)
theory Adaptive_Traverse
  imports Adaptive_Diagnostics
begin

text \<open>
  Level-batched recursive traversal (internal/adaptive/recursive.go). The loader, the child and
  terminal functions of the contract and the state of the context before each level are
  parameters; the loader is told the number of its call. A Go set is the list of its members, and
  the local nextSeen is the set of the keys of next. Proved: the traversal ends, it never exceeds
  its limits by more than the element that hits them, it asks for each key at most once, and when
  it succeeds over a loader that answers each key from one graph it has visited exactly the
  reachable keys, each at its distance from the roots.
\<close>

section \<open>The model\<close>

abbreviation CycleError :: string where "CycleError \<equiv> ''error''"
abbreviation CycleSkipSeen :: string where "CycleSkipSeen \<equiv> ''skip-seen''"
abbreviation CycleReturnMarker :: string where "CycleReturnMarker \<equiv> ''return-cycle-marker''"
abbreviation ErrFailFast :: string where "ErrFailFast \<equiv> ''fail-fast''"
abbreviation ErrCollectPerNode :: string where "ErrCollectPerNode \<equiv> ''collect-per-node''"
abbreviation ErrPartialGraph :: string where "ErrPartialGraph \<equiv> ''partial-graph''"

datatype trav_error =
    ErrRecursiveLimit | ErrRecursiveCycle | ErrRecursiveProofStale | ErrNoChildren | TravError string

record RecursiveLimits =
  rl_MaxDepth :: int
  rl_MaxNodes :: int
  rl_MaxEdges :: int
  rl_MaxFrontier :: int

definition RecursiveLimits_withDefaults :: "RecursiveLimits \<Rightarrow> RecursiveLimits" where
  "RecursiveLimits_withDefaults l =
     (let l = (if rl_MaxDepth l \<le> 0 then l\<lparr>rl_MaxDepth := 32\<rparr> else l);
          l = (if rl_MaxNodes l \<le> 0 then l\<lparr>rl_MaxNodes := 100000\<rparr> else l);
          l = (if rl_MaxEdges l \<le> 0 then l\<lparr>rl_MaxEdges := 1000000\<rparr> else l)
      in if rl_MaxFrontier l \<le> 0 then l\<lparr>rl_MaxFrontier := 65536\<rparr> else l)"

record ('k, 'v) RecursiveContract =
  rc_Children :: "('k \<Rightarrow> 'v option \<Rightarrow> 'k list) option"
  rc_Terminal :: "('k \<Rightarrow> 'v option \<Rightarrow> bool) option"
  rc_Limits :: RecursiveLimits
  rc_Cycle :: string
  rc_ErrorPolicy :: string
  rc_ProofValid :: bool

record ('k, 'v) NodeResult =
  nr_Key :: 'k
  nr_Value :: "'v option"
  nr_Found :: bool
  nr_Err :: "trav_error option"
  nr_Depth :: nat

type_synonym ('k, 'v) RecursiveLoader = "nat \<Rightarrow> 'k list \<Rightarrow> trav_error + ('k, 'v) NodeResult list"

record ('k, 'v) RecursiveResult =
  rr_Order :: "('k, 'v) NodeResult list"
  rr_FrontierSizes :: "nat list"
  rr_DepthReached :: nat
  rr_Nodes :: nat
  rr_Edges :: nat
  rr_CycleMarkers :: "'k list"
  rr_Diagnostics :: "adiag list"

definition zeroResult :: "('k, 'v) RecursiveResult" where
  "zeroResult = \<lparr>rr_Order = [], rr_FrontierSizes = [], rr_DepthReached = 0, rr_Nodes = 0, rr_Edges = 0,
     rr_CycleMarkers = [], rr_Diagnostics = []\<rparr>"

definition withDiag :: "string \<Rightarrow> string \<Rightarrow> ('k, 'v) RecursiveResult \<Rightarrow> ('k, 'v) RecursiveResult" where
  "withDiag code detail res = res\<lparr>rr_Diagnostics := rr_Diagnostics res @ [newDiag code ''error'' [] detail]\<rparr>"

fun dedupKeys :: "'k list \<Rightarrow> 'k list \<Rightarrow> 'k list \<times> 'k list" where
  "dedupKeys [] visited = ([], visited)"
| "dedupKeys (k # ks) visited =
     (if k \<in> set visited then dedupKeys ks visited
      else let (out, visited) = dedupKeys ks (visited @ [k]) in (k # out, visited))"

definition indexResults :: "('k, 'v) NodeResult list \<Rightarrow> ('k, ('k, 'v) NodeResult) gomap" where
  "indexResults rs = fold (\<lambda>r. AList.update (nr_Key r) r) rs []"

text \<open>A step of the level loop: an error ends the traversal, otherwise result and next frontier go on.\<close>

type_synonym ('k, 'v) step = "(trav_error option \<times> ('k, 'v) RecursiveResult) \<times> 'k list"

fun expandChildren ::
  "string \<Rightarrow> RecursiveLimits \<Rightarrow> 'k list \<Rightarrow> 'k list \<Rightarrow> ('k, 'v) RecursiveResult \<Rightarrow> 'k list \<Rightarrow> ('k, 'v) step" where
  "expandChildren cycle limits visited [] res nxt = ((None, res), nxt)"
| "expandChildren cycle limits visited (child # cs) res nxt =
     (let res = res\<lparr>rr_Edges := Suc (rr_Edges res)\<rparr> in
      if int (rr_Edges res) > rl_MaxEdges limits then
        ((Some ErrRecursiveLimit, withDiag CodeRecursiveDepthExceeded
            (''edge count exceeds limit '' @ Itoa (rl_MaxEdges limits)) res), nxt)
      else if child \<in> set visited then
        (if cycle = CycleError then
           ((Some ErrRecursiveCycle, withDiag CodeUnsupportedCycle ''cycle detected in recursive traversal'' res), nxt)
         else if cycle = CycleReturnMarker then
           expandChildren cycle limits visited cs (res\<lparr>rr_CycleMarkers := rr_CycleMarkers res @ [child]\<rparr>) nxt
         else expandChildren cycle limits visited cs res nxt)
      else if child \<in> set nxt then expandChildren cycle limits visited cs res nxt
      else expandChildren cycle limits visited cs res (nxt @ [child]))"

text \<open>The key of a frontier: recorded, counted and, where nothing forbids it, expanded.\<close>

definition nodeFor :: "nat \<Rightarrow> ('k, ('k, 'v) NodeResult) gomap \<Rightarrow> 'k \<Rightarrow> ('k, 'v) NodeResult" where
  "nodeFor depth byKey key =
     (case map_of byKey key of
        Some nr \<Rightarrow> nr
      | None \<Rightarrow> \<lparr>nr_Key = key, nr_Value = None, nr_Found = False, nr_Err = None, nr_Depth = 0\<rparr>)\<lparr>nr_Depth := depth\<rparr>"

definition visitNode ::
  "('k, 'v) RecursiveContract \<Rightarrow> ('k \<Rightarrow> 'v option \<Rightarrow> 'k list) \<Rightarrow> RecursiveLimits \<Rightarrow> nat \<Rightarrow> 'k list \<Rightarrow>
   ('k, ('k, 'v) NodeResult) gomap \<Rightarrow> 'k \<Rightarrow> ('k, 'v) RecursiveResult \<Rightarrow> 'k list \<Rightarrow> ('k, 'v) step" where
  "visitNode c children limits depth visited byKey key res nxt =
     (let nr = nodeFor depth byKey key;
          res = res\<lparr>rr_Order := rr_Order res @ [nr], rr_Nodes := Suc (rr_Nodes res)\<rparr>
      in if int (rr_Nodes res) > rl_MaxNodes limits then
           ((Some ErrRecursiveLimit, withDiag CodeRecursiveDepthExceeded
               (''node count exceeds limit '' @ Itoa (rl_MaxNodes limits)) res), nxt)
         else
           (case nr_Err nr of
              Some e \<Rightarrow> if rc_ErrorPolicy c = ErrFailFast then ((Some e, res), nxt) else ((None, res), nxt)
            | None \<Rightarrow>
                if \<not> nr_Found nr then ((None, res), nxt)
                else if (case rc_Terminal c of Some t \<Rightarrow> t key (nr_Value nr) | None \<Rightarrow> False) then ((None, res), nxt)
                else expandChildren (rc_Cycle c) limits visited (children key (nr_Value nr)) res nxt))"

fun visitFrontier ::
  "('k, 'v) RecursiveContract \<Rightarrow> ('k \<Rightarrow> 'v option \<Rightarrow> 'k list) \<Rightarrow> RecursiveLimits \<Rightarrow> nat \<Rightarrow> 'k list \<Rightarrow>
   ('k, ('k, 'v) NodeResult) gomap \<Rightarrow> 'k list \<Rightarrow> ('k, 'v) RecursiveResult \<Rightarrow> 'k list \<Rightarrow> ('k, 'v) step" where
  "visitFrontier c children limits depth visited byKey [] res nxt = ((None, res), nxt)"
| "visitFrontier c children limits depth visited byKey (key # ks) res nxt =
     (case visitNode c children limits depth visited byKey key res nxt of
        ((Some e, res), nxt) \<Rightarrow> ((Some e, res), nxt)
      | ((None, res), nxt) \<Rightarrow> visitFrontier c children limits depth visited byKey ks res nxt)"

function traverseLevels ::
  "('k, 'v) RecursiveContract \<Rightarrow> ('k \<Rightarrow> 'v option \<Rightarrow> 'k list) \<Rightarrow> RecursiveLimits \<Rightarrow> (nat \<Rightarrow> trav_error option) \<Rightarrow>
   ('k, 'v) RecursiveLoader \<Rightarrow> nat \<Rightarrow> 'k list \<Rightarrow> 'k list \<Rightarrow> ('k, 'v) RecursiveResult \<Rightarrow>
   trav_error option \<times> ('k, 'v) RecursiveResult" where
  "traverseLevels c children limits ctxErr loader depth frontier visited res =
     (if frontier = [] then (None, res)
      else if ctxErr depth \<noteq> None then (ctxErr depth, res)
      else if int depth > rl_MaxDepth limits then
        (Some ErrRecursiveLimit, withDiag CodeRecursiveDepthExceeded
           (''depth '' @ showNat depth @ '' exceeds limit '' @ Itoa (rl_MaxDepth limits)) res)
      else if int (length frontier) > rl_MaxFrontier limits then
        (Some ErrRecursiveLimit, withDiag CodeRecursiveDepthExceeded
           (''frontier size '' @ showNat (length frontier) @ '' exceeds limit '' @ Itoa (rl_MaxFrontier limits)) res)
      else
        (let res = res\<lparr>rr_FrontierSizes := rr_FrontierSizes res @ [length frontier], rr_DepthReached := depth\<rparr> in
         case loader depth frontier of
           Inl e \<Rightarrow> (Some e, res)
         | Inr loaded \<Rightarrow>
             (case visitFrontier c children limits depth visited (indexResults loaded) frontier res [] of
                ((Some e, res), nxt) \<Rightarrow> (Some e, res)
              | ((None, res), nxt) \<Rightarrow>
                  traverseLevels c children limits ctxErr loader (Suc depth) nxt (visited @ nxt) res)))"
  by pat_completeness auto
termination
  by (relation "measure (\<lambda>(c, children, limits, ctxErr, loader, depth, frontier, visited, res).
      nat (rl_MaxDepth limits + 1 - int depth))") auto

declare traverseLevels.simps [simp del]

definition Traverse ::
  "(nat \<Rightarrow> trav_error option) \<Rightarrow> 'k list \<Rightarrow> ('k, 'v) RecursiveContract \<Rightarrow> ('k, 'v) RecursiveLoader \<Rightarrow>
   trav_error option \<times> ('k, 'v) RecursiveResult" where
  "Traverse ctxErr roots c loader =
     (if \<not> rc_ProofValid c then
        (Some ErrRecursiveProofStale, withDiag CodeRecursiveProofStale ''traversal proof invalid or stale'' zeroResult)
      else
        (case rc_Children c of
           None \<Rightarrow> (Some ErrNoChildren, zeroResult)
         | Some children \<Rightarrow>
             (let (frontier, visited) = dedupKeys roots []
              in traverseLevels c children (RecursiveLimits_withDefaults (rc_Limits c)) ctxErr loader 0 frontier visited
                   zeroResult)))"

section \<open>Keys and sets\<close>

lemma dedupKeys_spec:
  "set (fst (dedupKeys ks v)) = set ks - set v" "distinct (fst (dedupKeys ks v))"
  "set (snd (dedupKeys ks v)) = set v \<union> set ks"
  by (induction ks v rule: dedupKeys.induct) (auto simp: split_beta Let_def)

lemma indexResults_key: "map_of (indexResults rs) k = Some r \<Longrightarrow> nr_Key r = k"
proof -
  have "map_of (fold (\<lambda>r. AList.update (nr_Key r) r) rs m) k = Some r \<Longrightarrow>
      (\<forall>k r. map_of m k = Some r \<longrightarrow> nr_Key r = k) \<Longrightarrow> nr_Key r = k" for m
    by (induction rs arbitrary: m) auto
  then show "map_of (indexResults rs) k = Some r \<Longrightarrow> nr_Key r = k" by (simp add: indexResults_def)
qed

lemma nodeFor_key [simp]: "nr_Key (nodeFor d (indexResults rs) k) = k" "nr_Depth (nodeFor d m k) = d"
  by (auto simp: nodeFor_def indexResults_key split: option.split)

section \<open>Expanding a node\<close>

text \<open>What expanding children and visiting a frontier keep of the result.\<close>

definition counts_ok :: "RecursiveLimits \<Rightarrow> ('k, 'v) RecursiveResult \<Rightarrow> bool" where
  "counts_ok limits res \<longleftrightarrow> rr_Nodes res = length (rr_Order res) \<and> int (rr_Nodes res) \<le> rl_MaxNodes limits \<and>
     int (rr_Edges res) \<le> rl_MaxEdges limits"

definition counts_near :: "RecursiveLimits \<Rightarrow> ('k, 'v) RecursiveResult \<Rightarrow> bool" where
  "counts_near limits res \<longleftrightarrow> rr_Nodes res = length (rr_Order res) \<and> int (rr_Nodes res) \<le> rl_MaxNodes limits + 1 \<and>
     int (rr_Edges res) \<le> rl_MaxEdges limits + 1"

lemma counts_ok_near: "counts_ok limits res \<Longrightarrow> counts_near limits res"
  by (simp add: counts_ok_def counts_near_def)

lemma withDiag_sel [simp]:
  "rr_Order (withDiag a b res) = rr_Order res" "rr_FrontierSizes (withDiag a b res) = rr_FrontierSizes res"
  "rr_Nodes (withDiag a b res) = rr_Nodes res" "rr_Edges (withDiag a b res) = rr_Edges res"
  by (simp_all add: withDiag_def)

lemma expandChildren_keeps:
  assumes "expandChildren cycle limits visited cs res nxt = ((e, res'), nxt')"
  shows "rr_Order res' = rr_Order res" "rr_FrontierSizes res' = rr_FrontierSizes res" "rr_Nodes res' = rr_Nodes res"
    "int (rr_Edges res) \<le> rl_MaxEdges limits \<Longrightarrow> int (rr_Edges res') \<le> rl_MaxEdges limits + (if e = None then 0 else 1)"
  using assms
  by (induction cycle limits visited cs res nxt rule: expandChildren.induct) (auto simp: Let_def split: if_splits)

lemma expandChildren_next:
  assumes "expandChildren cycle limits visited cs res nxt = ((None, res'), nxt')" "distinct nxt" "set nxt \<inter> set visited = {}"
  shows "distinct nxt' \<and> set nxt' = set nxt \<union> (set cs - set visited)"
  using assms
  by (induction cycle limits visited cs res nxt rule: expandChildren.induct) (auto simp: Let_def split: if_splits)

text \<open>The children that a visit expands, given what the loader answered.\<close>

definition kidsOf ::
  "('k, 'v) RecursiveContract \<Rightarrow> ('k \<Rightarrow> 'v option \<Rightarrow> 'k list) \<Rightarrow> ('k \<Rightarrow> ('k, 'v) NodeResult option) \<Rightarrow> 'k \<Rightarrow> 'k list" where
  "kidsOf c children node k =
     (case node k of
        None \<Rightarrow> []
      | Some nr \<Rightarrow>
          if nr_Err nr = None \<and> nr_Found nr \<and> \<not> (case rc_Terminal c of Some t \<Rightarrow> t k (nr_Value nr) | None \<Rightarrow> False)
          then children k (nr_Value nr) else [])"

lemma visitNode_keeps:
  assumes "visitNode c children limits d visited byKey key res nxt = ((e, res'), nxt')" "counts_ok limits res"
  shows "rr_Order res' = rr_Order res @ [nodeFor d byKey key]" "rr_FrontierSizes res' = rr_FrontierSizes res"
    "if e = None then counts_ok limits res' else counts_near limits res'"
  using assms expandChildren_keeps [of "rc_Cycle c" limits visited _ "res\<lparr>rr_Order := rr_Order res @ [nodeFor d byKey key],
      rr_Nodes := Suc (rr_Nodes res)\<rparr>" nxt e res' nxt']
  by (auto simp: visitNode_def Let_def counts_ok_def counts_near_def split: if_splits option.splits)

lemma visitNode_next:
  assumes "visitNode c children limits d visited byKey key res nxt = ((None, res'), nxt')"
    "distinct nxt" "set nxt \<inter> set visited = {}"
  shows "distinct nxt' \<and> set nxt' = set nxt \<union> (set (kidsOf c children (map_of byKey) key) - set visited)"
  using assms expandChildren_next [of "rc_Cycle c" limits visited _ _ nxt res' nxt']
  by (auto simp: visitNode_def Let_def kidsOf_def nodeFor_def split: if_splits option.splits)

lemma visitFrontier_keeps:
  assumes "visitFrontier c children limits d visited byKey ks res nxt = ((e, res'), nxt')" "counts_ok limits res"
  shows "\<exists>ks'. prefix ks' ks \<and> rr_Order res' = rr_Order res @ map (nodeFor d byKey) ks' \<and> (e = None \<longrightarrow> ks' = ks) \<and>
    rr_FrontierSizes res' = rr_FrontierSizes res \<and> (if e = None then counts_ok limits res' else counts_near limits res')"
  using assms
proof (induction ks arbitrary: res nxt)
  case (Cons k ks)
  obtain e1 res1 nxt1 where v: "visitNode c children limits d visited byKey k res nxt = ((e1, res1), nxt1)"
    by (metis prod.exhaust)
  note keeps = visitNode_keeps [OF v Cons.prems(2)]
  show ?case
  proof (cases e1)
    case None
    with Cons.prems(1) v have "visitFrontier c children limits d visited byKey ks res1 nxt1 = ((e, res'), nxt')" by simp
    from Cons.IH [OF this] None keeps obtain ks' where "prefix ks' ks"
        "rr_Order res' = rr_Order res1 @ map (nodeFor d byKey) ks'" "e = None \<longrightarrow> ks' = ks"
        "rr_FrontierSizes res' = rr_FrontierSizes res1" "if e = None then counts_ok limits res' else counts_near limits res'"
      by auto
    then show ?thesis using keeps by (intro exI [of _ "k # ks'"]) simp
  next
    case (Some x)
    then show ?thesis using Cons.prems(1) v keeps by (intro exI [of _ "[k]"]) auto
  qed
qed simp

lemma visitFrontier_next:
  assumes "visitFrontier c children limits d visited byKey ks res nxt = ((None, res'), nxt')"
    "distinct nxt" "set nxt \<inter> set visited = {}"
  shows "distinct nxt' \<and> set nxt' = set nxt \<union> ((\<Union>k\<in>set ks. set (kidsOf c children (map_of byKey) k)) - set visited)"
  using assms
proof (induction ks arbitrary: res nxt)
  case (Cons k ks)
  obtain e1 res1 nxt1 where v: "visitNode c children limits d visited byKey k res nxt = ((e1, res1), nxt1)"
    by (metis prod.exhaust)
  with Cons.prems(1) have e1: "e1 = None" by (cases e1) auto
  have n1: "distinct nxt1 \<and> set nxt1 = set nxt \<union> (set (kidsOf c children (map_of byKey) k) - set visited)"
    by (rule visitNode_next [OF v [unfolded e1] Cons.prems(2,3)])
  then have "set nxt1 \<inter> set visited = {}" using Cons.prems(3) by auto
  with Cons.IH [of res1 nxt1] Cons.prems(1) v e1 n1 show ?case by auto
qed simp

section \<open>Bounds\<close>

text \<open>The state at the head of the level loop.\<close>

definition levels_ok :: "RecursiveLimits \<Rightarrow> nat \<Rightarrow> 'k list \<Rightarrow> 'k list \<Rightarrow> ('k, 'v) RecursiveResult \<Rightarrow> bool" where
  "levels_ok limits depth frontier visited res \<longleftrightarrow>
     counts_ok limits res \<and> length (rr_FrontierSizes res) = depth \<and> int depth \<le> rl_MaxDepth limits + 1 \<and>
     (\<forall>n\<in>set (rr_FrontierSizes res). int n \<le> rl_MaxFrontier limits) \<and>
     distinct frontier \<and> set frontier \<subseteq> set visited \<and>
     distinct (map nr_Key (rr_Order res)) \<and> nr_Key ` set (rr_Order res) = set visited - set frontier"

definition bounded :: "RecursiveLimits \<Rightarrow> trav_error option \<times> ('k, 'v) RecursiveResult \<Rightarrow> bool" where
  "bounded limits r \<longleftrightarrow>
     (if fst r = None then counts_ok limits (snd r) else counts_near limits (snd r)) \<and>
     int (length (rr_FrontierSizes (snd r))) \<le> rl_MaxDepth limits + 1 \<and>
     (\<forall>n\<in>set (rr_FrontierSizes (snd r)). int n \<le> rl_MaxFrontier limits) \<and>
     distinct (map nr_Key (rr_Order (snd r)))"

lemma level_step:
  assumes ok: "levels_ok limits depth frontier visited res"
    and guard: "int depth \<le> rl_MaxDepth limits" "int (length frontier) \<le> rl_MaxFrontier limits"
    and visit: "visitFrontier c children limits depth visited (indexResults loaded) frontier
      (res\<lparr>rr_FrontierSizes := rr_FrontierSizes res @ [length frontier], rr_DepthReached := depth\<rparr>) [] = ((e, res'), nxt)"
  shows "bounded limits (e, res')" "e = None \<Longrightarrow> levels_ok limits (Suc depth) nxt (visited @ nxt) res'"
proof -
  let ?res = "res\<lparr>rr_FrontierSizes := rr_FrontierSizes res @ [length frontier], rr_DepthReached := depth\<rparr>"
  have "counts_ok limits ?res" using ok by (simp add: levels_ok_def counts_ok_def)
  from visitFrontier_keeps [OF visit this] obtain ks where ks: "prefix ks frontier" "e = None \<longrightarrow> ks = frontier"
      "rr_Order res' = rr_Order res @ map (nodeFor depth (indexResults loaded)) ks"
      "rr_FrontierSizes res' = rr_FrontierSizes res @ [length frontier]"
      "if e = None then counts_ok limits res' else counts_near limits res'"
    by auto
  from ks(3) have keys: "map nr_Key (rr_Order res') = map nr_Key (rr_Order res) @ ks" by (simp add: comp_def)
  from ks(1) obtain zs where zs: "frontier = ks @ zs" by (auto elim: prefixE)
  then have ks_sub: "set ks \<subseteq> set frontier" "distinct ks" using ok by (auto simp: levels_ok_def)
  then have "distinct (map nr_Key (rr_Order res'))"
    unfolding keys using ok by (auto simp: levels_ok_def)
  then show "bounded limits (e, res')"
    using ks(4,5) ok guard by (auto simp: bounded_def levels_ok_def)
  show "levels_ok limits (Suc depth) nxt (visited @ nxt) res'" if "e = None"
  proof -
    from visit that have "distinct nxt \<and> set nxt \<inter> set visited = {}"
      using visitFrontier_next [of c children limits depth visited "indexResults loaded" frontier ?res "[]" res' nxt] by auto
    moreover have "nr_Key ` set (rr_Order res') = set visited"
      using keys ks(2) that ok by (metis (no_types, lifting) Diff_partition Un_commute levels_ok_def list.set_map set_append)
    ultimately show ?thesis
      using \<open>distinct (map nr_Key (rr_Order res'))\<close> ks(4,5) that ok guard by (auto simp: levels_ok_def)
  qed
qed

abbreviation recordFrontier :: "nat \<Rightarrow> 'k list \<Rightarrow> ('k, 'v) RecursiveResult \<Rightarrow> ('k, 'v) RecursiveResult" where
  "recordFrontier depth frontier res \<equiv>
     res\<lparr>rr_FrontierSizes := rr_FrontierSizes res @ [length frontier], rr_DepthReached := depth\<rparr>"

text \<open>The rule of the level loop: an invariant at its head and a goal for each way out.\<close>

lemma traverseLevels_rule:
  assumes "I depth frontier visited res"
    and empty: "\<And>d v r. I d [] v r \<Longrightarrow> Q (None, r)"
    and cancelled: "\<And>d f v r e. I d f v r \<Longrightarrow> f \<noteq> [] \<Longrightarrow> ctxErr d = Some e \<Longrightarrow> Q (Some e, r)"
    and limit: "\<And>d f v r a b. I d f v r \<Longrightarrow> f \<noteq> [] \<Longrightarrow> Q (Some ErrRecursiveLimit, withDiag a b r)"
    and failed: "\<And>d f v r e. I d f v r \<Longrightarrow> f \<noteq> [] \<Longrightarrow> int d \<le> rl_MaxDepth limits \<Longrightarrow>
      int (length f) \<le> rl_MaxFrontier limits \<Longrightarrow> loader d f = Inl e \<Longrightarrow> Q (Some e, recordFrontier d f r)"
    and stopped: "\<And>d f v r e rs r' n. I d f v r \<Longrightarrow> f \<noteq> [] \<Longrightarrow> int d \<le> rl_MaxDepth limits \<Longrightarrow>
      int (length f) \<le> rl_MaxFrontier limits \<Longrightarrow> loader d f = Inr rs \<Longrightarrow>
      visitFrontier c children limits d v (indexResults rs) f (recordFrontier d f r) [] = ((Some e, r'), n) \<Longrightarrow> Q (Some e, r')"
    and step: "\<And>d f v r rs r' n. I d f v r \<Longrightarrow> f \<noteq> [] \<Longrightarrow> int d \<le> rl_MaxDepth limits \<Longrightarrow>
      int (length f) \<le> rl_MaxFrontier limits \<Longrightarrow> loader d f = Inr rs \<Longrightarrow>
      visitFrontier c children limits d v (indexResults rs) f (recordFrontier d f r) [] = ((None, r'), n) \<Longrightarrow>
      I (Suc d) n (v @ n) r'"
  shows "Q (traverseLevels c children limits ctxErr loader depth frontier visited res)"
  using assms
proof (induction c children limits ctxErr loader depth frontier visited res rule: traverseLevels.induct)
  case (1 c children limits ctxErr loader depth frontier visited res)
  note inv = "1.prems"(1) and rules = "1.prems"(2-)
  show ?case
  proof (cases "frontier = [] \<or> ctxErr depth \<noteq> None \<or> int depth > rl_MaxDepth limits \<or>
      int (length frontier) > rl_MaxFrontier limits")
    case True
    then show ?thesis
      using inv rules(1-3) by (subst traverseLevels.simps) auto
  next
    case False
    then have guard: "frontier \<noteq> []" "\<not> ctxErr depth \<noteq> None" "\<not> int depth > rl_MaxDepth limits"
        "\<not> int (length frontier) > rl_MaxFrontier limits"
      by auto
    then have small: "int depth \<le> rl_MaxDepth limits" "int (length frontier) \<le> rl_MaxFrontier limits" by auto
    show ?thesis
    proof (cases "loader depth frontier")
      case (Inl e)
      with rules(4) [OF inv guard(1) small] guard show ?thesis by (subst traverseLevels.simps) simp
    next
      case (Inr loaded)
      obtain e res' nxt where visit:
        "visitFrontier c children limits depth visited (indexResults loaded) frontier (recordFrontier depth frontier res) [] =
          ((e, res'), nxt)"
        by (metis prod.exhaust)
      show ?thesis
      proof (cases e)
        case None
        note v = visit [unfolded None]
        have "Q (traverseLevels c children limits ctxErr loader (Suc depth) nxt (visited @ nxt) res')"
          by (rule "1.IH" [OF guard refl Inr v [symmetric] refl refl]) (rule rules(6) [OF inv guard(1) small Inr v], (rule rules; assumption)+)
        then show ?thesis using guard Inr v by (subst traverseLevels.simps) simp
      next
        case (Some x)
        with rules(5) [OF inv guard(1) small Inr visit [unfolded Some]] guard Inr visit show ?thesis
          by (subst traverseLevels.simps) simp
      qed
    qed
  qed
qed

lemma traverseLevels_bounded:
  assumes "levels_ok limits depth frontier visited res"
  shows "bounded limits (traverseLevels c children limits ctxErr loader depth frontier visited res)"
  using assms
proof (rule traverseLevels_rule)
  have ok: "bounded limits (None, r)" if "levels_ok limits d f v r" for d f v and r :: "('a, 'b) RecursiveResult"
    using that by (simp add: bounded_def levels_ok_def)
  have near: "bounded limits (Some e, r)" if "levels_ok limits d f v r" for e d f v and r :: "('a, 'b) RecursiveResult"
    using that counts_ok_near by (auto simp: bounded_def levels_ok_def)
  show "bounded limits (None, r)" if "levels_ok limits d [] v r" for d v and r :: "('a, 'b) RecursiveResult"
    by (rule ok [OF that])
  show "bounded limits (Some e, r)" if "levels_ok limits d f v r" for e d f v and r :: "('a, 'b) RecursiveResult"
    by (rule near [OF that])
  show "bounded limits (Some ErrRecursiveLimit, withDiag a b r)" if "levels_ok limits d f v r"
    for d f v a b and r :: "('a, 'b) RecursiveResult"
    using near [OF that] by (simp add: bounded_def counts_near_def)
  show "bounded limits (Some e, recordFrontier d f r)"
    if "levels_ok limits d f v r" "int d \<le> rl_MaxDepth limits" "int (length f) \<le> rl_MaxFrontier limits"
    for e d f v and r :: "('a, 'b) RecursiveResult"
    using near [OF that(1)] that by (auto simp: bounded_def counts_near_def levels_ok_def)
  show "bounded limits (Some e, r')"
    if "levels_ok limits d f v r" "int d \<le> rl_MaxDepth limits" "int (length f) \<le> rl_MaxFrontier limits"
      "visitFrontier c children limits d v (indexResults rs) f (recordFrontier d f r) [] = ((Some e, r'), n)"
    for e d f v rs r' n and r :: "('a, 'b) RecursiveResult"
    by (rule level_step(1) [OF that])
  show "levels_ok limits (Suc d) n (v @ n) r'"
    if "levels_ok limits d f v r" "int d \<le> rl_MaxDepth limits" "int (length f) \<le> rl_MaxFrontier limits"
      "visitFrontier c children limits d v (indexResults rs) f (recordFrontier d f r) [] = ((None, r'), n)"
    for d f v rs r' n and r :: "('a, 'b) RecursiveResult"
    by (rule level_step(2) [OF that refl])
qed

section \<open>Breadth-first order\<close>

text \<open>Keys at most \<open>n\<close> edges away from the roots.\<close>

primrec reachedBy :: "('k \<times> 'k) set \<Rightarrow> 'k set \<Rightarrow> nat \<Rightarrow> 'k set" where
  "reachedBy E R 0 = R"
| "reachedBy E R (Suc n) = reachedBy E R n \<union> E `` reachedBy E R n"

definition newAt :: "('k \<times> 'k) set \<Rightarrow> 'k set \<Rightarrow> nat \<Rightarrow> 'k set" where
  "newAt E R n = reachedBy E R n - (\<Union>m<n. reachedBy E R m)"

lemma reachedBy_mono: "m \<le> n \<Longrightarrow> reachedBy E R m \<subseteq> reachedBy E R n"
  by (induction rule: dec_induct) auto

lemma earlier_Suc: "(\<Union>m<Suc n. reachedBy E R m) = reachedBy E R n"
proof -
  have "(\<Union>m<Suc n. reachedBy E R m) \<subseteq> reachedBy E R n"
    by (rule UN_least) (simp add: less_Suc_eq_le reachedBy_mono)
  moreover have "reachedBy E R n \<subseteq> (\<Union>m<Suc n. reachedBy E R m)" by blast
  ultimately show ?thesis by (rule subset_antisym)
qed

lemma newAt_Suc: "newAt E R (Suc n) = reachedBy E R (Suc n) - reachedBy E R n"
  unfolding newAt_def earlier_Suc ..

lemma reachedBy_split: "reachedBy E R n = newAt E R n \<union> (\<Union>m<n. reachedBy E R m)"
proof -
  have "(\<Union>m<n. reachedBy E R m) \<subseteq> reachedBy E R n"
    by (rule UN_least) (simp add: reachedBy_mono)
  then show ?thesis by (auto simp: newAt_def)
qed

lemma successors_of_earlier: "E `` (\<Union>m<n. reachedBy E R m) \<subseteq> reachedBy E R n"
proof (cases n)
  case (Suc i)
  then show ?thesis unfolding Suc earlier_Suc by simp
qed simp

lemma reachedBy_next: "reachedBy E R (Suc n) = reachedBy E R n \<union> E `` newAt E R n"
  using reachedBy_split [of E R n] successors_of_earlier [of E R n] by auto

lemma reachedBy_reachable: "reachedBy E R n \<subseteq> E\<^sup>* `` R"
  by (induction n) (auto intro: rtrancl_into_rtrancl)

lemma nothing_new_closed:
  assumes "newAt E R n = {}"
  shows "reachedBy E R n = E\<^sup>* `` R"
proof
  have closed: "E `` reachedBy E R n \<subseteq> reachedBy E R n"
    using assms reachedBy_split [of E R n] successors_of_earlier [of E R n] by simp
  have roots: "R \<subseteq> reachedBy E R n" using reachedBy_mono [of 0 n E R] by simp
  have "k \<in> reachedBy E R n" if "(r, k) \<in> E\<^sup>*" "r \<in> R" for r k
    using that by (induction rule: rtrancl_induct) (use closed roots in auto)
  then show "E\<^sup>* `` R \<subseteq> reachedBy E R n" by auto
qed (rule reachedBy_reachable)

text \<open>The edges that a traversal follows over a graph of nodes.\<close>

definition edgesOf ::
  "('k, 'v) RecursiveContract \<Rightarrow> ('k \<Rightarrow> 'v option \<Rightarrow> 'k list) \<Rightarrow> ('k \<Rightarrow> ('k, 'v) NodeResult option) \<Rightarrow> ('k \<times> 'k) set" where
  "edgesOf c children node = {(a, b). b \<in> set (kidsOf c children node a)}"

definition answers_from :: "('k, 'v) RecursiveLoader \<Rightarrow> ('k \<Rightarrow> ('k, 'v) NodeResult option) \<Rightarrow> bool" where
  "answers_from loader node \<longleftrightarrow>
     (\<forall>d ks rs. loader d ks = Inr rs \<longrightarrow> (\<forall>k\<in>set ks. map_of (indexResults rs) k = node k))"

definition bfs_ok ::
  "('k \<times> 'k) set \<Rightarrow> 'k set \<Rightarrow> nat \<Rightarrow> 'k list \<Rightarrow> 'k list \<Rightarrow> ('k, 'v) RecursiveResult \<Rightarrow> bool" where
  "bfs_ok E R d frontier visited res \<longleftrightarrow>
     set visited = reachedBy E R d \<and> set frontier = newAt E R d \<and>
     nr_Key ` set (rr_Order res) = (\<Union>m<d. reachedBy E R m) \<and>
     (\<forall>nr\<in>set (rr_Order res). nr_Key nr \<in> newAt E R (nr_Depth nr) \<and> nr_Depth nr < d) \<and>
     sorted (map nr_Depth (rr_Order res))"

lemma bfs_step:
  assumes ok: "bfs_ok (edgesOf c children node) R d f v r" and counts: "counts_ok limits r"
    and node: "answers_from loader node" and load: "loader d f = Inr rs"
    and visit: "visitFrontier c children limits d v (indexResults rs) f (recordFrontier d f r) [] = ((None, r'), n)"
  shows "bfs_ok (edgesOf c children node) R (Suc d) n (v @ n) r'"
proof -
  let ?E = "edgesOf c children node"
  have "counts_ok limits (recordFrontier d f r)" using counts by (simp add: counts_ok_def)
  from visitFrontier_keeps [OF visit this]
  have order: "rr_Order r' = rr_Order r @ map (nodeFor d (indexResults rs)) f" by auto
  have "kidsOf c children (map_of (indexResults rs)) k = kidsOf c children node k" if "k \<in> set f" for k
    using node load that by (simp add: answers_from_def kidsOf_def)
  then have "set n = ?E `` newAt ?E R d - set v"
    using visitFrontier_next [OF visit] ok by (auto simp: edgesOf_def bfs_ok_def)
  with ok have nxt: "set v \<union> set n = reachedBy ?E R (Suc d)" "set n = newAt ?E R (Suc d)"
    unfolding bfs_ok_def newAt_Suc reachedBy_next by auto
  have keys: "nr_Key ` set (rr_Order r') = (\<Union>m<Suc d. reachedBy ?E R m)"
    using ok reachedBy_split [of ?E R d] unfolding earlier_Suc by (auto simp: order bfs_ok_def image_Un image_image)
  have "map nr_Depth (rr_Order r') = map nr_Depth (rr_Order r) @ replicate (length f) d"
    by (simp add: order comp_def map_replicate_const)
  moreover have "\<forall>x\<in>set (map nr_Depth (rr_Order r)). x \<le> d" using ok by (auto simp: bfs_ok_def)
  ultimately have "sorted (map nr_Depth (rr_Order r'))"
    using ok by (simp add: bfs_ok_def sorted_append sorted_replicate)
  with nxt keys ok show ?thesis by (auto simp: bfs_ok_def order less_Suc_eq)
qed


definition bfs_done :: "('k \<times> 'k) set \<Rightarrow> 'k set \<Rightarrow> trav_error option \<times> ('k, 'v) RecursiveResult \<Rightarrow> bool" where
  "bfs_done E R r \<longleftrightarrow> (fst r = None \<longrightarrow>
     nr_Key ` set (rr_Order (snd r)) = E\<^sup>* `` R \<and>
     (\<forall>nr\<in>set (rr_Order (snd r)). nr_Key nr \<in> newAt E R (nr_Depth nr)) \<and>
     sorted (map nr_Depth (rr_Order (snd r))))"

lemma traverseLevels_bfs:
  assumes "levels_ok limits d f v r \<and> bfs_ok (edgesOf c children node) R d f v r"
    and node: "answers_from loader node"
  shows "bfs_done (edgesOf c children node) R (traverseLevels c children limits ctxErr loader d f v r)"
  using assms(1)
proof (rule traverseLevels_rule)
  let ?E = "edgesOf c children node"
  show "bfs_done ?E R (None, r)" if "levels_ok limits d [] v r \<and> bfs_ok ?E R d [] v r"
    for d v and r :: "('a, 'b) RecursiveResult"
  proof -
    from that have "newAt ?E R d = {}" by (simp add: bfs_ok_def)
    with nothing_new_closed [of ?E R d] reachedBy_split [of ?E R d] that show ?thesis
      by (simp add: bfs_done_def bfs_ok_def)
  qed
  show "levels_ok limits (Suc d) n (v @ n) r' \<and> bfs_ok ?E R (Suc d) n (v @ n) r'"
    if inv: "levels_ok limits d f v r \<and> bfs_ok ?E R d f v r"
      and guard: "int d \<le> rl_MaxDepth limits" "int (length f) \<le> rl_MaxFrontier limits"
      and load: "loader d f = Inr rs"
      and visit: "visitFrontier c children limits d v (indexResults rs) f (recordFrontier d f r) [] = ((None, r'), n)"
    for d f v rs r' n and r :: "('a, 'b) RecursiveResult"
  proof
    show "levels_ok limits (Suc d) n (v @ n) r'" by (rule level_step(2) [OF conjunct1 [OF inv] guard visit refl])
    have "counts_ok limits r" using inv by (simp add: levels_ok_def)
    then show "bfs_ok ?E R (Suc d) n (v @ n) r'" by (rule bfs_step [OF conjunct2 [OF inv] _ node load visit])
  qed
qed (simp_all add: bfs_done_def)

lemma withDefaults_positive:
  "0 < rl_MaxDepth (RecursiveLimits_withDefaults l)" "0 < rl_MaxNodes (RecursiveLimits_withDefaults l)"
  "0 < rl_MaxEdges (RecursiveLimits_withDefaults l)" "0 < rl_MaxFrontier (RecursiveLimits_withDefaults l)"
  by (auto simp: RecursiveLimits_withDefaults_def Let_def)

lemma Traverse_start:
  assumes "dedupKeys roots [] = (f, v)"
  shows "levels_ok (RecursiveLimits_withDefaults l) 0 f v zeroResult"
    "bfs_ok E (set roots) 0 f v (zeroResult :: ('k, 'v) RecursiveResult)"
  using dedupKeys_spec [of roots "[]"] withDefaults_positive [of l] assms
  by (auto simp: levels_ok_def bfs_ok_def counts_ok_def zeroResult_def newAt_def)

section \<open>The traversal\<close>


text \<open>C24: over a loader that answers every key from one graph, a traversal that returns no error has visited the keys
  reachable from the roots, no other, each once, nearest first, and the depth of each is its distance from the roots.\<close>

theorem traverse_breadth_first:
  assumes "rc_ProofValid c" "rc_Children c = Some children" "answers_from loader node"
    and "Traverse ctxErr roots c loader = (None, res)"
  shows "nr_Key ` set (rr_Order res) = (edgesOf c children node)\<^sup>* `` set roots \<and>
    distinct (map nr_Key (rr_Order res)) \<and> sorted (map nr_Depth (rr_Order res)) \<and>
    (\<forall>nr\<in>set (rr_Order res). nr_Key nr \<in> newAt (edgesOf c children node) (set roots) (nr_Depth nr))"
proof -
  obtain f v where fv: "dedupKeys roots [] = (f, v)" by fastforce
  let ?limits = "RecursiveLimits_withDefaults (rc_Limits c)"
  have run: "traverseLevels c children ?limits ctxErr loader 0 f v zeroResult = (None, res)"
    using assms fv by (simp add: Traverse_def)
  have "bfs_done (edgesOf c children node) (set roots) (None, res)"
    unfolding run [symmetric] using Traverse_start [OF fv] assms(3) by (intro traverseLevels_bfs) auto
  moreover have "bounded ?limits (None, res)"
    unfolding run [symmetric] by (rule traverseLevels_bounded [OF Traverse_start(1) [OF fv]])
  ultimately show ?thesis by (simp add: bfs_done_def bounded_def)
qed

text \<open>A graph in which 0 points to 1 and 2, and 1 and 2 both point to 3: it has no cycle.\<close>

definition diamond_children :: "nat \<Rightarrow> nat option \<Rightarrow> nat list" where
  "diamond_children k v = (if k = 0 then [1, 2] else if k \<le> 2 then [3] else [])"

definition diamond :: "string \<Rightarrow> (nat, nat) RecursiveContract" where
  "diamond cycle = \<lparr>rc_Children = Some diamond_children, rc_Terminal = None,
     rc_Limits = \<lparr>rl_MaxDepth = 5, rl_MaxNodes = 10, rl_MaxEdges = 10, rl_MaxFrontier = 10\<rparr>,
     rc_Cycle = cycle, rc_ErrorPolicy = ErrFailFast, rc_ProofValid = True\<rparr>"

definition found :: "nat \<Rightarrow> (nat, nat) NodeResult" where
  "found k = \<lparr>nr_Key = k, nr_Value = Some k, nr_Found = True, nr_Err = None, nr_Depth = 0\<rparr>"

abbreviation foundLoader :: "(nat, nat) RecursiveLoader" where
  "foundLoader \<equiv> \<lambda>d ks. Inr (map found ks)"

lemma indexResults_map:
  assumes "\<And>k. nr_Key (g k) = k"
  shows "map_of (indexResults (map g ks)) k = (if k \<in> set ks then Some (g k) else None)"
proof -
  have "map_of (fold (\<lambda>r. AList.update (nr_Key r) r) (map g ks) m) k = (if k \<in> set ks then Some (g k) else map_of m k)" for m
    by (induction ks arbitrary: m) (auto simp: assms)
  then show ?thesis by (simp add: indexResults_def)
qed

lemma found_answers: "answers_from foundLoader (\<lambda>k. Some (found k))"
  using indexResults_map [of found] by (auto simp: answers_from_def found_def)

lemma traverse_breadth_first_witness:
  "map (\<lambda>nr. (nr_Key nr, nr_Depth nr)) (rr_Order (snd (Traverse (\<lambda>d. None) [0] (diamond CycleSkipSeen) foundLoader))) =
     [(0, 0), (1, 1), (2, 1), (3, 2)] \<and>
   (edgesOf (diamond CycleSkipSeen) diamond_children (\<lambda>k. Some (found k)))\<^sup>* `` {0} = {0, 1, 2, 3}"
proof -
  let ?r = "Traverse (\<lambda>d. None) [0] (diamond CycleSkipSeen) foundLoader"
  have run: "fst ?r = None"
    "map (\<lambda>nr. (nr_Key nr, nr_Depth nr)) (rr_Order (snd ?r)) = [(0, 0), (1, 1), (2, 1), (3, 2)]"
    by code_simp+
  from run(1) have "?r = (None, snd ?r)" by (metis prod.collapse)
  from traverse_breadth_first [OF _ _ found_answers this]
  have "(edgesOf (diamond CycleSkipSeen) diamond_children (\<lambda>k. Some (found k)))\<^sup>* `` {0} = nr_Key ` set (rr_Order (snd ?r))"
    by (simp add: diamond_def)
  also have "\<dots> = fst ` set (map (\<lambda>nr. (nr_Key nr, nr_Depth nr)) (rr_Order (snd ?r)))"
    by (simp add: image_image)
  finally show ?thesis unfolding run(2) using run(2) by auto
qed

definition shared_children :: "nat \<Rightarrow> nat option \<Rightarrow> nat list" where
  "shared_children k v = (if k = 0 then [1, 2] else if k = 1 then [2] else [])"

text \<open>Under \<open>CycleError\<close> a child that was visited on an earlier or on the same level counts as a cycle, so that the
  graph in which 0 points to 1 and 2, and 1 points to 2, is refused as cyclic although it has no cycle.\<close>

theorem cycle_error_on_acyclic_graph:
  "fst (Traverse (\<lambda>d. None) [0] ((diamond CycleError)\<lparr>rc_Children := Some shared_children\<rparr>) foundLoader) =
     Some ErrRecursiveCycle \<and>
   acyclic (edgesOf ((diamond CycleError)\<lparr>rc_Children := Some shared_children\<rparr>) shared_children (\<lambda>k. Some (found k)))"
proof
  show "fst (Traverse (\<lambda>d. None) [0] ((diamond CycleError)\<lparr>rc_Children := Some shared_children\<rparr>) foundLoader) =
      Some ErrRecursiveCycle"
    by code_simp
  have "edgesOf ((diamond CycleError)\<lparr>rc_Children := Some shared_children\<rparr>) shared_children (\<lambda>k. Some (found k)) \<subseteq> less_than"
    by (auto simp: edgesOf_def kidsOf_def found_def shared_children_def split: if_splits)
  then show "acyclic (edgesOf ((diamond CycleError)\<lparr>rc_Children := Some shared_children\<rparr>) shared_children (\<lambda>k. Some (found k)))"
    using acyclic_subset wf_acyclic wf_less_than by blast
qed

end
