(* ===== verification/Text_Distance.thy ===== *)
theory Text_Distance
  imports BW_Prelude "HOL-Library.List_Lexorder"
begin

text \<open>
  Edit distance and the choice of the closest candidate (internal/textdistance), which the
  configuration decoder uses for its suggestions. The two rows of the dynamic program are lists
  that are updated by index, as in the code. Proved: the result is the least number of insertions,
  deletions and substitutions of single bytes that turn one text into the other, and the closest
  candidate is the least one, in distance and then in text, within the bound.
\<close>

section \<open>The model\<close>

definition min3 :: "nat \<Rightarrow> nat \<Rightarrow> nat \<Rightarrow> nat" where
  "min3 a b c = (let m = a; m = (if b < m then b else m) in if c < m then c else m)"

definition levCell :: "string \<Rightarrow> string \<Rightarrow> nat \<Rightarrow> nat list \<Rightarrow> nat \<Rightarrow> nat list \<Rightarrow> nat list" where
  "levCell a b i prev j cur =
     (let cost = (if a ! (i - 1) = b ! (j - 1) then 0 else 1)
      in cur[j := min3 (cur ! (j - 1) + 1) (prev ! j + 1) (prev ! (j - 1) + cost)])"

definition levRow :: "string \<Rightarrow> string \<Rightarrow> nat \<Rightarrow> nat list \<times> nat list \<Rightarrow> nat list \<times> nat list" where
  "levRow a b i = (\<lambda>(prev, cur).
     (let cur = fold (levCell a b i prev) [1..<length b + 1] (cur[0 := i]) in (cur, prev)))"

definition Levenshtein :: "string \<Rightarrow> string \<Rightarrow> nat" where
  "Levenshtein a b =
     (if a = b then 0
      else if length a = 0 then length b
      else if length b = 0 then length a
      else
        (let prev = [0..<length b + 1];
             cur = replicate (length b + 1) 0;
             (prev, cur) = fold (levRow a b) [1..<length a + 1] (prev, cur)
         in prev ! length b))"

fun closestLoop :: "string \<Rightarrow> string list \<Rightarrow> string \<times> int \<Rightarrow> string \<times> int" where
  "closestLoop target [] best = best"
| "closestLoop target (c # cs) (best, bestDist) =
     (let d = int (Levenshtein target c)
      in if d < bestDist \<or> d = bestDist \<and> c < best then closestLoop target cs (c, d)
         else closestLoop target cs (best, bestDist))"

definition Closest :: "string \<Rightarrow> string list \<Rightarrow> int \<Rightarrow> string \<times> bool" where
  "Closest target candidates maxDistance =
     (let (best, bestDist) = closestLoop target candidates ([], maxDistance + 1)
      in if bestDist \<le> maxDistance then (best, True) else ([], False))"

section \<open>Edits\<close>

text \<open>Texts that differ by the insertion, the deletion or the substitution of one byte.\<close>

definition edit1 :: "(string \<times> string) set" where
  "edit1 = {(u, v). \<exists>p s x y. u = p @ s \<and> v = p @ x # s \<or> u = p @ x # s \<and> v = p @ s \<or> u = p @ x # s \<and> v = p @ y # s}"

lemma edit1_ins: "(p @ s, p @ x # s) \<in> edit1"
  and edit1_del: "(p @ x # s, p @ s) \<in> edit1"
  and edit1_sub: "(p @ x # s, p @ y # s) \<in> edit1"
  unfolding edit1_def by blast+

lemma edit1_cases:
  assumes "(u, v) \<in> edit1"
  obtains (ins) p x s where "u = p @ s" "v = p @ x # s" | (del) p x s where "u = p @ x # s" "v = p @ s"
    | (sub) p x y s where "u = p @ x # s" "v = p @ y # s"
  using assms unfolding edit1_def by blast

lemma edit1_Cons: "(u, v) \<in> edit1 \<Longrightarrow> (x # u, x # v) \<in> edit1"
  by (erule edit1_cases; metis append_Cons edit1_ins edit1_del edit1_sub)

lemma edits_Cons: "(u, v) \<in> edit1 ^^ n \<Longrightarrow> (x # u, x # v) \<in> edit1 ^^ n"
  by (induction n arbitrary: v) (auto intro: edit1_Cons)

lemma edit1_rev: "(u, v) \<in> edit1 \<Longrightarrow> (rev u, rev v) \<in> edit1"
proof (erule edit1_cases)
  fix p s x assume "u = p @ s" "v = p @ x # s"
  then show ?thesis using edit1_ins [of "rev s" "rev p" x] by simp
next
  fix p s x assume "u = p @ x # s" "v = p @ s"
  then show ?thesis using edit1_del [of "rev s" x "rev p"] by simp
next
  fix p s x y assume "u = p @ x # s" "v = p @ y # s"
  then show ?thesis using edit1_sub [of "rev s" x "rev p" y] by simp
qed

lemma edits_rev: "(u, v) \<in> edit1 ^^ n \<Longrightarrow> (rev u, rev v) \<in> edit1 ^^ n"
  by (induction n arbitrary: v) (auto intro: edit1_rev)

section \<open>The reference recursion\<close>

fun lev :: "string \<Rightarrow> string \<Rightarrow> nat" where
  "lev [] b = length b"
| "lev (x # a) [] = Suc (length a)"
| "lev (x # a) (y # b) =
     min3 (lev (x # a) b + 1) (lev a (y # b) + 1) (lev a b + (if x = y then 0 else 1))"

lemma min3_min: "min3 a b c = min (min a b) c"
  by (simp add: min3_def Let_def min_def)

lemma lev_Nil [simp]: "lev a [] = length a"
  by (cases a) auto

lemma lev_same [simp]: "lev a a = 0"
  by (induction a) (auto simp: min3_min)

lemma lev_insert: "lev a (y # b) \<le> lev a b + 1" "lev (x # a) b \<le> lev a b + 1"
proof -
  show "lev a (y # b) \<le> lev a b + 1" by (cases a) (auto simp: min3_min)
  show "lev (x # a) b \<le> lev a b + 1" by (cases b) (auto simp: min3_min)
qed

lemma lev_delete: "lev a b \<le> lev a (y # b) + 1"
proof (induction a)
  case (Cons x a)
  then show ?case using lev_insert(2) [of x a b] by (auto simp: min3_min min_def)
qed simp

lemma lev_context:
  assumes "\<And>a. lev a v \<le> lev a u + 1"
  shows "lev a (x # v) \<le> lev a (x # u) + 1"
proof (induction a)
  case Nil
  show ?case using assms [of "[]"] by simp
next
  case (Cons y a)
  then show ?case using assms [of a] assms [of "y # a"] by (auto simp: min3_min min_def)
qed

lemma lev_substitute: "lev a (z # b) \<le> lev a (y # b) + 1"
proof (induction a)
  case (Cons x a)
  then show ?case by (auto simp: min3_min min_def)
qed simp

lemma lev_append: "(\<And>a. lev a v \<le> lev a u + 1) \<Longrightarrow> lev a (p @ v) \<le> lev a (p @ u) + 1"
  by (induction p arbitrary: a) (simp_all add: lev_context [simplified])

lemma lev_edit1: "(u, v) \<in> edit1 \<Longrightarrow> lev a v \<le> lev a u + 1"
proof (erule edit1_cases)
  show "lev a v \<le> lev a u + 1" if "u = p @ s" "v = p @ x # s" for p s x
    unfolding that by (rule lev_append, rule lev_insert)
  show "lev a v \<le> lev a u + 1" if "u = p @ x # s" "v = p @ s" for p s x
    unfolding that by (rule lev_append, rule lev_delete)
  show "lev a v \<le> lev a u + 1" if "u = p @ x # s" "v = p @ y # s" for p s x y
    unfolding that by (rule lev_append, rule lev_substitute)
qed

lemma lev_lower: "(a, b) \<in> edit1 ^^ n \<Longrightarrow> lev a b \<le> n"
proof (induction n arbitrary: b)
  case (Suc n)
  then obtain c where "(a, c) \<in> edit1 ^^ n" "(c, b) \<in> edit1" by auto
  with Suc.IH lev_edit1 [of c b a] show ?case by fastforce
qed simp

lemma insert_all: "([], b) \<in> edit1 ^^ length b"
  by (induction b) (use edit1_ins [of "[]"] in auto)

lemma delete_all: "(a, []) \<in> edit1 ^^ length a"
proof (induction a)
  case (Cons x a)
  have "(x # a, a) \<in> edit1" using edit1_del [of "[]" x a] by simp
  from relpow_Suc_I2 [OF this Cons] show ?case by simp
qed simp

lemma lev_reached: "(a, b) \<in> edit1 ^^ lev a b"
proof (induction a b rule: lev.induct)
  case (3 x a y b)
  have ins: "(x # a, y # b) \<in> edit1 ^^ (lev (x # a) b + 1)"
    using "3.IH"(1) edit1_ins [of "[]" b y] by auto
  have del: "(x # a, y # b) \<in> edit1 ^^ (lev a (y # b) + 1)"
    using relpow_Suc_I2 [OF _ "3.IH"(2), of "x # a"] edit1_del [of "[]" x a] by simp
  have keep: "(y # a, y # b) \<in> edit1 ^^ lev a b" by (rule edits_Cons [OF "3.IH"(3)])
  then have sub: "(x # a, y # b) \<in> edit1 ^^ (lev a b + (if x = y then 0 else 1))"
    using relpow_Suc_I2 [OF _ keep, of "x # a"] edit1_sub [of "[]" x a y] by simp
  show ?case using ins del sub by (simp add: min3_min min_def)
next
  case (2 x a)
  show ?case using delete_all [of "x # a"] by simp
qed (simp add: insert_all)

section \<open>The rows\<close>

abbreviation plev :: "string \<Rightarrow> string \<Rightarrow> nat \<Rightarrow> nat \<Rightarrow> nat" where
  "plev a b i j \<equiv> lev (rev (take i a)) (rev (take j b))"

lemma plev_Suc:
  assumes "i < length a" "j < length b"
  shows "plev a b (Suc i) (Suc j) =
    min3 (plev a b (Suc i) j + 1) (plev a b i (Suc j) + 1) (plev a b i j + (if a ! i = b ! j then 0 else 1))"
  using assms by (simp add: take_Suc_conv_app_nth)

definition row_ok :: "string \<Rightarrow> string \<Rightarrow> nat \<Rightarrow> nat \<Rightarrow> nat list \<Rightarrow> bool" where
  "row_ok a b i n row \<longleftrightarrow> length row = length b + 1 \<and> (\<forall>j\<le>n. row ! j = plev a b i j)"

lemma levCell_ok:
  assumes "row_ok a b i (length b) prev" "row_ok a b (Suc i) n cur" "i < length a" "n < length b"
  shows "row_ok a b (Suc i) (Suc n) (levCell a b (Suc i) prev (Suc n) cur)"
proof -
  have "cur ! n = plev a b (Suc i) n" "prev ! Suc n = plev a b i (Suc n)" "prev ! n = plev a b i n"
    using assms by (auto simp: row_ok_def)
  then show ?thesis
    using assms plev_Suc [OF assms(3,4)] by (auto simp: row_ok_def levCell_def Let_def nth_list_update le_Suc_eq)
qed

lemma levRow_ok:
  assumes prev: "row_ok a b i (length b) prev" and cur: "length cur = length b + 1" and i: "i < length a"
  shows "case levRow a b (Suc i) (prev, cur) of (p, c) \<Rightarrow> row_ok a b (Suc i) (length b) p \<and> length c = length b + 1"
proof -
  have "row_ok a b (Suc i) n (fold (levCell a b (Suc i) prev) [1..<n + 1] (cur[0 := Suc i]))" if "n \<le> length b" for n
    using that
  proof (induction n)
    case 0
    show ?case using cur i by (simp add: row_ok_def)
  next
    case (Suc n)
    then show ?case using levCell_ok [OF prev _ i] by simp
  qed
  from this [of "length b"] prev show ?thesis by (simp add: levRow_def row_ok_def)
qed

lemma levRows_ok:
  assumes "row_ok a b 0 (length b) prev" "length cur = length b + 1" "n \<le> length a"
  shows "case fold (levRow a b) [1..<n + 1] (prev, cur) of (p, c) \<Rightarrow>
    row_ok a b n (length b) p \<and> length c = length b + 1"
  using assms(3)
proof (induction n)
  case (Suc n)
  obtain p c where pc: "fold (levRow a b) [1..<n + 1] (prev, cur) = (p, c)" by fastforce
  with Suc have "row_ok a b n (length b) p" "length c = length b + 1" by auto
  with levRow_ok [of a b n p c] Suc.prems pc show ?case by simp
qed (use assms in simp)

lemma Levenshtein_lev: "Levenshtein a b = lev (rev a) (rev b)"
proof -
  let ?rows = "fold (levRow a b) [1..<length a + 1] ([0..<length b + 1], replicate (length b + 1) 0)"
  have "row_ok a b 0 (length b) [0..<length b + 1]"
    by (auto simp: row_ok_def nth_append le_less simp del: upt_Suc)
  from levRows_ok [OF this, of "replicate (length b + 1) 0" "length a"]
  have "fst ?rows ! length b = lev (rev a) (rev b)"
    by (simp add: row_ok_def split_beta del: upt_Suc)
  then show ?thesis by (simp add: Levenshtein_def split_beta Let_def del: upt_Suc)
qed

lemma Levenshtein_edits:
  "(a, b) \<in> edit1 ^^ Levenshtein a b" "(a, b) \<in> edit1 ^^ n \<Longrightarrow> Levenshtein a b \<le> n"
  using edits_rev [OF lev_reached [of "rev a" "rev b"]] lev_lower edits_rev unfolding Levenshtein_lev by auto

section \<open>Properties\<close>

text \<open>C27: \<open>Levenshtein\<close> is the edit distance: the least number of insertions, deletions and substitutions of one byte
  that turn the first text into the second.\<close>

theorem Levenshtein_correct: "Levenshtein a b = (LEAST n. (a, b) \<in> edit1 ^^ n)"
  using Levenshtein_edits by (rule Least_equality [symmetric])

text \<open>The better of two candidates: nearer, and the lesser text when equally near.\<close>

definition closer :: "string \<Rightarrow> string \<Rightarrow> string \<Rightarrow> bool" where
  "closer target c d \<longleftrightarrow>
     Levenshtein target c < Levenshtein target d \<or> Levenshtein target c = Levenshtein target d \<and> c \<le> d"

lemma closer_refl: "closer target c c"
  by (simp add: closer_def)

lemma closer_trans: "closer target a b \<Longrightarrow> closer target b c \<Longrightarrow> closer target a c"
  unfolding closer_def using order_trans [of a b c] by linarith

lemma closer_antisym: "closer target a b \<Longrightarrow> closer target b a \<Longrightarrow> a = b"
  unfolding closer_def using order_antisym [of a b] by linarith

lemma not_closer: "\<not> closer target a b \<longleftrightarrow>
    int (Levenshtein target b) < int (Levenshtein target a) \<or>
    int (Levenshtein target b) = int (Levenshtein target a) \<and> b < a"
  unfolding closer_def using linorder_not_le [of a b] by linarith

lemma closer_total: "\<not> closer target a b \<Longrightarrow> closer target b a"
  unfolding closer_def using linorder_linear [of a b] by linarith

lemma closestLoop_step:
  "closestLoop target (x # cs) (best, int (Levenshtein target best)) =
     (let best = (if closer target best x then best else x) in closestLoop target cs (best, int (Levenshtein target best)))"
  unfolding closestLoop.simps Let_def not_closer [symmetric] by (simp only: if_not_P if_distrib split: if_split) simp

lemma closestLoop_found:
  assumes "closestLoop target cs (best, int (Levenshtein target best)) = (c, d)"
  shows "d = int (Levenshtein target c) \<and> c \<in> set (best # cs) \<and> (\<forall>x\<in>set (best # cs). closer target c x)"
  using assms
proof (induction cs arbitrary: best)
  case Nil
  then show ?case by (auto simp: closer_refl)
next
  case (Cons x cs)
  let ?b = "if closer target best x then best else x"
  have b: "closer target ?b best" "closer target ?b x" by (simp_all add: closer_refl closer_total)
  have "closestLoop target cs (?b, int (Levenshtein target ?b)) = (c, d)"
    using Cons.prems unfolding closestLoop_step Let_def .
  note ih = Cons.IH [OF this]
  then have "closer target c ?b" by simp
  with b have "closer target c best" "closer target c x" by (blast intro: closer_trans)+
  with ih show ?case by auto
qed

lemma closestLoop_start:
  "closestLoop target cs ([], m) =
     (case dropWhile (\<lambda>c. int (Levenshtein target c) \<ge> m) cs of
        [] \<Rightarrow> ([], m) | c # cs \<Rightarrow> closestLoop target cs (c, int (Levenshtein target c)))"
  by (induction cs) (auto simp: Let_def)

text \<open>\<open>Closest\<close> returns the candidate that is least in distance and then in text, if one is within the bound, and
  otherwise the empty text and false.\<close>

theorem Closest_correct:
  "Closest target candidates m = (c, ok) \<longleftrightarrow>
    (if ok then c \<in> set candidates \<and> int (Levenshtein target c) \<le> m \<and>
        list_all (closer target c) candidates
     else c = [] \<and> list_all (\<lambda>x. m < int (Levenshtein target x)) candidates)"
proof -
  let ?far = "\<lambda>c. int (Levenshtein target c) \<ge> m + 1"
  show ?thesis
  proof (cases "dropWhile ?far candidates")
    case Nil
    then have "Closest target candidates m = ([], False)" unfolding Closest_def closestLoop_start Nil by simp
    moreover from Nil have "list_all ?far candidates" by (simp add: dropWhile_eq_Nil_conv list_all_iff)
    ultimately show ?thesis by (auto simp: list_all_iff)
  next
    case (Cons x xs)
    obtain best d where loop: "closestLoop target xs (x, int (Levenshtein target x)) = (best, d)" by fastforce
    note found = closestLoop_found [OF loop]
    have near: "int (Levenshtein target x) \<le> m" using Cons by (metis dropWhile_eq_Cons_conv not_le zle_add1_eq_le)
    then have best: "int (Levenshtein target best) \<le> m" using found by (auto simp: closer_def)
    then have run: "Closest target candidates m = (best, True)"
      using found unfolding Closest_def closestLoop_start Cons by (simp add: loop)
    have all: "candidates = takeWhile ?far candidates @ x # xs" using Cons by (metis takeWhile_dropWhile_id)
    have "closer target best y" if "y \<in> set candidates" for y
    proof (cases "?far y")
      case True
      with best show ?thesis by (simp add: closer_def)
    next
      case False
      with that all found show ?thesis by (metis Un_iff set_append set_takeWhileD)
    qed
    moreover have "best \<in> set candidates" using found all by (metis Un_iff set_append)
    ultimately have "c \<in> set candidates \<and> list_all (closer target c) candidates \<longleftrightarrow> c = best"
      unfolding list_all_iff by (blast intro: closer_antisym)
    moreover have "\<not> list_all (\<lambda>x. m < int (Levenshtein target x)) candidates"
      using best \<open>best \<in> set candidates\<close> by (auto simp: list_all_iff not_less)
    ultimately show ?thesis using run best by auto
  qed
qed

end
