(* ===== verification/Config_Sizes.thy ===== *)
theory Config_Sizes
  imports Go_Strings
begin

text \<open>
  Byte sizes of the configuration (config/bytesize.go): parsing with an explicit unit and the
  check for overflow of int64, and the canonical rendering. Proved: parsing inverts rendering, an
  accepted text denotes its number times its unit without wrap-around, and everything else is
  rejected.
\<close>

section \<open>Parsing of decimal integers\<close>

text \<open>\<open>strconv.ParseInt\<close> with base 10 and 64 bits; \<open>None\<close> stands for its syntax and range errors.\<close>

definition digitsVal :: "string \<Rightarrow> nat" where
  "digitsVal ds = foldl (\<lambda>n c. 10 * n + (of_char c - 48)) 0 ds"

definition ParseInt64 :: "string \<Rightarrow> int option" where
  "ParseInt64 s =
     (let (neg, ds) = (case s of [] \<Rightarrow> (False, []) | c # cs \<Rightarrow>
            if c = CHR ''-'' then (True, cs) else if c = CHR ''+'' then (False, cs) else (False, s))
      in if ds = [] \<or> \<not> list_all isDigit ds then None
         else if neg then (if int (digitsVal ds) \<le> 2 ^ 63 then Some (- int (digitsVal ds)) else None)
         else if int (digitsVal ds) < 2 ^ 63 then Some (int (digitsVal ds)) else None)"

lemma digitsVal_snoc: "digitsVal (ds @ [c]) = 10 * digitsVal ds + (of_char c - 48)"
  by (simp add: digitsVal_def)

lemma digitsVal_showNat [simp]: "digitsVal (showNat n) = n"
proof (induction n rule: showNat.induct)
  case (1 n)
  show ?case
  proof (cases "n < 10")
    case True
    then show ?thesis by (subst showNat.simps) (simp add: digitsVal_def digit_char(2) [simplified])
  next
    case False
    then show ?thesis
      using 1 digit_char(2) [of "n mod 10"] by (subst showNat.simps) (simp add: digitsVal_snoc)
  qed
qed

lemma showNat_all_digits: "list_all isDigit (showNat n)"
  by (simp add: list_all_iff showNat_digits)

lemma sign_not_digit: "\<not> isDigit (CHR ''-'')" "\<not> isDigit (CHR ''+'')"
  by (simp_all add: isDigit_def less_eq_char_def)

lemma ParseInt64_showNat: "int n < 2 ^ 63 \<Longrightarrow> ParseInt64 (showNat n) = Some (int n)"
proof -
  assume n: "int n < 2 ^ 63"
  obtain c cs where s: "showNat n = c # cs" by (meson neq_Nil_conv showNat_ne(1))
  then have "isDigit c" using showNat_digits [of c n] by simp
  then have "c \<noteq> CHR ''-''" "c \<noteq> CHR ''+''" using sign_not_digit by auto
  then have "ParseInt64 (showNat n) =
      (if showNat n = [] \<or> \<not> list_all isDigit (showNat n) then None
       else if int (digitsVal (showNat n)) < 2 ^ 63 then Some (int (digitsVal (showNat n))) else None)"
    unfolding ParseInt64_def s by simp
  then show ?thesis using n showNat_all_digits [of n] by simp
qed

section \<open>The model\<close>

datatype size_error =
    SizeEmpty | SizeNoNumber string | SizeNotANumber string | SizeNegative string | SizeOverflow string | SizeNoUnit string

definition kiB :: int where "kiB = 1024"
definition miB :: int where "miB = kiB * 1024"
definition giB :: int where "giB = miB * 1024"
definition tiB :: int where "tiB = giB * 1024"

definition byteUnits :: "(string \<times> int) list" where
  "byteUnits = [(''KiB'', kiB), (''MiB'', miB), (''GiB'', giB), (''TiB'', tiB),
     (''KB'', 1000), (''MB'', 1000 * 1000), (''GB'', 1000 * 1000 * 1000), (''TB'', 1000 * 1000 * 1000 * 1000), (''B'', 1)]"

definition TrimSuffix :: "string \<Rightarrow> string \<Rightarrow> string" where
  "TrimSuffix s p = (if HasSuffix s p then take (length s - length p) s else s)"

definition scaled :: "string \<Rightarrow> string \<Rightarrow> int \<Rightarrow> size_error + int" where
  "scaled s numPart mult =
     (if numPart = [] then Inl (SizeNoNumber s)
      else
        (case ParseInt64 numPart of
           None \<Rightarrow> Inl (SizeNotANumber s)
         | Some n \<Rightarrow>
             if n < 0 then Inl (SizeNegative s)
             else if n \<noteq> 0 \<and> mult > (2 ^ 63 - 1) div n then Inl (SizeOverflow s)
             else Inr (i64 (n * mult))))"

fun parseUnits :: "string \<Rightarrow> (string \<times> int) list \<Rightarrow> size_error + int" where
  "parseUnits s [] = Inl (SizeNoUnit s)"
| "parseUnits s ((sfx, mult) # us) = (if HasSuffix s sfx then scaled s (TrimSuffix s sfx) mult else parseUnits s us)"

definition ParseByteSize :: "string \<Rightarrow> size_error + int" where
  "ParseByteSize s = (if s = [] then Inl SizeEmpty else parseUnits s byteUnits)"

fun renderUnits :: "int \<Rightarrow> (string \<times> int) list \<Rightarrow> string" where
  "renderUnits n [] = Itoa n @ ''B''"
| "renderUnits n ((sfx, mult) # us) = (if n mod mult = 0 then Itoa (n div mult) @ sfx else renderUnits n us)"

definition ByteSize_String :: "int \<Rightarrow> string" where
  "ByteSize_String b =
     (if b = 0 then ''0B'' else renderUnits b [(''TiB'', tiB), (''GiB'', giB), (''MiB'', miB), (''KiB'', kiB)])"

definition ByteSize_Bytes :: "int \<Rightarrow> int" where
  "ByteSize_Bytes b = b"

definition ByteSize_MarshalText :: "int \<Rightarrow> string" where
  "ByteSize_MarshalText b = ByteSize_String b"

definition ByteSize_UnmarshalText :: "int \<Rightarrow> string \<Rightarrow> int \<times> size_error option" where
  "ByteSize_UnmarshalText b data = assignParsed b (ParseByteSize data)"

section \<open>Units\<close>

lemmas unit_defs = kiB_def miB_def giB_def tiB_def

lemma TrimSuffix_append [simp]: "TrimSuffix (p @ s) s = p"
  by (simp add: TrimSuffix_def HasSuffix_def suffix_def)

lemma HasSuffix_append: "HasSuffix s sfx \<longleftrightarrow> (\<exists>p. s = p @ sfx)"
  by (auto simp: HasSuffix_def suffix_def)

text \<open>The unit of a text: the first of the table that ends it. A number is followed by no other one.\<close>

lemma number_unit:
  assumes "isDigit d" "sfx \<in> fst ` set byteUnits" "u \<in> fst ` set byteUnits"
  shows "HasSuffix (ds @ [d] @ sfx) u \<longleftrightarrow> u = sfx \<or> u = ''B''"
proof -
  have d: "d \<noteq> CHR ''i''" "d \<noteq> CHR ''K''" "d \<noteq> CHR ''M''" "d \<noteq> CHR ''G''" "d \<noteq> CHR ''T''"
    using assms(1) by (auto simp: isDigit_def less_eq_char_def)
  have units: "fst ` set byteUnits = {''KiB'', ''MiB'', ''GiB'', ''TiB'', ''KB'', ''MB'', ''GB'', ''TB'', ''B''}"
    by (simp add: byteUnits_def)
  from assms(2) show ?thesis unfolding HasSuffix_def suffix_to_prefix units
    by (elim insertE emptyE) (use assms(3) [unfolded units] d in \<open>elim insertE emptyE; simp\<close>)+
qed

lemma scaled_showNat:
  assumes "0 < m" "int n * m < 2 ^ 63"
  shows "scaled s (showNat n) m = Inr (int n * m)"
proof -
  have "int n \<le> int n * m" using assms(1) by (cases "n = 0") simp_all
  then have "int n < 2 ^ 63" using assms(2) by linarith
  moreover have "\<not> m > (2 ^ 63 - 1) div int n" if "n \<noteq> 0"
  proof -
    have "m * int n \<le> 2 ^ 63 - 1" using assms(2) by (simp add: mult.commute)
    then have "m * int n div int n \<le> (2 ^ 63 - 1) div int n" using that by (intro zdiv_mono1) simp_all
    then show ?thesis using that by simp
  qed
  moreover have "0 \<le> int n * m" using assms(1) by simp
  then have "in_i64 (int n * m)" using assms(2) by (simp add: in_i64_def)
  ultimately show ?thesis using ParseInt64_showNat [of n] by (auto simp: scaled_def)
qed

lemma parse_number:
  assumes "isDigit d" "(sfx, m) \<in> set byteUnits"
  shows "ParseByteSize (ds @ [d] @ sfx) = scaled (ds @ [d] @ sfx) (ds @ [d]) m"
proof -
  have mem: "sfx \<in> fst ` set byteUnits" using assms(2) by force
  define s where "s = ds @ [d] @ sfx"
  have ne: "s \<noteq> []" by (simp add: s_def)
  have us: "HasSuffix s u = (sfx = u)" if "u \<in> fst ` set byteUnits" "u \<noteq> ''B''" for u
    unfolding s_def using number_unit [OF assms(1) mem that(1), of ds] that(2) by auto
  have b: "HasSuffix s ''B''" unfolding s_def using number_unit [OF assms(1) mem, of "''B''" ds] by (simp add: byteUnits_def)
  have units: "HasSuffix s ''KiB'' = (sfx = ''KiB'')" "HasSuffix s ''MiB'' = (sfx = ''MiB'')" "HasSuffix s ''GiB'' = (sfx = ''GiB'')"
      "HasSuffix s ''TiB'' = (sfx = ''TiB'')" "HasSuffix s ''KB'' = (sfx = ''KB'')" "HasSuffix s ''MB'' = (sfx = ''MB'')"
      "HasSuffix s ''GB'' = (sfx = ''GB'')" "HasSuffix s ''TB'' = (sfx = ''TB'')"
    by (rule us; simp add: byteUnits_def)+
  have trim: "TrimSuffix s sfx = ds @ [d]" using TrimSuffix_append [of "ds @ [d]" sfx] by (simp add: s_def)
  have "ParseByteSize s = scaled s (ds @ [d]) m"
    using assms(2) ne unfolding ParseByteSize_def byteUnits_def parseUnits.simps units list.set
    by (elim insertE emptyE) (simp_all add: b flip: trim)
  then show ?thesis by (simp add: s_def)
qed

lemma renderUnits_cases:
  assumes "\<forall>(sfx, m)\<in>set us. 0 < m"
  shows "\<exists>sfx m q. renderUnits b us = Itoa q @ sfx \<and> b = q * m \<and> 0 < m \<and> ((sfx, m) \<in> set us \<or> (sfx, m) = (''B'', 1))"
  using assms
proof (induction b us rule: renderUnits.induct)
  case (2 n sfx mult us)
  show ?case
  proof (cases "n mod mult = 0")
    case True
    then have "n = n div mult * mult" by auto
    then show ?thesis using True 2 by (intro exI [of _ sfx] exI [of _ mult] exI [of _ "n div mult"]) auto
  next
    case False
    with 2 show ?thesis by auto
  qed
qed auto

lemma ByteSize_roundtrip:
  assumes "0 \<le> b" "b < 2 ^ 63"
  shows "ParseByteSize (ByteSize_String b) = Inr b"
proof (cases "b = 0")
  case True
  have "ParseByteSize (ByteSize_String 0) = Inr 0" by code_simp
  with True show ?thesis by simp
next
  case False
  let ?us = "[(''TiB'', tiB), (''GiB'', giB), (''MiB'', miB), (''KiB'', kiB)]"
  have "\<forall>(sfx, m)\<in>set ?us. 0 < m" by (simp add: unit_defs)
  from renderUnits_cases [OF this, of b] obtain sfx m q where r: "renderUnits b ?us = Itoa q @ sfx" "b = q * m" "0 < m"
      "(sfx, m) \<in> set ?us \<or> (sfx, m) = (''B'', 1)"
    by blast
  have "0 \<le> q" using r(2,3) assms(1) by (simp add: zero_le_mult_iff)
  then have q: "Itoa q = showNat (nat q)" "q = int (nat q)" by (simp_all add: Itoa_def)
  have unit: "(sfx, m) \<in> set byteUnits" using r(4) by (auto simp: byteUnits_def)
  obtain ds d where n: "showNat (nat q) = ds @ [d]" by (meson rev_exhaust showNat_ne(1))
  then have d: "isDigit d" using showNat_digits [of d "nat q"] by simp
  have "int (nat q) * m < 2 ^ 63" using r(2) assms(2) q(2) by simp
  from scaled_showNat [OF r(3) this] have "ParseByteSize (showNat (nat q) @ sfx) = Inr (int (nat q) * m)"
    using parse_number [OF d unit, of ds] by (simp add: n)
  then show ?thesis using False r(1,2) q by (simp add: ByteSize_String_def)
qed

section \<open>Accepted texts\<close>

lemma number_last: "ParseInt64 p = Some n \<Longrightarrow> \<exists>ds d. p = ds @ [d] \<and> isDigit d"
proof (cases p)
  case (Cons c cs)
  assume parsed: "ParseInt64 p = Some n"
  have "\<exists>xs ds. p = xs @ ds \<and> ds \<noteq> [] \<and> list_all isDigit ds"
  proof (cases "c = CHR ''-'' \<or> c = CHR ''+''")
    case True
    then have "cs \<noteq> []" "list_all isDigit cs" using parsed Cons by (auto simp: ParseInt64_def split: if_splits)
    then show ?thesis using Cons by (intro exI [of _ "[c]"] exI [of _ cs]) simp
  next
    case False
    then have "list_all isDigit p" using parsed Cons by (simp add: ParseInt64_def split: if_splits)
    then show ?thesis using Cons by (intro exI [of _ "[]"] exI [of _ p]) simp
  qed
  then obtain xs ds where "p = xs @ ds" "ds \<noteq> []" "list_all isDigit ds" by blast
  then have "p = (xs @ butlast ds) @ [last ds] \<and> isDigit (last ds)" by (simp add: list_all_iff)
  then show ?thesis by blast
qed (simp add: ParseInt64_def)

lemma le_div_int: "0 < n \<Longrightarrow> m \<le> k div n \<longleftrightarrow> m * n \<le> (k :: int)"
proof
  assume n: "0 < n"
  show "m * n \<le> k" if "m \<le> k div n"
  proof -
    have "m * n \<le> k div n * n" using that n by (simp add: mult_right_mono)
    also have "\<dots> \<le> k" using n by (metis add.commute div_mult_mod_eq le_add_same_cancel2 pos_mod_sign)
    finally show ?thesis .
  qed
  show "m \<le> k div n" if "m * n \<le> k" using zdiv_mono1 [OF that n] n by simp
qed

lemma scaled_Inr:
  assumes "0 < m"
  shows "scaled s p m = Inr b \<longleftrightarrow> (\<exists>n. ParseInt64 p = Some n \<and> 0 \<le> n \<and> b = n * m \<and> b < 2 ^ 63)"
proof (cases "ParseInt64 p")
  case None
  then show ?thesis by (simp add: scaled_def)
next
  case (Some n)
  then have p: "p \<noteq> []" by (auto simp: ParseInt64_def)
  show ?thesis
  proof (cases "0 \<le> n")
    case True
    have "\<not> (n \<noteq> 0 \<and> m > (2 ^ 63 - 1) div n) \<longleftrightarrow> n * m < 2 ^ 63"
      using le_div_int [of n m "2 ^ 63 - 1"] True by (cases "n = 0") (auto simp: not_less mult.commute)
    moreover have "in_i64 (n * m)" if "n * m < 2 ^ 63"
    proof -
      have "0 \<le> n * m" using True assms by simp
      with that show ?thesis unfolding in_i64_def by linarith
    qed
    ultimately show ?thesis using Some p True by (auto simp: scaled_def)
  qed (use Some p in \<open>simp add: scaled_def\<close>)
qed

lemma parseUnits_Inr:
  "parseUnits s us = Inr b \<Longrightarrow> \<exists>(sfx, m)\<in>set us. \<exists>p. s = p @ sfx \<and> scaled s p m = Inr b"
proof (induction s us rule: parseUnits.induct)
  case (2 s sfx mult us)
  show ?case
  proof (cases "HasSuffix s sfx")
    case True
    then obtain p where p: "s = p @ sfx" by (auto simp: HasSuffix_append)
    with 2(2) True have "scaled s p mult = Inr b" by simp
    with p show ?thesis by auto
  next
    case False
    with 2 show ?thesis by auto
  qed
qed simp

lemma units_positive: "(sfx, m) \<in> set byteUnits \<Longrightarrow> 0 < m"
  by (auto simp: byteUnits_def unit_defs)

section \<open>Property\<close>

text \<open>C40: a text is accepted exactly when it is a decimal integer that is not negative, followed by a unit, whose product
  fits in int64, and its value is that product; every size is the value of its canonical text.\<close>

theorem byte_size_text:
  "(ParseByteSize s = Inr b \<longleftrightarrow>
     (\<exists>p sfx m n. s = p @ sfx \<and> (sfx, m) \<in> set byteUnits \<and> ParseInt64 p = Some n \<and> 0 \<le> n \<and> b = n * m \<and> b < 2 ^ 63)) \<and>
   (0 \<le> b \<and> b < 2 ^ 63 \<longrightarrow> ParseByteSize (ByteSize_String b) = Inr b)"
proof (intro conjI iffI impI)
  assume "ParseByteSize s = Inr b"
  then have "parseUnits s byteUnits = Inr b" by (simp add: ParseByteSize_def split: if_splits)
  from parseUnits_Inr [OF this] obtain sfx m p where mem: "(sfx, m) \<in> set byteUnits" and p: "s = p @ sfx" "scaled s p m = Inr b"
    by auto
  from iffD1 [OF scaled_Inr [OF units_positive [OF mem]] p(2)]
  obtain n where "ParseInt64 p = Some n" "0 \<le> n" "b = n * m" "b < 2 ^ 63" by auto
  with mem p(1) show "\<exists>p sfx m n. s = p @ sfx \<and> (sfx, m) \<in> set byteUnits \<and> ParseInt64 p = Some n \<and>
      0 \<le> n \<and> b = n * m \<and> b < 2 ^ 63"
    by (intro exI [of _ p] exI [of _ sfx] exI [of _ m] exI [of _ n] conjI)
next
  assume "\<exists>p sfx m n. s = p @ sfx \<and> (sfx, m) \<in> set byteUnits \<and> ParseInt64 p = Some n \<and> 0 \<le> n \<and> b = n * m \<and> b < 2 ^ 63"
  then obtain p sfx m n where s: "s = p @ sfx" "(sfx, m) \<in> set byteUnits" "ParseInt64 p = Some n" "0 \<le> n" "b = n * m" "b < 2 ^ 63"
    by blast
  obtain ds d where p: "p = ds @ [d]" "isDigit d" using number_last [OF s(3)] by blast
  have "ParseByteSize s = scaled s p m" using parse_number [OF p(2) s(2), of ds] by (simp add: s(1) p(1))
  moreover have "scaled s p m = Inr b" by (rule iffD2 [OF scaled_Inr [OF units_positive [OF s(2)]]]) (intro exI [of _ n] conjI s(3-6))
  ultimately show "ParseByteSize s = Inr b" by simp
next
  assume "0 \<le> b \<and> b < 2 ^ 63"
  then show "ParseByteSize (ByteSize_String b) = Inr b" using ByteSize_roundtrip by blast
qed

lemma byte_size_text_witness:
  "ByteSize_String 65536 = ''64KiB'' \<and> ParseByteSize ''64KiB'' = Inr 65536"
proof -
  have p: "ByteSize_String 65536 = ''64KiB''" by code_simp
  have "ParseByteSize (ByteSize_String 65536) = Inr 65536"
    by (rule byte_size_text [THEN conjunct2, rule_format]) simp
  then show ?thesis unfolding p by simp
qed

end
