(* ===== verification/Redis_Slots.thy ===== *)
theory Redis_Slots
  imports Go_Strings
begin

unbundle bit_operations_syntax

text \<open>
  Hash slots of a Redis cluster (internal/adapter/redisslot.go): the checksum, the hash tag of a
  key, and the grouping of keys by slot. Proved: the bytewise shift register computes the remainder
  of the message, followed by sixteen zero bits, in the division by the generator over GF(2); the
  hashed part of a key is its first non-empty tag; grouping keeps every index once, in request
  order, under its slot.
\<close>

section \<open>The model\<close>

definition redisSlots :: "16 word" where
  "redisSlots = 16384"

definition crcBit :: "16 word \<Rightarrow> 16 word" where
  "crcBit crc = (if crc AND 0x8000 \<noteq> 0 then push_bit 1 crc XOR 0x1021 else push_bit 1 crc)"

definition crcByte :: "char \<Rightarrow> 16 word \<Rightarrow> 16 word" where
  "crcByte b crc = (crcBit ^^ 8) (crc XOR push_bit 8 (word_of_nat (of_char b)))"

definition crc16 :: "string \<Rightarrow> 16 word" where
  "crc16 data = fold crcByte data 0"

definition hashTag :: "string \<Rightarrow> string" where
  "hashTag key =
     (case dropWhile (\<lambda>c. c \<noteq> CHR ''{'') key of
        [] \<Rightarrow> key
      | _ # rest \<Rightarrow>
          (case dropWhile (\<lambda>c. c \<noteq> CHR ''}'') rest of
             [] \<Rightarrow> key
           | _ # _ \<Rightarrow>
               (let tag = takeWhile (\<lambda>c. c \<noteq> CHR ''}'') rest in if tag \<noteq> [] then tag else key)))"

definition Slot :: "string \<Rightarrow> nat" where
  "Slot key = unat (crc16 (hashTag key) mod redisSlots)"

record SlotGroup =
  sg_Slot :: nat
  sg_Indices :: "nat list"
  sg_Keys :: "string list"

definition addKey :: "nat \<times> string \<Rightarrow> (nat, SlotGroup) gomap \<times> nat list \<Rightarrow> (nat, SlotGroup) gomap \<times> nat list" where
  "addKey = (\<lambda>(i, k) (bySlot, order).
     (let s = Slot k;
          (g, order) = (case map_of bySlot s of
             Some g \<Rightarrow> (g, order)
           | None \<Rightarrow> (\<lparr>sg_Slot = s, sg_Indices = [], sg_Keys = []\<rparr>, order @ [s]));
          g = g\<lparr>sg_Indices := sg_Indices g @ [i], sg_Keys := sg_Keys g @ [k]\<rparr>
      in (AList.update s g bySlot, order)))"

definition SlotGroups :: "string list \<Rightarrow> SlotGroup list" where
  "SlotGroups keys =
     (let (bySlot, order) = fold addKey (zip [0..<length keys] keys) ([], [])
      in map (\<lambda>s. the (map_of bySlot s)) (sort order))"

fun SameSlot :: "string list \<Rightarrow> bool" where
  "SameSlot [] = True"
| "SameSlot [k] = True"
| "SameSlot (k # ks) = list_all (\<lambda>k'. Slot k' = Slot k) ks"

section \<open>Polynomial division\<close>

text \<open>Polynomials over GF(2) are lists of coefficients, highest first. The generator is
  \<open>x\<^sup>1\<^sup>6 + x\<^sup>1\<^sup>2 + x\<^sup>5 + 1\<close>; \<open>generator\<close> holds its coefficients below the leading one.\<close>

definition generator :: "bool list" where
  "generator = map (\<lambda>i. i \<in> {12, 5, 0 :: nat}) (rev [0..<16])"

definition padd :: "bool list \<Rightarrow> bool list \<Rightarrow> bool list" where
  "padd a p = map2 (\<noteq>) a (take (length a) p) @ drop (length a) p"

lemma length_padd [termination_simp]: "length a \<le> length p \<Longrightarrow> length (padd a p) = length p"
  by (simp add: padd_def)

lemma length_generator [termination_simp]: "length generator = 16"
  by (simp add: generator_def)

fun premainder :: "bool list \<Rightarrow> bool list" where
  "premainder [] = []"
| "premainder (b # bs) =
     (if length bs < 16 then b # bs else if b then premainder (padd generator bs) else premainder bs)"

definition bits8 :: "char \<Rightarrow> bool list" where
  "bits8 c = map (bit (of_char c :: nat)) (rev [0..<8])"

definition bits16 :: "16 word \<Rightarrow> bool list" where
  "bits16 w = map (bit w) (rev [0..<16])"

lemma padd_Cons [simp]: "padd (x # xs) (z # zs) = (x \<noteq> z) # padd xs zs"
  by (simp add: padd_def)

lemma padd_Nil [simp]: "padd [] p = p"
  by (simp add: padd_def)

lemma padd_padd: "length a = length b \<Longrightarrow> length b \<le> length p \<Longrightarrow> padd a (padd b p) = padd (map2 (\<noteq>) a b) p"
proof (induction a b arbitrary: p rule: list_induct2)
  case (Cons x xs y ys)
  then show ?case by (cases p) auto
qed simp

lemma padd_zeros: "length xs + n \<le> length p \<Longrightarrow> padd (xs @ replicate n False) p = padd xs p"
proof (induction xs arbitrary: p)
  case Nil
  have "map2 (\<noteq>) (replicate n False) (take n p) = take n p" by (rule nth_equalityI) (use Nil in auto)
  then show ?case by (simp add: padd_def)
next
  case (Cons x xs)
  then show ?case by (cases p) auto
qed

lemma padd_all_zeros: "padd a (replicate (length a) False @ zs) = a @ zs"
  by (induction a) auto

lemma bits16_xor: "bits16 (a XOR b) = map2 (\<noteq>) (bits16 a) (bits16 b)"
proof -
  have "map (bit (a XOR b)) js = map2 (\<noteq>) (map (bit a) js) (map (bit b) js)" for js
    by (induction js) (simp_all add: bit_xor_iff)
  then show ?thesis by (simp only: bits16_def)
qed

lemma bits16_list: "bits16 w = map (bit w) [15, 14, 13, 12, 11, 10, 9, 8, 7, 6, 5, 4, 3, 2, 1, 0]"
proof -
  have "rev [0..<16] = [15, 14, 13, 12, 11, 10, 9, 8, 7, 6, 5, 4, 3, 2, 1, 0 :: nat]" by code_simp
  then show ?thesis by (simp only: bits16_def)
qed

lemma length_bits16 [simp]: "length (bits16 w) = 16"
  by (simp add: bits16_def)

lemma bit_shift: "bit (push_bit k w) n \<longleftrightarrow> k \<le> n \<and> n < 16 \<and> bit w (n - k)" for w :: "16 word"
  by (simp add: bit_push_bit_iff)

lemma bits16_shift: "bits16 w = bit w 15 # tl (bits16 w)" "bits16 (push_bit 1 w) = tl (bits16 w) @ [False]"
  unfolding bits16_list list.map bit_shift by simp_all

lemma bits16_generator: "bits16 0x1021 = generator"
  by code_simp

lemma register_step:
  assumes "16 \<le> length zs"
  shows "premainder (padd (bits16 crc) (False # zs)) = premainder (padd (bits16 (crcBit crc)) zs)"
proof -
  define d where "d = push_bit 1 crc"
  have d: "bits16 d = tl (bits16 crc) @ [False]" "crcBit crc = (if crc AND 0x8000 \<noteq> 0 then d XOR 0x1021 else d)"
    unfolding d_def by (rule bits16_shift(2), rule crcBit_def)
  have "length (tl (bits16 crc)) + 1 \<le> length zs" using assms by simp
  from padd_zeros [OF this] have tl: "padd (tl (bits16 crc)) zs = padd (bits16 d) zs" by (simp add: d(1))
  have "padd (bits16 crc) (False # zs) = bit crc 15 # padd (bits16 d) zs"
    by (subst bits16_shift(1)) (simp add: tl)
  moreover have "padd generator (padd (bits16 d) zs) = padd (bits16 (d XOR 0x1021)) zs"
  proof -
    have "bits16 (d XOR 0x1021) = map2 (\<noteq>) (bits16 0x1021) (bits16 d)" by (subst xor.commute) (rule bits16_xor)
    then show ?thesis unfolding bits16_generator [symmetric] using padd_padd [of "bits16 0x1021" "bits16 d" zs] assms
      by (simp only: length_bits16)
  qed
  moreover have "crc AND 0x8000 \<noteq> 0 \<longleftrightarrow> bit crc 15"
    using and_exp_eq_0_iff_not_bit [of crc 15] by simp
  moreover have "16 \<le> length (padd (bits16 d) zs)" using assms by (simp add: length_padd)
  ultimately show ?thesis by (simp add: d(2))
qed

lemma register_steps:
  assumes "16 \<le> length zs"
  shows "premainder (padd (bits16 crc) (replicate n False @ zs)) = premainder (padd (bits16 ((crcBit ^^ n) crc)) zs)"
  using assms
proof (induction n arbitrary: crc)
  case (Suc n)
  have "16 \<le> length (replicate n False @ zs)" using Suc.prems by simp
  from register_step [OF this] Suc show ?case by (simp add: funpow_swap1)
qed simp

lemma bits8_top: "bits16 (push_bit 8 (word_of_nat (of_char c))) = bits8 c @ replicate 8 False"
proof -
  have eight: "rev [0..<8] = [7, 6, 5, 4, 3, 2, 1, 0 :: nat]" by code_simp
  have "bit (word_of_nat n :: 16 word) i \<longleftrightarrow> i < 16 \<and> bit n i" for n i
    unfolding bit_of_nat_iff by (simp add: possible_bit_def exp_eq_zero_iff not_le)
  then have "bits16 (push_bit 8 (word_of_nat (of_char c))) = bits8 c @ [False, False, False, False, False, False, False, False]"
    unfolding bits16_list list.map bit_shift bits8_def eight by simp
  then show ?thesis by (simp add: numeral_eq_Suc)
qed

lemma byte_step:
  assumes "16 \<le> length zs"
  shows "premainder (padd (bits16 crc) (bits8 c @ zs)) = premainder (padd (bits16 (crcByte c crc)) zs)"
proof -
  let ?b = "push_bit 8 (word_of_nat (of_char c)) :: 16 word"
  have len: "length (bits8 c) = 8" by (simp add: bits8_def)
  have "padd (bits8 c) (replicate 8 False @ zs) = bits8 c @ zs" using padd_all_zeros [of "bits8 c" zs] by (simp only: len)
  then have "bits8 c @ zs = padd (bits16 ?b) (replicate 8 False @ zs)"
    using padd_zeros [of "bits8 c" 8 "replicate 8 False @ zs"] assms by (simp add: bits8_top len)
  then have "padd (bits16 crc) (bits8 c @ zs) = padd (bits16 (crc XOR ?b)) (replicate 8 False @ zs)"
    using padd_padd [of "bits16 crc" "bits16 ?b" "replicate 8 False @ zs"] assms
    by (simp only: bits16_xor length_bits16 length_append length_replicate)
  then show ?thesis using register_steps [OF assms] by (simp add: crcByte_def)
qed

lemma crc_remainder:
  "premainder (padd (bits16 crc) (concat (map bits8 data) @ replicate 16 False)) = bits16 (fold crcByte data crc)"
proof (induction data arbitrary: crc)
  case Nil
  have "padd (bits16 crc) (replicate 16 False) = bits16 crc" using padd_all_zeros [of "bits16 crc" "[]"] by simp
  moreover have "premainder xs = xs" if "length xs = 16" for xs using that by (cases xs) auto
  ultimately show ?case by simp
next
  case (Cons c data)
  then show ?case using byte_step [of "concat (map bits8 data) @ replicate 16 False" crc c] by simp
qed

text \<open>C38: the checksum of a message is the remainder of the division of its bits, followed by sixteen zeros, by the
  generator \<open>x^16 + x^12 + x^5 + 1\<close> over GF(2).\<close>

theorem crc16_remainder: "bits16 (crc16 data) = premainder (concat (map bits8 data) @ replicate 16 False)"
proof -
  have "bits16 0 = replicate 16 False" by (simp add: bits16_list numeral_eq_Suc)
  then have "padd (bits16 0) zs = zs" if "16 \<le> length zs" for zs using padd_zeros [of "[]" 16 zs] that by simp
  then show ?thesis using crc_remainder [of 0 data] by (simp add: crc16_def)
qed

section \<open>Tags and groups\<close>

text \<open>The tag of a key: what stands between its first opening brace and the next closing one.\<close>

lemma cut_at: "c \<notin> set p \<Longrightarrow> dropWhile (\<lambda>x. x \<noteq> c) (p @ c # r) = c # r \<and> takeWhile (\<lambda>x. x \<noteq> c) (p @ c # r) = p"
  by (induction p) auto

lemma hashTag_tag:
  assumes "key = p @ CHR ''{'' # t @ CHR ''}'' # r" "CHR ''{'' \<notin> set p" "CHR ''}'' \<notin> set t"
  shows "hashTag key = (if t \<noteq> [] then t else key)"
proof -
  have "dropWhile (\<lambda>c. c \<noteq> CHR ''{'') key = CHR ''{'' # t @ CHR ''}'' # r"
    using cut_at [OF assms(2)] assms(1) by simp
  moreover have "dropWhile (\<lambda>c. c \<noteq> CHR ''}'') (t @ CHR ''}'' # r) = CHR ''}'' # r"
      "takeWhile (\<lambda>c. c \<noteq> CHR ''}'') (t @ CHR ''}'' # r) = t"
    using cut_at [OF assms(3)] by blast+
  ultimately show ?thesis by (simp add: hashTag_def)
qed

lemma cut_found:
  assumes "dropWhile (\<lambda>x. x \<noteq> c) s = d # r"
  shows "\<exists>p. s = p @ c # r \<and> c \<notin> set p"
proof -
  have "d = c" using hd_dropWhile [of "\<lambda>x. x \<noteq> c" s] assms by simp
  then have "takeWhile (\<lambda>x. x \<noteq> c) s @ c # r = s" using takeWhile_dropWhile_id [of "\<lambda>x. x \<noteq> c" s] assms by simp
  moreover have "c \<notin> set (takeWhile (\<lambda>x. x \<noteq> c) s)" using set_takeWhileD by fast
  ultimately show ?thesis by metis
qed

lemma hashTag_none:
  assumes "\<nexists>p t r. key = p @ CHR ''{'' # t @ CHR ''}'' # r \<and> CHR ''{'' \<notin> set p \<and> CHR ''}'' \<notin> set t"
  shows "hashTag key = key"
proof (cases "dropWhile (\<lambda>c. c \<noteq> CHR ''{'') key")
  case (Cons c rest)
  from cut_found [OF this] obtain p where p: "key = p @ CHR ''{'' # rest" "CHR ''{'' \<notin> set p" by blast
  show ?thesis
  proof (cases "dropWhile (\<lambda>c. c \<noteq> CHR ''}'') rest")
    case (Cons d r)
    from cut_found [OF this] obtain t where "rest = t @ CHR ''}'' # r" "CHR ''}'' \<notin> set t" by blast
    with p assms show ?thesis by blast
  next
    case Nil
    show ?thesis unfolding hashTag_def Cons list.case Nil ..
  qed
next
  case Nil
  show ?thesis unfolding hashTag_def Nil list.case ..
qed

definition groupFor :: "string list \<Rightarrow> nat \<Rightarrow> SlotGroup" where
  "groupFor keys s =
     (let is = filter (\<lambda>i. Slot (keys ! i) = s) [0..<length keys]
      in \<lparr>sg_Slot = s, sg_Indices = is, sg_Keys = map ((!) keys) is\<rparr>)"

lemma groupFor_snoc:
  "groupFor (keys @ [k]) s =
     (if Slot k = s
      then (groupFor keys s)\<lparr>sg_Indices := sg_Indices (groupFor keys s) @ [length keys], sg_Keys := sg_Keys (groupFor keys s) @ [k]\<rparr>
      else groupFor keys s)"
proof -
  have f: "filter (\<lambda>i. Slot ((keys @ [k]) ! i) = s) [0..<length keys] = filter (\<lambda>i. Slot (keys ! i) = s) [0..<length keys]"
    by (rule filter_cong) (auto simp: nth_append)
  then show ?thesis by (auto simp: groupFor_def Let_def nth_append)
qed

lemma addKeys:
  "case fold addKey (zip [0..<length keys] keys) ([], []) of (bySlot, order) \<Rightarrow>
     distinct order \<and> set order = Slot ` set keys \<and>
     (\<forall>s. map_of bySlot s = (if s \<in> set order then Some (groupFor keys s) else None))"
proof (induction keys rule: rev_induct)
  case (snoc k keys)
  obtain bySlot order where o: "fold addKey (zip [0..<length keys] keys) ([], []) = (bySlot, order)" by fastforce
  have z: "zip [0..<length (keys @ [k])] (keys @ [k]) = zip [0..<length keys] keys @ [(length keys, k)]" by simp
  have empty: "Slot k \<notin> Slot ` set keys \<Longrightarrow> groupFor keys (Slot k) = \<lparr>sg_Slot = Slot k, sg_Indices = [], sg_Keys = []\<rparr>"
    by (auto simp: groupFor_def Let_def filter_empty_conv image_iff) (metis nth_mem)
  show ?case unfolding z using snoc o empty by (auto simp: addKey_def Let_def groupFor_snoc split: if_splits)
qed simp

lemma Slot_bound: "Slot key < 16384"
proof -
  have "crc16 (hashTag key) mod redisSlots < redisSlots" by (rule word_mod_less_divisor) (simp add: redisSlots_def)
  then have "unat (crc16 (hashTag key) mod redisSlots) < unat redisSlots" by (simp add: word_less_nat_alt)
  then show ?thesis by (simp add: Slot_def redisSlots_def)
qed

lemma SlotGroups_groupFor:
  "\<exists>order. SlotGroups keys = map (groupFor keys) order \<and> sorted_wrt (<) order \<and> set order = Slot ` set keys"
proof -
  obtain bySlot order where o: "fold addKey (zip [0..<length keys] keys) ([], []) = (bySlot, order)" by fastforce
  with addKeys [of keys] have inv: "distinct order" "set order = Slot ` set keys"
      "\<And>s. s \<in> set order \<Longrightarrow> map_of bySlot s = Some (groupFor keys s)"
    by auto
  have "SlotGroups keys = map (groupFor keys) (sort order)" using o inv(3) by (simp add: SlotGroups_def)
  moreover have "sorted_wrt (<) (sort order)" using inv(1) by (simp add: strict_sorted_iff)
  ultimately show ?thesis using inv(2) by (intro exI [of _ "sort order"]) simp
qed

text \<open>C39: grouping yields one group per slot that occurs, in ascending order of slots below 16384; a group holds the
  indices of exactly the keys of its slot, in request order, with those keys; and the keys have one slot exactly when there
  is at most one group.\<close>

theorem slot_groups_correct:
  "let gs = SlotGroups keys in
     sorted_wrt (<) (map sg_Slot gs) \<and> set (map sg_Slot gs) = Slot ` set keys \<and>
     list_all (\<lambda>g. sg_Slot g < 16384 \<and> sg_Indices g = filter (\<lambda>i. Slot (keys ! i) = sg_Slot g) [0..<length keys] \<and>
       sg_Keys g = map ((!) keys) (sg_Indices g)) gs \<and>
     (SameSlot keys \<longleftrightarrow> length gs \<le> 1)"
proof -
  obtain order where o: "SlotGroups keys = map (groupFor keys) order" "sorted_wrt (<) order" "set order = Slot ` set keys"
    using SlotGroups_groupFor by blast
  have slots: "map sg_Slot (SlotGroups keys) = order" by (simp add: o(1) groupFor_def Let_def comp_def)
  have "SameSlot keys \<longleftrightarrow> (\<forall>a\<in>set keys. \<forall>b\<in>set keys. Slot a = Slot b)"
    by (cases keys rule: SameSlot.cases) (auto simp: list_all_iff)
  also have "\<dots> \<longleftrightarrow> card (set order) \<le> 1" unfolding o(3) by (auto simp: card_le_Suc0_iff_eq)
  also have "\<dots> \<longleftrightarrow> length order \<le> 1" using o(2) by (simp add: strict_sorted_iff distinct_card)
  finally have "SameSlot keys \<longleftrightarrow> length (SlotGroups keys) \<le> 1" by (simp add: o(1))
  moreover have "s < 16384" if "s \<in> set order" for s using that Slot_bound by (auto simp: o(3))
  then have "list_all (\<lambda>g. sg_Slot g < 16384 \<and> sg_Indices g = filter (\<lambda>i. Slot (keys ! i) = sg_Slot g) [0..<length keys] \<and>
      sg_Keys g = map ((!) keys) (sg_Indices g)) (SlotGroups keys)"
    by (simp add: o(1) list_all_iff groupFor_def Let_def)
  ultimately show ?thesis unfolding Let_def slots using o(2,3) by blast
qed

end
