(* ===== verification/Spec2Isabelle.thy ===== *)
theory Spec2Isabelle
  imports Proof_Report Runtime_Operation Coordinator_Schedule Coordinator_Outcomes Coordinator_Dedup Memo_Table Op_Catalog
    Adaptive_CriticalPath Adaptive_Fairness Adaptive_Traverse Text_Distance Config_Sizes Redis_Slots
begin

text \<open>
  BatchWeaver is a Go library that turns many concurrent requests for single values into few batch
  requests, with a static prover that decides where that is safe and tools around both. This
  development models its runtime, its operation contracts, its prover and the algorithmic parts
  of its scheduling and configuration layers, and proves what makes them correct. Paths are relative
  to src/.

  \<^bold>\<open>The parts and how they interact.\<close> A user declares an operation by a spec (operation/) and binds
  it with a provider to an engine (runtime/engine.go, binding.go). A caller's Do hashes the key,
  asks the memo table of its scope, and submits the request to the coordinator of the operation, a
  single goroutine that owns all queues. The coordinator joins equal keys, schedules batches under
  limits and time windows, calls the provider with a batch request (types.go, request.go), checks its
  response (response.go), and answers every waiting caller. The prover (internal/proof) reads a
  snapshot of a program and decides for which call sites a batching strategy keeps the meaning.
  The adaptive layer (internal/adaptive) plans waves, traverses recursive data in levels, shares
  capacity between classes and recommends settings that the runtime clamps.

  \<^bold>\<open>Conventions.\<close> A struct is a record whose fields carry a short prefix, an enumeration is the uint8
  that the code declares, an error result is a sum with the error on the left, a Go map is an association
  list with distinct keys, a string is the list of its bytes. Objects that are shared by pointer live
  in a store under addresses. The wrap-around of int64 and uint64 is written out where the code can
  reach it. One definition models one method or one loop of it and has the method's name. Code from
  outside the repository is an argument: hash functions, clocks, contexts, providers, the user's
  callbacks, and the type of float64 values with the operations that are used.

  \<^bold>\<open>Foundations.\<close> \<open>BW_Prelude\<close> holds the scalar types, 64-bit arithmetic, maps and list lemmas;
  \<open>Go_Strings\<close> the functions of strings and strconv with their laws.

  \<^bold>\<open>Contract.\<close> \<open>Batch_Contract\<close> (types.go, request.go, response.go, helpers.go): requests are valid
  exactly when non-empty with distinct ids, responses are accepted exactly when they answer the
  requested ids, and the helpers build accepted responses.

  \<^bold>\<open>Runtime.\<close> \<open>Runtime_Keys\<close> (runtime/key.go, partition.go, policy.go) has the key strategies behind the
  locale \<open>key_strategy\<close>, interpreted for all three, and the injectivity of the partition encoding.
  \<open>Memo_Table\<close> (memo.go) refines a bounded first-in first-out list; \<open>Adaptive_Settings\<close> (adaptive.go)
  shows that tuning stays within the configured bounds. \<open>Coordinator\<close>, \<open>Coordinator_Dispatch\<close> and
  \<open>Coordinator_Loop\<close> model coordinator.go, coordinator_handlers.go and coordinator_dispatch.go, one event
  of the select loop being one step whose order the environment chooses. On top of them:
  \<open>Coordinator_Frame\<close> what steps leave alone, \<open>Coordinator_Inv\<close>, \<open>Coordinator_Selection\<close> and
  \<open>Coordinator_Safety\<close> the ownership invariant, \<open>Coordinator_Ledger\<close> that every admitted caller is
  answered exactly once and all are at shutdown, \<open>Coordinator_Batches\<close> the limits and order of batches,
  \<open>Coordinator_Outcomes\<close> what callers are told and what barriers guarantee, \<open>Coordinator_Schedule\<close>
  progress and timers, \<open>Coordinator_Dedup\<close> one live item per key. \<open>Runtime_Engine\<close> (engine.go,
  engine_options.go, scope.go, hooks.go) has engines and scopes with their interleavings,
  \<open>Runtime_Binding\<close> (binding.go, statistics.go) Bind and Do, and \<open>Runtime_Operation\<close> the theorem that callers
  together with a bound operation are a run of its coordinator.

  \<^bold>\<open>Operations and diagnostics.\<close> \<open>Op_Enums\<close>, \<open>Op_Names\<close>, \<open>Op_Policies\<close>, \<open>Op_Spec\<close> and \<open>Op_Catalog\<close>
  (operation/): text forms, grammars and their round trips, the rules that a valid spec obeys, catalogs
  as finite maps. The locale \<open>name_table\<close> is interpreted for every table of names. \<open>Diagnostics\<close>
  (diagnostics/) has codes, positions, fixes and the sorted collection, over the locale \<open>weak_order\<close> of
  stable sorting.

  \<^bold>\<open>Prover.\<close> \<open>Proof_Model\<close>, \<open>Proof_Engine\<close>, \<open>Proof_Soundness\<close> and \<open>Proof_Report\<close> (internal/proof): the
  nineteen obligations, the decisions per strategy and candidate, and that a report decides eligible
  exactly when the facts of the snapshot satisfy the conditions of a strategy.

  \<^bold>\<open>Adaptive layer.\<close> \<open>Adaptive_Waves\<close> and \<open>Adaptive_CriticalPath\<close> (internal/adaptive/wave.go): Kahn's
  algorithm accepts exactly the acyclic graphs and gives longest-path levels; the critical path is a
  path of maximal cost. \<open>Adaptive_Traverse\<close> (recursive.go): the traversal ends within its limits and is a
  breadth-first search. \<open>Adaptive_Fairness\<close> (fairness.go): the invariant of the fair scheduler and the choice
  of a class. \<open>Adaptive_Diagnostics\<close> holds the codes they report.

  \<^bold>\<open>Algorithms of the tools.\<close> \<open>Text_Distance\<close> (internal/textdistance): the two-row dynamic program is the
  edit distance. \<open>Config_Sizes\<close> (config/bytesize.go): byte sizes and their texts. \<open>Redis_Slots\<close>
  (internal/adapter/redisslot.go): the checksum is a polynomial remainder, and grouping by slot.

  \<^bold>\<open>Loops.\<close> No model uses fuel. Loops over lists are structural; the scheduling loop of a partition ends
  because each round takes the oldest item, the traversal because the depth is bounded, Kahn's loop because
  a node enters the queue only when its in-degree falls to zero, eviction because the table shrinks, the id
  generator because only one value is skipped. The walk along the critical path has no bound in the code: its
  value is optional, and it is shown to return.

  \<^bold>\<open>Not modelled.\<close> Files, processes, sockets and JSON: the command line, the language server, the
  editor service, the daemon, caches and the release tools. Source analysis and transformation, which work
  on the trees of go/types, golang.org/x/tools and go/ast; the snapshot that analysis produces is modelled
  as data. The clients of the network adapters, which call third-party packages; a provider is a parameter
  here. The statistics of the adaptive layer, which are float64 computations, so that statements about them
  would mostly be about rounding. Also left out, although it is pure code that could be modelled in the same
  way: the merge and normalization of configuration documents, the recognizers of SQL and GraphQL
  texts, the position mapping and document store of the language server, the clamping, merging and overload logic
  around the adaptive statistics, the canonical encodings that feed digests, and the DOT rendering of
  wave graphs. Of concurrency, the interleaving of whole critical sections and of events of the select loop is
  modelled, not that of single memory accesses; data races are outside the model.
\<close>

end
